theory Spec2Isabelle
  imports Main "HOL-Library.AList"
begin

section \<open>The node health check controller: data model\<close>

text \<open>
  A shallow embedding of \<^verbatim>\<open>controllers/nodehealthcheck_controller.go\<close>. Every Go
  function of the reconciler is a HOL function of the same name. The API server, the
  event recorder, the metrics registry and the logger are one explicit \<open>world\<close> value
  that every effectful function takes and returns; the collaborators that only answer
  questions (the clock, the cluster upgrade checker, the MHC checker) are the read-only
  \<open>env\<close>.
\<close>

subsection \<open>Time\<close>

text \<open>
  A \<^verbatim>\<open>time.Time\<close> is an instant in nanoseconds; its range (hundreds of billions of
  years) is far beyond what a \<^verbatim>\<open>time.Duration\<close> can move it, so instants are
  unbounded integers. A \<^verbatim>\<open>time.Duration\<close> is an int64 count of nanoseconds:
  \<^verbatim>\<open>Time.Sub\<close> saturates at the ends of that range, the arithmetic operators wrap.
\<close>

type_synonym time = int
type_synonym duration = int

definition maxDuration :: duration where
  "maxDuration = 2 ^ 63 - 1"

definition minDuration :: duration where
  "minDuration = - (2 ^ 63)"

definition wrap64 :: "int \<Rightarrow> duration" where
  "wrap64 x = (x + 2 ^ 63) mod 2 ^ 64 - 2 ^ 63"

definition time_Add :: "time \<Rightarrow> duration \<Rightarrow> time" where
  "time_Add t d = t + d"

definition time_After :: "time \<Rightarrow> time \<Rightarrow> bool" where
  "time_After t u = (u < t)"

definition time_Sub :: "time \<Rightarrow> time \<Rightarrow> duration" where
  "time_Sub t u =
     (if maxDuration < t - u then maxDuration
      else if t - u < minDuration then minDuration
      else t - u)"

definition time_Second :: duration where
  "time_Second = 1000000000"

definition time_Minute :: duration where
  "time_Minute = 60 * time_Second"

definition time_Hour :: duration where
  "time_Hour = 60 * time_Minute"

text \<open>
  \<^verbatim>\<open>metav1.Time\<close> is written into an unstructured object as an RFC 3339 string, which
  keeps whole seconds only.
\<close>

definition truncate_seconds :: "time \<Rightarrow> time" where
  "truncate_seconds t = t - t mod time_Second"

subsection \<open>Constants of the controller (lines 51-62)\<close>

definition oldRemediationCRAnnotationKey :: string where
  "oldRemediationCRAnnotationKey = ''nodehealthcheck.medik8s.io/old-remediation-cr-flag''"

definition templateSuffix :: string where
  "templateSuffix = ''Template''"

definition remediationCRAlertTimeout :: duration where
  "remediationCRAlertTimeout = time_Hour * 48"

definition eventReasonRemediationCreated :: string where
  "eventReasonRemediationCreated = ''RemediationCreated''"

definition eventReasonRemediationSkipped :: string where
  "eventReasonRemediationSkipped = ''RemediationSkipped''"

definition eventReasonRemediationRemoved :: string where
  "eventReasonRemediationRemoved = ''RemediationRemoved''"

definition eventReasonDisabled :: string where
  "eventReasonDisabled = ''Disabled''"

definition eventReasonEnabled :: string where
  "eventReasonEnabled = ''Enabled''"

definition eventTypeNormal :: string where
  "eventTypeNormal = ''Normal''"

definition eventTypeWarning :: string where
  "eventTypeWarning = ''Warning''"

text \<open>
  Modelled from the spec: the two constants below are declared in the package
  \<^verbatim>\<open>api/v1alpha1\<close>, which is not part of the sources at hand; the spec names the
  condition \<open>Disabled\<close> and its reason \<open>ConflictingMHC\<close>.
\<close>

definition ConditionTypeDisabled :: string where
  "ConditionTypeDisabled = ''Disabled''"

definition ConditionReasonDisabledMHC :: string where
  "ConditionReasonDisabledMHC = ''ConflictingMHC''"

subsection \<open>Errors\<close>

text \<open>
  Every Go \<^verbatim>\<open>error\<close> the reconciler can see. \<open>NotFound\<close> is the one error kind the
  code inspects (\<^verbatim>\<open>apierrors.IsNotFound\<close>); \<open>Wrapped\<close> is \<^verbatim>\<open>errors.Wrapf\<close>.
\<close>

datatype error =
    NotFound
  | AlreadyExists
  | ApiFailure string
  | Errorf string
  | Wrapped string error

fun IsNotFound :: "error \<Rightarrow> bool" where
  "IsNotFound NotFound = True"
| "IsNotFound _ = False"

subsection \<open>Nodes and the policy\<close>

record node_condition =
  nc_type :: string
  nc_status :: string
  nc_lastTransitionTime :: time

record node =
  node_name :: string
  node_namespace :: string
  node_conditions :: "node_condition list"

record unhealthy_condition =
  uc_type :: string
  uc_status :: string
  uc_duration :: duration

record object_reference =
  ref_group :: string
  ref_version :: string
  ref_kind :: string
  ref_namespace :: string
  ref_name :: string

datatype int_or_string = IntValue int | StringValue string

record condition =
  c_type :: string
  c_status :: string
  c_reason :: string
  c_message :: string
  c_lastTransitionTime :: time

record nhc_status =
  st_observedNodes :: int
  st_healthyNodes :: int
  st_inFlightRemediations :: "(string \<times> time) list option"
  st_conditions :: "condition list"

text \<open>
  The policy object. \<open>nhc_selector\<close> is the label selector as
  \<^verbatim>\<open>metav1.LabelSelectorAsSelector\<close> compiles it: \<open>Inl\<close> when the conversion fails,
  otherwise the predicate the API server applies to each node. A Go map is an
  association list read with \<open>map_of\<close>; a nil map is \<open>None\<close>.
\<close>

record nhc =
  nhc_name :: string
  nhc_namespace :: string
  nhc_apiVersion :: string
  nhc_kind :: string
  nhc_uid :: string
  nhc_selector :: "error + (node \<Rightarrow> bool)"
  nhc_unhealthyConditions :: "unhealthy_condition list"
  nhc_minHealthy :: "int_or_string option"
  nhc_pauseRequests :: "string list"
  nhc_remediationTemplate :: object_reference
  nhc_status :: nhc_status

subsection \<open>Unstructured objects: templates and remediation requests\<close>

record owner_reference =
  or_apiVersion :: string
  or_kind :: string
  or_name :: string
  or_uid :: string
  or_controller :: "bool option"
  or_blockOwnerDeletion :: "bool option"

record unstructured =
  u_group :: string
  u_version :: string
  u_kind :: string
  u_namespace :: string
  u_name :: string
  u_ownerReferences :: "owner_reference list"
  u_labels :: "(string \<times> string) list"
  u_annotations :: "(string \<times> string) list option"
  u_finalizers :: "string list"
  u_resourceVersion :: string
  u_uid :: string
  u_selfLink :: string
  u_creationTimestamp :: time
  u_deletionTimestamp :: "time option"
  u_spec :: string

text \<open>
  A template object: its identity, and the nested map at \<^verbatim>\<open>spec.template\<close>
  (\<open>None\<close> when the path is absent or is not a map, the two cases in which
  \<^verbatim>\<open>unstructured.NestedMap\<close> reports not found or an error).
\<close>

record template_object =
  tpl_group :: string
  tpl_version :: string
  tpl_kind :: string
  tpl_namespace :: string
  tpl_name :: string
  tpl_spec_template :: "unstructured option"

type_synonym object_key = "string \<times> string \<times> string \<times> string \<times> string"

definition cr_key :: "unstructured \<Rightarrow> object_key" where
  "cr_key u = (u_group u, u_version u, u_kind u, u_namespace u, u_name u)"

definition template_key :: "template_object \<Rightarrow> object_key" where
  "template_key t = (tpl_group t, tpl_version t, tpl_kind t, tpl_namespace t, tpl_name t)"

definition reference_key :: "object_reference \<Rightarrow> object_key" where
  "reference_key r = (ref_group r, ref_version r, ref_kind r, ref_namespace r, ref_name r)"

subsection \<open>The world and the environment\<close>

record event =
  ev_type :: string
  ev_reason :: string
  ev_message :: string

datatype log_entry = LogInfo string | LogError error string

datatype api_call =
    GetNHC
  | StatusUpdate
  | StatusPatch
  | ListNodes
  | GetTemplate object_key
  | GetCR object_key
  | CreateCR object_key
  | DeleteCR object_key
  | UpdateCR object_key
  | ListCRs

text \<open>
  The world: what the API server stores (policies, nodes, templates, remediation
  requests), what the recorder, the metrics and the logger have received, the calls
  the client has issued, and a fault schedule. Each client call consumes the head of
  \<open>w_faults\<close>: \<open>Some e\<close> makes the call fail with \<open>e\<close> and leaves the store alone,
  \<open>None\<close> (or an empty schedule) lets the API server answer. Templates and remediation
  requests are kept in two stores, so a template is never read as a request.
\<close>

record world =
  w_policies :: "nhc list"
  w_nodes :: "node list"
  w_templates :: "template_object list"
  w_crs :: "unstructured list"
  w_events :: "event list"
  w_metrics :: "(string \<times> string) list"
  w_log :: "log_entry list"
  w_calls :: "api_call list"
  w_faults :: "error option list"

record env =
  env_now :: time
  env_upgradeCheck :: "bool \<times> error option"
  env_needDisableNHC :: bool
  env_needIgnoreNode :: "node \<Rightarrow> bool"

record ctrl_result =
  Requeue :: bool
  RequeueAfter :: duration

record request =
  req_namespace :: string
  req_name :: string

definition empty_result :: ctrl_result where
  "empty_result = \<lparr>Requeue = False, RequeueAfter = 0\<rparr>"

definition log_info :: "string \<Rightarrow> world \<Rightarrow> world" where
  "log_info msg w = w\<lparr>w_log := w_log w @ [LogInfo msg]\<rparr>"

definition log_error :: "error \<Rightarrow> string \<Rightarrow> world \<Rightarrow> world" where
  "log_error err msg w = w\<lparr>w_log := w_log w @ [LogError err msg]\<rparr>"

definition record_event :: "string \<Rightarrow> string \<Rightarrow> string \<Rightarrow> world \<Rightarrow> world" where
  "record_event ty reason msg w =
     w\<lparr>w_events := w_events w @ [\<lparr>ev_type = ty, ev_reason = reason, ev_message = msg\<rparr>]\<rparr>"

definition observe_old_remediation_cr :: "string \<Rightarrow> string \<Rightarrow> world \<Rightarrow> world" where
  "observe_old_remediation_cr nodeName nodeNamespace w =
     w\<lparr>w_metrics := w_metrics w @ [(nodeName, nodeNamespace)]\<rparr>"

subsection \<open>The client\<close>

definition issue :: "api_call \<Rightarrow> world \<Rightarrow> error option \<times> world" where
  "issue c w =
     (case w_faults w of
        [] \<Rightarrow> (None, w\<lparr>w_calls := w_calls w @ [c]\<rparr>)
      | f # fs \<Rightarrow> (f, w\<lparr>w_calls := w_calls w @ [c], w_faults := fs\<rparr>))"

definition client_get_nhc :: "request \<Rightarrow> world \<Rightarrow> (error + nhc) \<times> world" where
  "client_get_nhc req w =
     (case issue GetNHC w of
        (Some e, w') \<Rightarrow> (Inl e, w')
      | (None, w') \<Rightarrow>
          (case find (\<lambda>p. nhc_namespace p = req_namespace req \<and> nhc_name p = req_name req)
                  (w_policies w') of
             None \<Rightarrow> (Inl NotFound, w')
           | Some p \<Rightarrow> (Inr p, w')))"

definition same_policy :: "nhc \<Rightarrow> nhc \<Rightarrow> bool" where
  "same_policy p q = (nhc_namespace p = nhc_namespace q \<and> nhc_name p = nhc_name q)"

text \<open>\<^verbatim>\<open>Status().Update\<close>: the stored policy takes the whole status of the given one.\<close>

definition client_status_update :: "nhc \<Rightarrow> world \<Rightarrow> error option \<times> world" where
  "client_status_update p w =
     (case issue StatusUpdate w of
        (Some e, w') \<Rightarrow> (Some e, w')
      | (None, w') \<Rightarrow>
          (if \<exists>q \<in> set (w_policies w'). same_policy q p
           then (None, w'\<lparr>w_policies :=
                   map (\<lambda>q. if same_policy q p then q\<lparr>nhc_status := nhc_status p\<rparr> else q)
                     (w_policies w')\<rparr>)
           else (Some NotFound, w')))"

text \<open>
  \<^verbatim>\<open>Status().Patch\<close> with a merge patch computed against a copy taken before the three
  counters were assigned: the stored policy takes the three counters.
\<close>

definition client_status_patch :: "nhc \<Rightarrow> world \<Rightarrow> error option \<times> world" where
  "client_status_patch p w =
     (case issue StatusPatch w of
        (Some e, w') \<Rightarrow> (Some e, w')
      | (None, w') \<Rightarrow>
          (if \<exists>q \<in> set (w_policies w'). same_policy q p
           then (None, w'\<lparr>w_policies :=
                   map (\<lambda>q. if same_policy q p
                             then q\<lparr>nhc_status := (nhc_status q)
                                    \<lparr>st_observedNodes := st_observedNodes (nhc_status p),
                                     st_healthyNodes := st_healthyNodes (nhc_status p),
                                     st_inFlightRemediations :=
                                       st_inFlightRemediations (nhc_status p)\<rparr>\<rparr>
                             else q)
                     (w_policies w')\<rparr>)
           else (Some NotFound, w')))"

definition client_list_nodes :: "(node \<Rightarrow> bool) \<Rightarrow> world \<Rightarrow> (node list \<times> error option) \<times> world" where
  "client_list_nodes selector w =
     (case issue ListNodes w of
        (Some e, w') \<Rightarrow> (([], Some e), w')
      | (None, w') \<Rightarrow> ((filter selector (w_nodes w'), None), w'))"

definition client_get_template :: "object_key \<Rightarrow> world \<Rightarrow> (error + template_object) \<times> world" where
  "client_get_template k w =
     (case issue (GetTemplate k) w of
        (Some e, w') \<Rightarrow> (Inl e, w')
      | (None, w') \<Rightarrow>
          (case find (\<lambda>t. template_key t = k) (w_templates w') of
             None \<Rightarrow> (Inl NotFound, w')
           | Some t \<Rightarrow> (Inr t, w')))"

definition client_get_cr :: "object_key \<Rightarrow> world \<Rightarrow> (error + unstructured) \<times> world" where
  "client_get_cr k w =
     (case issue (GetCR k) w of
        (Some e, w') \<Rightarrow> (Inl e, w')
      | (None, w') \<Rightarrow>
          (case find (\<lambda>u. cr_key u = k) (w_crs w') of
             None \<Rightarrow> (Inl NotFound, w')
           | Some u \<Rightarrow> (Inr u, w')))"

text \<open>The API server refuses to create an object under a key that is taken.\<close>

definition client_create_cr :: "unstructured \<Rightarrow> world \<Rightarrow> error option \<times> world" where
  "client_create_cr u w =
     (case issue (CreateCR (cr_key u)) w of
        (Some e, w') \<Rightarrow> (Some e, w')
      | (None, w') \<Rightarrow>
          (if cr_key u \<in> cr_key ` set (w_crs w') then (Some AlreadyExists, w')
           else (None, w'\<lparr>w_crs := w_crs w' @ [u]\<rparr>)))"

text \<open>
  Deleting an object that still has finalizers only stamps it with a deletion
  timestamp; an object without finalizers is removed.
\<close>

definition mark_deleted :: "time \<Rightarrow> unstructured \<Rightarrow> unstructured" where
  "mark_deleted now u =
     (case u_deletionTimestamp u of
        None \<Rightarrow> u\<lparr>u_deletionTimestamp := Some now\<rparr>
      | Some _ \<Rightarrow> u)"

definition delete_from_store :: "time \<Rightarrow> object_key \<Rightarrow> unstructured list \<Rightarrow> unstructured list" where
  "delete_from_store now k crs =
     map (\<lambda>u. if cr_key u = k then mark_deleted now u else u)
       (filter (\<lambda>u. cr_key u \<noteq> k \<or> u_finalizers u \<noteq> []) crs)"

definition client_delete_cr :: "time \<Rightarrow> object_key \<Rightarrow> world \<Rightarrow> error option \<times> world" where
  "client_delete_cr now k w =
     (case issue (DeleteCR k) w of
        (Some e, w') \<Rightarrow> (Some e, w')
      | (None, w') \<Rightarrow>
          (if k \<in> cr_key ` set (w_crs w')
           then (None, w'\<lparr>w_crs := delete_from_store now k (w_crs w')\<rparr>)
           else (Some NotFound, w')))"

definition client_update_cr :: "unstructured \<Rightarrow> world \<Rightarrow> error option \<times> world" where
  "client_update_cr u w =
     (case issue (UpdateCR (cr_key u)) w of
        (Some e, w') \<Rightarrow> (Some e, w')
      | (None, w') \<Rightarrow>
          (if cr_key u \<in> cr_key ` set (w_crs w')
           then (None, w'\<lparr>w_crs := map (\<lambda>v. if cr_key v = cr_key u then u else v) (w_crs w')\<rparr>)
           else (Some NotFound, w')))"

text \<open>Listing by group, version and kind, over all namespaces.\<close>

definition client_list_crs :: "string \<Rightarrow> string \<Rightarrow> string \<Rightarrow> world \<Rightarrow> (unstructured list \<times> error option) \<times> world" where
  "client_list_crs g v k w =
     (case issue ListCRs w of
        (Some e, w') \<Rightarrow> (([], Some e), w')
      | (None, w') \<Rightarrow>
          ((filter (\<lambda>u. u_group u = g \<and> u_version u = v \<and> u_kind u = k) (w_crs w'), None), w'))"

section \<open>Library functions the controller calls\<close>

subsection \<open>Strings\<close>

definition HasSuffix :: "string \<Rightarrow> string \<Rightarrow> bool" where
  "HasSuffix s suffix =
     (length suffix \<le> length s \<and> drop (length s - length suffix) s = suffix)"

definition TrimSuffix :: "string \<Rightarrow> string \<Rightarrow> string" where
  "TrimSuffix s suffix =
     (if HasSuffix s suffix then take (length s - length suffix) s else s)"

fun string_of_nat :: "nat \<Rightarrow> string" where
  "string_of_nat n =
     (if n < 10 then [''0123456789'' ! n]
      else string_of_nat (n div 10) @ [''0123456789'' ! (n mod 10)])"

declare string_of_nat.simps [simp del]

text \<open>The verb \<^verbatim>\<open>%d\<close> of \<^verbatim>\<open>fmt.Sprintf\<close>.\<close>

definition string_of_int :: "int \<Rightarrow> string" where
  "string_of_int i = (if i < 0 then CHR ''-'' # string_of_nat (nat (- i)) else string_of_nat (nat i))"

definition digit_of_char :: "char \<Rightarrow> int option" where
  "digit_of_char c =
     (let n = (of_char c :: nat) in if 48 \<le> n \<and> n \<le> 57 then Some (int n - 48) else None)"

fun parse_digits :: "int \<Rightarrow> string \<Rightarrow> int option" where
  "parse_digits acc [] = Some acc"
| "parse_digits acc (c # cs) =
     (case digit_of_char c of
        None \<Rightarrow> None
      | Some d \<Rightarrow> parse_digits (acc * 10 + d) cs)"

text \<open>\<^verbatim>\<open>strconv.Atoi\<close>: an optional sign and at least one decimal digit, within int64.\<close>

definition Atoi :: "string \<Rightarrow> int option" where
  "Atoi s =
     (let (neg, ds) =
            (case s of
               c # cs \<Rightarrow> if c = CHR ''-'' then (True, cs) else if c = CHR ''+'' then (False, cs) else (False, s)
             | [] \<Rightarrow> (False, s))
      in if ds = [] then None
         else (case parse_digits 0 ds of
                 None \<Rightarrow> None
               | Some n \<Rightarrow>
                   (let v = (if neg then - n else n)
                    in if minDuration \<le> v \<and> v \<le> maxDuration then Some v else None)))"

subsection \<open>intstr.GetScaledValueFromIntOrPercent\<close>

text \<open>
  The library function of \<^verbatim>\<open>k8s.io/apimachinery/pkg/util/intstr\<close>, with
  \<^verbatim>\<open>roundUp\<close> as the controller passes it (true): an integer is taken as it is, a
  string must end in \<^verbatim>\<open>%\<close> and is the rounded-up percentage of the total. The
  library rounds in floating point; the ceiling is taken on integers here.
\<close>

definition GetScaledValueFromIntOrPercent :: "int_or_string option \<Rightarrow> int \<Rightarrow> bool \<Rightarrow> error + int" where
  "GetScaledValueFromIntOrPercent intOrPercent totalCount roundUp =
     (case intOrPercent of
        None \<Rightarrow> Inl (Errorf ''nil value for IntOrString'')
      | Some (IntValue i) \<Rightarrow> Inr i
      | Some (StringValue s) \<Rightarrow>
          (if HasSuffix s ''%''
           then (case Atoi (TrimSuffix s ''%'') of
                   None \<Rightarrow> Inl (Errorf ''invalid value for IntOrString: invalid value'')
                 | Some v \<Rightarrow>
                     Inr (if roundUp then - ((- (v * totalCount)) div 100) else (v * totalCount) div 100))
           else Inl (Errorf ''invalid value for IntOrString: invalid type: string is not a percentage'')))"

subsection \<open>Status conditions (\<^verbatim>\<open>k8s.io/apimachinery/pkg/api/meta\<close>)\<close>

definition IsStatusConditionTrue :: "condition list \<Rightarrow> string \<Rightarrow> bool" where
  "IsStatusConditionTrue conditions conditionType =
     (case find (\<lambda>c. c_type c = conditionType) conditions of
        None \<Rightarrow> False
      | Some c \<Rightarrow> c_status c = ''True'')"

fun SetStatusCondition :: "time \<Rightarrow> condition list \<Rightarrow> condition \<Rightarrow> condition list" where
  "SetStatusCondition now [] newCondition =
     [if c_lastTransitionTime newCondition = 0
      then newCondition\<lparr>c_lastTransitionTime := now\<rparr> else newCondition]"
| "SetStatusCondition now (c # cs) newCondition =
     (if c_type c = c_type newCondition
      then (let c1 = (if c_status c \<noteq> c_status newCondition
                      then c\<lparr>c_status := c_status newCondition,
                             c_lastTransitionTime :=
                               (if c_lastTransitionTime newCondition \<noteq> 0
                                then c_lastTransitionTime newCondition else now)\<rparr>
                      else c)
            in c1\<lparr>c_reason := c_reason newCondition, c_message := c_message newCondition\<rparr> # cs)
      else c # SetStatusCondition now cs newCondition)"

definition RemoveStatusCondition :: "condition list \<Rightarrow> string \<Rightarrow> condition list" where
  "RemoveStatusCondition conditions conditionType =
     filter (\<lambda>c. c_type c \<noteq> conditionType) conditions"

section \<open>The controller\<close>

subsection \<open>isHealthy (lines 284-301)\<close>

definition nodeConditionByType :: "node_condition list \<Rightarrow> string \<Rightarrow> node_condition option" where
  "nodeConditionByType nodeConditions =
     foldl (\<lambda>m nc. m(nc_type nc \<mapsto> nc)) Map.empty nodeConditions"

fun isHealthy_tests :: "time \<Rightarrow> (string \<Rightarrow> node_condition option) \<Rightarrow> unhealthy_condition list \<Rightarrow> bool" where
  "isHealthy_tests now byType [] = True"
| "isHealthy_tests now byType (c # cs) =
     (case byType (uc_type c) of
        None \<Rightarrow> isHealthy_tests now byType cs
      | Some n \<Rightarrow>
          (if nc_status n = uc_status c
              \<and> time_After now (time_Add (nc_lastTransitionTime n) (uc_duration c))
           then False
           else isHealthy_tests now byType cs))"

definition isHealthy :: "time \<Rightarrow> unhealthy_condition list \<Rightarrow> node_condition list \<Rightarrow> bool" where
  "isHealthy now conditionTests nodeConditions =
     isHealthy_tests now (nodeConditionByType nodeConditions) conditionTests"

subsection \<open>updateResultNextReconcile (lines 477-481)\<close>

definition updateResultNextReconcile :: "ctrl_result \<Rightarrow> duration \<Rightarrow> ctrl_result" where
  "updateResultNextReconcile result updatedRequeueAfter =
     (if RequeueAfter result = 0 \<or> updatedRequeueAfter < RequeueAfter result
      then result\<lparr>RequeueAfter := updatedRequeueAfter\<rparr>
      else result)"

subsection \<open>fetchTemplate and generateRemediationCR (lines 343-394)\<close>

definition fetchTemplate :: "nhc \<Rightarrow> world \<Rightarrow> (error + template_object) \<times> world" where
  "fetchTemplate p w =
     (case client_get_template (reference_key (nhc_remediationTemplate p)) w of
        (Inl err, w') \<Rightarrow> (Inl (Wrapped ''failed to retrieve external remdiation template'' err), w')
      | (Inr obj, w') \<Rightarrow> (Inr obj, w'))"

definition policy_owner_reference :: "nhc \<Rightarrow> owner_reference" where
  "policy_owner_reference p =
     \<lparr>or_apiVersion = nhc_apiVersion p, or_kind = nhc_kind p, or_name = nhc_name p,
      or_uid = nhc_uid p, or_controller = Some False, or_blockOwnerDeletion = None\<rparr>"

definition generateRemediationCR :: "env \<Rightarrow> node \<Rightarrow> nhc \<Rightarrow> world \<Rightarrow> (error + unstructured) \<times> world" where
  "generateRemediationCR e n p w =
     (case fetchTemplate p w of
        (Inl err, w') \<Rightarrow> (Inl err, w')
      | (Inr t, w') \<Rightarrow>
          (case tpl_spec_template t of
             None \<Rightarrow> (Inl (Errorf ''Failed to retrieve Spec.Template''), w')
           | Some templateSpec \<Rightarrow>
               (Inr (templateSpec
                      \<lparr>u_name := node_name n,
                       u_namespace := tpl_namespace t,
                       u_group := tpl_group t,
                       u_version := tpl_version t,
                       u_kind := TrimSuffix (tpl_kind t) templateSuffix,
                       u_ownerReferences := [policy_owner_reference p],
                       u_labels := [(''app.kubernetes.io/part-of'', ''node-healthcheck-controller'')],
                       u_resourceVersion := [],
                       u_finalizers := [],
                       u_uid := [],
                       u_selfLink := [],
                       u_creationTimestamp := truncate_seconds (env_now e)\<rparr>), w')))"

subsection \<open>markHealthy (lines 254-282)\<close>

definition markHealthy :: "env \<Rightarrow> node \<Rightarrow> nhc \<Rightarrow> world \<Rightarrow> error option \<times> world" where
  "markHealthy e n p w =
     (case generateRemediationCR e n p w of
        (Inl err, w1) \<Rightarrow> (Some err, w1)
      | (Inr cr, w1) \<Rightarrow>
          (case client_get_cr (cr_key cr) w1 of
             (Inl err, w2) \<Rightarrow> (if \<not> IsNotFound err then (Some err, w2) else (None, w2))
           | (Inr found, w2) \<Rightarrow>
               (if u_deletionTimestamp found \<noteq> None then (None, w2)
                else (case client_delete_cr (env_now e) (cr_key found) (log_info ''node seems healthy'' w2) of
                        (Some err, w3) \<Rightarrow> (if \<not> IsNotFound err then (Some err, w3) else (None, w3))
                      | (None, w3) \<Rightarrow>
                          (None,
                           record_event eventTypeNormal eventReasonRemediationRemoved
                             (''Deleted remediation object for node '' @ node_name n)
                             (log_info ''deleted node external remediation object'' w3))))))"

subsection \<open>alertOldRemediationCR (lines 448-475)\<close>

definition GetAnnotations_or_empty :: "unstructured \<Rightarrow> (string \<times> string) list" where
  "GetAnnotations_or_empty u = (case u_annotations u of None \<Rightarrow> [] | Some a \<Rightarrow> a)"

definition alertOldRemediationCR :: "env \<Rightarrow> unstructured \<Rightarrow> world \<Rightarrow> (bool \<times> duration option) \<times> world" where
  "alertOldRemediationCR e remediationCR w =
     (let now = env_now e in
      if time_After now (time_Add (u_creationTimestamp remediationCR) remediationCRAlertTimeout)
      then (let remediationCrAnnotations = GetAnnotations_or_empty remediationCR in
            case map_of remediationCrAnnotations oldRemediationCRAnnotationKey of
              None \<Rightarrow>
                (let updated = remediationCR\<lparr>u_annotations :=
                        Some (AList.update oldRemediationCRAnnotationKey ''flagon''
                                remediationCrAnnotations)\<rparr>
                 in case client_update_cr updated w of
                      (None, w') \<Rightarrow> ((True, None), w')
                    | (Some err, w') \<Rightarrow>
                        ((False, None),
                         log_error err ''Setting `old remediationCR` annotation on remediation CR: failed to update'' w'))
            | Some _ \<Rightarrow> ((False, None), w))
      else ((False,
             Some (wrap64 (wrap64 (remediationCRAlertTimeout
                                    - time_Sub now (u_creationTimestamp remediationCR))
                           + time_Minute))), w))"

subsection \<open>remediate (lines 311-341)\<close>

definition remediate :: "env \<Rightarrow> node \<Rightarrow> nhc \<Rightarrow> world \<Rightarrow> (error + duration option) \<times> world" where
  "remediate e n p w =
     (case generateRemediationCR e n p w of
        (Inl err, w1) \<Rightarrow> (Inl err, w1)
      | (Inr cr, w1) \<Rightarrow>
          (case client_get_cr (cr_key cr) w1 of
             (Inl err, w2) \<Rightarrow>
               (if \<not> IsNotFound err
                then (Inl err, log_error err ''failed to check for existing external remediation object'' w2)
                else (case client_create_cr cr
                             (log_info ''node seems unhealthy. Creating an external remediation object'' w2) of
                        (Some err', w3) \<Rightarrow>
                          (Inl err', log_error err' ''failed to create an external remediation object'' w3)
                      | (None, w3) \<Rightarrow>
                          (Inr None,
                           record_event eventTypeNormal eventReasonRemediationCreated
                             (''Created remediation object for node '' @ node_name n) w3)))
           | (Inr found, w2) \<Rightarrow>
               (case alertOldRemediationCR e found w2 of
                  ((isAlert, nextReconcile), w3) \<Rightarrow>
                    (Inr nextReconcile,
                     if isAlert then observe_old_remediation_cr (node_name n) (node_namespace n) w3
                     else w3))))"

subsection \<open>getInflightRemediations (lines 419-446)\<close>

definition owner_matches :: "nhc \<Rightarrow> owner_reference \<Rightarrow> bool" where
  "owner_matches p ownerRefs =
     (or_name ownerRefs = nhc_name p
      \<and> or_kind ownerRefs = nhc_kind p
      \<and> or_apiVersion ownerRefs = nhc_apiVersion p)"

definition collect_owned :: "nhc \<Rightarrow> (string \<times> time) list \<Rightarrow> unstructured \<Rightarrow> (string \<times> time) list" where
  "collect_owned p remediations remediationCR =
     foldl (\<lambda>m ownerRefs.
              if owner_matches p ownerRefs
              then AList.update (u_name remediationCR) (u_creationTimestamp remediationCR) m
              else m)
       remediations (u_ownerReferences remediationCR)"

definition empty_node :: node where
  "empty_node = \<lparr>node_name = [], node_namespace = [], node_conditions = []\<rparr>"

definition getInflightRemediations :: "env \<Rightarrow> nhc \<Rightarrow> world \<Rightarrow> (error + (string \<times> time) list option) \<times> world" where
  "getInflightRemediations e p w =
     (case generateRemediationCR e empty_node p w of
        (Inl err, w1) \<Rightarrow> (Inl err, w1)
      | (Inr cr, w1) \<Rightarrow>
          (case client_list_crs (u_group cr) (u_version cr) (u_kind cr) w1 of
             ((items, Some err), w2) \<Rightarrow>
               (if \<not> IsNotFound err
                then (Inl (Wrapped ''failed to fetch all remediation objects'' err), w2)
                else (Inr (Some (foldl (collect_owned p) [] items)), w2))
           | ((items, None), w2) \<Rightarrow> (Inr (Some (foldl (collect_owned p) [] items)), w2)))"

subsection \<open>patchStatus (lines 396-417)\<close>

text \<open>
  \<^verbatim>\<open>len\<close> of a map, and \<^verbatim>\<open>reflect.DeepEqual\<close> on two maps: a nil map equals only a
  nil map; two non-nil maps are equal when they have the same keys with the same
  values, in whatever order they were filled.
\<close>

definition map_len :: "(string \<times> time) list option \<Rightarrow> nat" where
  "map_len m = (case m of None \<Rightarrow> 0 | Some a \<Rightarrow> length (remdups (map fst a)))"

definition DeepEqual :: "(string \<times> time) list option \<Rightarrow> (string \<times> time) list option \<Rightarrow> bool" where
  "DeepEqual m1 m2 =
     (case (m1, m2) of
        (None, None) \<Rightarrow> True
      | (Some a, Some b) \<Rightarrow>
          list_all (\<lambda>k. map_of a k = map_of b k) (map fst a @ map fst b)
      | _ \<Rightarrow> False)"

definition patchStatus :: "nhc \<Rightarrow> int \<Rightarrow> int \<Rightarrow> (string \<times> time) list option \<Rightarrow> world \<Rightarrow> error option \<times> world" where
  "patchStatus p observedNodes unhealthyNodes remediations w =
     (let healthyNodes = observedNodes - unhealthyNodes in
      if st_observedNodes (nhc_status p) = observedNodes
         \<and> st_healthyNodes (nhc_status p) = healthyNodes
         \<and> ((map_len (st_inFlightRemediations (nhc_status p)) = 0 \<and> map_len remediations = 0)
              \<or> DeepEqual (st_inFlightRemediations (nhc_status p)) remediations)
      then (None, w)
      else client_status_patch
             (p\<lparr>nhc_status := (nhc_status p)
                  \<lparr>st_observedNodes := observedNodes,
                   st_healthyNodes := healthyNodes,
                   st_inFlightRemediations := remediations\<rparr>\<rparr>)
             (log_info ''Patching NHC object'' w))"

subsection \<open>isClusterUpgrading and shouldTryRemediation (lines 174-217)\<close>

definition upgrade_check_failed_msg :: string where
  "upgrade_check_failed_msg =
     ''failed to check if the cluster is upgrading. Proceed with remediation as if it is not upgrading''"

definition isClusterUpgrading :: "env \<Rightarrow> world \<Rightarrow> bool \<times> world" where
  "isClusterUpgrading e w =
     (case env_upgradeCheck e of
        (clusterUpgrading, err) \<Rightarrow>
          (let w1 = (case err of
                       Some er \<Rightarrow> log_error er upgrade_check_failed_msg w
                     | None \<Rightarrow> w)
           in if clusterUpgrading
              then (True, log_info ''Skipping remediation because the cluster is currently upgrading.'' w1)
              else (False, w1)))"

definition skipped_min_healthy_msg :: "int \<Rightarrow> int \<Rightarrow> string" where
  "skipped_min_healthy_msg healthyNodes minHealthy =
     ''Skipped remediation because the number of healthy nodes selected by the selector is ''
       @ string_of_int healthyNodes @ '' and should equal or exceed '' @ string_of_int minHealthy"

definition shouldTryRemediation ::
  "env \<Rightarrow> nhc \<Rightarrow> node list \<Rightarrow> node list \<Rightarrow> int \<Rightarrow> ctrl_result \<Rightarrow> world \<Rightarrow> (bool \<times> ctrl_result) \<times> world" where
  "shouldTryRemediation e p nodes unhealthyNodes minHealthy result w =
     (if length unhealthyNodes = 0 then ((False, result), w)
      else
        (let healthyNodes = int (length nodes) - int (length unhealthyNodes) in
         if minHealthy \<le> healthyNodes
         then (if 0 < length (nhc_pauseRequests p)
               then (let msg = ''Skipping remediation because there are pause requests'' in
                     ((False, result),
                      record_event eventTypeNormal eventReasonRemediationSkipped msg (log_info msg w)))
               else (case isClusterUpgrading e w of
                       (True, w1) \<Rightarrow>
                         ((False, updateResultNextReconcile result (1 * time_Minute)),
                          record_event eventTypeNormal eventReasonRemediationSkipped
                            ''Skipped remediation because the cluster is upgrading'' w1)
                     | (False, w1) \<Rightarrow> ((True, result), w1)))
         else (let msg = skipped_min_healthy_msg healthyNodes minHealthy in
               ((False, result),
                record_event eventTypeWarning eventReasonRemediationSkipped msg (log_info msg w)))))"

subsection \<open>fetchNodes and checkNodesHealth (lines 219-252)\<close>

definition fetchNodes :: "error + (node \<Rightarrow> bool) \<Rightarrow> world \<Rightarrow> (node list \<times> error option) \<times> world" where
  "fetchNodes labelSelector w =
     (case labelSelector of
        Inl err \<Rightarrow> (([], Some (Wrapped ''failed converting a selector from NHC selector'' err)), w)
      | Inr selector \<Rightarrow> client_list_nodes selector w)"

fun checkNodesHealth_from :: "env \<Rightarrow> nhc \<Rightarrow> node list \<Rightarrow> node list \<Rightarrow> world \<Rightarrow> (error + node list) \<times> world" where
  "checkNodesHealth_from e p unhealthy [] w = (Inr unhealthy, w)"
| "checkNodesHealth_from e p unhealthy (n # ns) w =
     (if isHealthy (env_now e) (nhc_unhealthyConditions p) (node_conditions n)
      then (case markHealthy e n p w of
              (Some err, w') \<Rightarrow> (Inl err, w')
            | (None, w') \<Rightarrow> checkNodesHealth_from e p unhealthy ns w')
      else (if env_needIgnoreNode e n
            then checkNodesHealth_from e p unhealthy ns w
            else checkNodesHealth_from e p (unhealthy @ [n]) ns w))"

definition checkNodesHealth :: "env \<Rightarrow> node list \<Rightarrow> nhc \<Rightarrow> world \<Rightarrow> (error + node list) \<times> world" where
  "checkNodesHealth e nodes p w = checkNodesHealth_from e p [] nodes w"

subsection \<open>Reconcile (lines 83-172)\<close>

text \<open>The loop of lines 150-158: one \<open>remediate\<close> per unhealthy node, in order.\<close>

fun remediate_each :: "env \<Rightarrow> nhc \<Rightarrow> node list \<Rightarrow> ctrl_result \<Rightarrow> world \<Rightarrow> (error + ctrl_result) \<times> world" where
  "remediate_each e p [] result w = (Inr result, w)"
| "remediate_each e p (n # ns) result w =
     (case remediate e n p w of
        (Inl err, w') \<Rightarrow> (Inl err, w')
      | (Inr nextReconcile, w') \<Rightarrow>
          remediate_each e p ns
            (case nextReconcile of
               None \<Rightarrow> result
             | Some d \<Rightarrow> updateResultNextReconcile result d)
            w')"

text \<open>Lines 142-171: the threshold, the gates, the fan-out, the census, the status.\<close>

definition Reconcile_remediation ::
  "env \<Rightarrow> nhc \<Rightarrow> node list \<Rightarrow> node list \<Rightarrow> ctrl_result \<Rightarrow> world \<Rightarrow> (ctrl_result \<times> error option) \<times> world" where
  "Reconcile_remediation e p nodes unhealthyNodes result w =
     (case GetScaledValueFromIntOrPercent (nhc_minHealthy p) (int (length nodes)) True of
        Inl err \<Rightarrow>
          ((result, Some err), log_error err ''failed to calculate min healthy allowed nodes'' w)
      | Inr minHealthy \<Rightarrow>
          (case shouldTryRemediation e p nodes unhealthyNodes minHealthy result w of
             ((try, result1), w1) \<Rightarrow>
               (case (if try then remediate_each e p unhealthyNodes result1 w1
                      else (Inr result1, w1)) of
                  (Inl err, w2) \<Rightarrow> ((empty_result, Some err), w2)
                | (Inr result2, w2) \<Rightarrow>
                    (case getInflightRemediations e p w2 of
                       (Inl err, w3) \<Rightarrow>
                         ((empty_result,
                           Some (Wrapped ''failed fetching remediation objects of the NHC'' err)), w3)
                     | (Inr inFlightRemediations, w3) \<Rightarrow>
                         (case patchStatus p (int (length nodes)) (int (length unhealthyNodes))
                                 inFlightRemediations w3 of
                            (Some err, w4) \<Rightarrow>
                              ((empty_result, Some err), log_error err ''failed to patch NHC status'' w4)
                          | (None, w4) \<Rightarrow> ((result2, None), w4))))))"

text \<open>Lines 130-140: select the nodes and classify them.\<close>

definition Reconcile_nodes :: "env \<Rightarrow> nhc \<Rightarrow> ctrl_result \<Rightarrow> world \<Rightarrow> (ctrl_result \<times> error option) \<times> world" where
  "Reconcile_nodes e p result w =
     (case fetchNodes (nhc_selector p) w of
        ((nodes, Some err), w1) \<Rightarrow> ((result, Some err), w1)
      | ((nodes, None), w1) \<Rightarrow>
          (case checkNodesHealth e nodes p w1 of
             (Inl err, w2) \<Rightarrow> ((result, Some err), w2)
           | (Inr unhealthyNodes, w2) \<Rightarrow> Reconcile_remediation e p nodes unhealthyNodes result w2))"

definition disabled_message :: string where
  "disabled_message = ''Custom MachineHealthCheck(s) detected, disabling NHC to avoid conflicts''"

text \<open>Lines 99-118: conflicting machine health checks disable the policy.\<close>

definition Reconcile_disable :: "env \<Rightarrow> nhc \<Rightarrow> ctrl_result \<Rightarrow> world \<Rightarrow> (ctrl_result \<times> error option) \<times> world" where
  "Reconcile_disable e p result w =
     (if \<not> IsStatusConditionTrue (st_conditions (nhc_status p)) ConditionTypeDisabled
      then (let w1 = log_info ''disabling NHC in order to avoid conflict with custom MHCs configured in the cluster'' w;
                p1 = p\<lparr>nhc_status := (nhc_status p)
                        \<lparr>st_conditions :=
                           SetStatusCondition (env_now e) (st_conditions (nhc_status p))
                             \<lparr>c_type = ConditionTypeDisabled, c_status = ''True'',
                              c_reason = ConditionReasonDisabledMHC, c_message = disabled_message,
                              c_lastTransitionTime = 0\<rparr>\<rparr>\<rparr>;
                w2 = record_event eventTypeWarning eventReasonDisabled disabled_message w1
            in case client_status_update p1 w2 of
                 (Some err, w3) \<Rightarrow>
                   ((result, Some err), log_error err ''failed to update NHC status conditions'' w3)
               | (None, w3) \<Rightarrow> ((result, None), w3))
      else ((result, None), w))"

text \<open>Lines 119-128: no conflict any more, so a disabled policy is enabled again.\<close>

definition Reconcile_enable :: "nhc \<Rightarrow> world \<Rightarrow> (error + nhc) \<times> world" where
  "Reconcile_enable p w =
     (if IsStatusConditionTrue (st_conditions (nhc_status p)) ConditionTypeDisabled
      then (let w1 = log_info ''re-enabling NHC, no conflicting MHC configured in the cluster'' w;
                p1 = p\<lparr>nhc_status := (nhc_status p)
                        \<lparr>st_conditions :=
                           RemoveStatusCondition (st_conditions (nhc_status p)) ConditionTypeDisabled\<rparr>\<rparr>;
                w2 = record_event eventTypeNormal eventReasonEnabled
                       ''Custom MachineHealthCheck(s) removed, re-enabling NHC'' w1
            in case client_status_update p1 w2 of
                 (Some err, w3) \<Rightarrow>
                   (Inl err, log_error err ''failed to update NHC status conditions'' w3)
               | (None, w3) \<Rightarrow> (Inr p1, w3))
      else (Inr p, w))"

definition Reconcile :: "env \<Rightarrow> request \<Rightarrow> world \<Rightarrow> (ctrl_result \<times> error option) \<times> world" where
  "Reconcile e req w =
     (let result = empty_result in
      case client_get_nhc req w of
        (Inl err, w1) \<Rightarrow>
          (let w2 = log_error err ''failed fetching Node Health Check'' w1
           in if IsNotFound err then ((result, None), w2) else ((result, Some err), w2))
      | (Inr p, w1) \<Rightarrow>
          (if env_needDisableNHC e then Reconcile_disable e p result w1
           else (case Reconcile_enable p w1 of
                   (Inl err, w2) \<Rightarrow> ((result, Some err), w2)
                 | (Inr p1, w2) \<Rightarrow> Reconcile_nodes e p1 result w2)))"

section \<open>Reading the call log\<close>

text \<open>The keys of the create calls in a call log, and its status writes.\<close>

fun created_keys :: "api_call list \<Rightarrow> object_key list" where
  "created_keys [] = []"
| "created_keys (CreateCR k # cs) = k # created_keys cs"
| "created_keys (c # cs) = created_keys cs"

fun status_writes :: "api_call list \<Rightarrow> api_call list" where
  "status_writes [] = []"
| "status_writes (StatusUpdate # cs) = StatusUpdate # status_writes cs"
| "status_writes (StatusPatch # cs) = StatusPatch # status_writes cs"
| "status_writes (c # cs) = status_writes cs"

section \<open>Request objects in the store\<close>

text \<open>
  The key under which \<open>generateRemediationCR\<close> names the request object of a node, and
  whether the store holds a request object under a key that is not being deleted yet.
\<close>

definition request_key :: "template_object \<Rightarrow> node \<Rightarrow> object_key" where
  "request_key t n =
     (tpl_group t, tpl_version t, TrimSuffix (tpl_kind t) templateSuffix, tpl_namespace t,
      node_name n)"

definition live_request :: "object_key \<Rightarrow> unstructured list \<Rightarrow> bool" where
  "live_request k crs = list_ex (\<lambda>u. cr_key u = k \<and> u_deletionTimestamp u = None) crs"

definition removed_event :: "node \<Rightarrow> event" where
  "removed_event n =
     \<lparr>ev_type = ''Normal'', ev_reason = ''RemediationRemoved'',
      ev_message = ''Deleted remediation object for node '' @ node_name n\<rparr>"

definition created_event :: "node \<Rightarrow> event" where
  "created_event n =
     \<lparr>ev_type = ''Normal'', ev_reason = ''RemediationCreated'',
      ev_message = ''Created remediation object for node '' @ node_name n\<rparr>"

text \<open>
  A request object older than the alert timeout, the stale-flag annotation on it, and the
  object as \<open>alertOldRemediationCR\<close> writes it back.
\<close>

definition flagged :: "unstructured \<Rightarrow> unstructured" where
  "flagged c = c\<lparr>u_annotations :=
                  Some (AList.update oldRemediationCRAnnotationKey ''flagon''
                          (GetAnnotations_or_empty c))\<rparr>"

definition is_stale :: "env \<Rightarrow> unstructured \<Rightarrow> bool" where
  "is_stale e c = (u_creationTimestamp c + remediationCRAlertTimeout < env_now e)"

definition has_flag :: "unstructured \<Rightarrow> bool" where
  "has_flag c = (map_of (GetAnnotations_or_empty c) oldRemediationCRAnnotationKey \<noteq> None)"

section \<open>Reading the cluster\<close>

text \<open>
  The classification \<open>checkNodesHealth\<close> makes of one node, the unhealthy nodes it
  returns for a list of nodes, and the template a policy refers to.
\<close>

definition node_is_healthy :: "env \<Rightarrow> nhc \<Rightarrow> node \<Rightarrow> bool" where
  "node_is_healthy e p n = isHealthy (env_now e) (nhc_unhealthyConditions p) (node_conditions n)"

definition unhealthy_of :: "env \<Rightarrow> nhc \<Rightarrow> node list \<Rightarrow> node list" where
  "unhealthy_of e p ns = filter (\<lambda>n. \<not> node_is_healthy e p n \<and> \<not> env_needIgnoreNode e n) ns"

definition template_of :: "nhc \<Rightarrow> world \<Rightarrow> template_object option" where
  "template_of p w =
     find (\<lambda>t. template_key t = reference_key (nhc_remediationTemplate p)) (w_templates w)"

definition policy_of :: "request \<Rightarrow> world \<Rightarrow> nhc option" where
  "policy_of req w =
     find (\<lambda>p. nhc_namespace p = req_namespace req \<and> nhc_name p = req_name req) (w_policies w)"

text \<open>
  Whether all gates of \<open>shouldTryRemediation\<close> are open for a list of selected nodes,
  the census \<open>getInflightRemediations\<close> takes of a store, and the test by which
  \<open>patchStatus\<close> decides that nothing changed.
\<close>

definition gate_open :: "env \<Rightarrow> nhc \<Rightarrow> node list \<Rightarrow> bool" where
  "gate_open e p nodes =
     (case GetScaledValueFromIntOrPercent (nhc_minHealthy p) (int (length nodes)) True of
        Inl err \<Rightarrow> False
      | Inr minHealthy \<Rightarrow>
          unhealthy_of e p nodes \<noteq> []
          \<and> minHealthy \<le> int (length nodes) - int (length (unhealthy_of e p nodes))
          \<and> nhc_pauseRequests p = [] \<and> \<not> fst (env_upgradeCheck e))"

definition census_of :: "nhc \<Rightarrow> template_object \<Rightarrow> unstructured list \<Rightarrow> (string \<times> time) list" where
  "census_of p t crs =
     foldl (collect_owned p) []
       (filter (\<lambda>u. u_group u = tpl_group t \<and> u_version u = tpl_version t
                     \<and> u_kind u = TrimSuffix (tpl_kind t) templateSuffix) crs)"

definition status_up_to_date :: "nhc \<Rightarrow> int \<Rightarrow> int \<Rightarrow> (string \<times> time) list option \<Rightarrow> bool" where
  "status_up_to_date p observedNodes unhealthyNodes remediations =
     (st_observedNodes (nhc_status p) = observedNodes
      \<and> st_healthyNodes (nhc_status p) = observedNodes - unhealthyNodes
      \<and> ((map_len (st_inFlightRemediations (nhc_status p)) = 0 \<and> map_len remediations = 0)
           \<or> DeepEqual (st_inFlightRemediations (nhc_status p)) remediations))"

text \<open>
  A store in which a reconcile finds nothing left to do: no healthy node has a live
  request object, and, when the gates are open, every unhealthy node has its request
  object, flagged if it is stale.
\<close>

definition settled_store :: "env \<Rightarrow> nhc \<Rightarrow> template_object \<Rightarrow> node list \<Rightarrow> unstructured list \<Rightarrow> bool" where
  "settled_store e p t nodes crs =
     (list_all (\<lambda>n. node_is_healthy e p n \<longrightarrow> \<not> live_request (request_key t n) crs) nodes
      \<and> (gate_open e p nodes \<longrightarrow>
            list_all (\<lambda>u. case find (\<lambda>x. cr_key x = request_key t u) crs of
                             None \<Rightarrow> False
                           | Some c \<Rightarrow> is_stale e c \<longrightarrow> has_flag c)
              (unhealthy_of e p nodes)))"

text \<open>
  The claim's notion of an unchanged map: the same keys with the same values, a nil map
  counting as an empty one.
\<close>

definition same_content :: "(string \<times> time) list option \<Rightarrow> (string \<times> time) list option \<Rightarrow> bool" where
  "same_content m1 m2 =
     (map_of (case m1 of None \<Rightarrow> [] | Some a \<Rightarrow> a) = map_of (case m2 of None \<Rightarrow> [] | Some a \<Rightarrow> a))"

section \<open>The claims in their own words\<close>

text \<open>
  The health rule as the specification words it: some entry of the policy finds a
  condition of its type on the node, with the expected status, that has held for at
  least the entry's duration.
\<close>

definition claimed_unhealthy :: "time \<Rightarrow> unhealthy_condition list \<Rightarrow> node_condition list \<Rightarrow> bool" where
  "claimed_unhealthy now conditionTests nodeConditions =
     list_ex (\<lambda>c. case nodeConditionByType nodeConditions (uc_type c) of
                     None \<Rightarrow> False
                   | Some n \<Rightarrow> nc_status n = uc_status c
                               \<and> uc_duration c \<le> now - nc_lastTransitionTime n)
       conditionTests"

text \<open>
  The ownership test as the specification words it: name, kind, apiVersion and UID
  agree, or name and kind agree while a UID is not populated yet.
\<close>

definition claimed_owner_matches :: "nhc \<Rightarrow> owner_reference \<Rightarrow> bool" where
  "claimed_owner_matches p ownerRefs =
     (or_name ownerRefs = nhc_name p \<and> or_kind ownerRefs = nhc_kind p
      \<and> (if or_uid ownerRefs = [] \<or> nhc_uid p = [] then True
          else or_apiVersion ownerRefs = nhc_apiVersion p \<and> or_uid ownerRefs = nhc_uid p))"

section \<open>A test cluster\<close>

text \<open>
  The fixtures of \<^verbatim>\<open>controllers/nodehealthcheck_controller_test.go\<close>
  (\<^verbatim>\<open>newNodeHealthCheck\<close>, \<^verbatim>\<open>newNode\<close>, \<^verbatim>\<open>newRemediationCR\<close>), used to run the
  model on concrete inputs.
\<close>

definition test_policy :: nhc where
  "test_policy =
     \<lparr>nhc_name = ''test'', nhc_namespace = [],
      nhc_apiVersion = ''remediation.medik8s.io/v1alpha1'', nhc_kind = ''NodeHealthCheck'',
      nhc_uid = ''1234'',
      nhc_selector = Inr (\<lambda>n. True),
      nhc_unhealthyConditions = [\<lparr>uc_type = ''Ready'', uc_status = ''False'', uc_duration = 10\<rparr>],
      nhc_minHealthy = Some (StringValue ''51%''),
      nhc_pauseRequests = [],
      nhc_remediationTemplate =
        \<lparr>ref_group = ''test.medik8s.io'', ref_version = ''v1alpha1'',
         ref_kind = ''InfrastructureRemediationTemplate'', ref_namespace = ''default'',
         ref_name = ''template''\<rparr>,
      nhc_status = \<lparr>st_observedNodes = 0, st_healthyNodes = 0,
                    st_inFlightRemediations = None, st_conditions = []\<rparr>\<rparr>"

definition test_request :: request where
  "test_request = \<lparr>req_namespace = [], req_name = ''test''\<rparr>"

definition test_body :: unstructured where
  "test_body =
     \<lparr>u_group = [], u_version = [], u_kind = [], u_namespace = [], u_name = [],
      u_ownerReferences = [], u_labels = [], u_annotations = None, u_finalizers = [],
      u_resourceVersion = [], u_uid = [], u_selfLink = [], u_creationTimestamp = 0,
      u_deletionTimestamp = None, u_spec = ''size: 2''\<rparr>"

definition test_template :: template_object where
  "test_template =
     \<lparr>tpl_group = ''test.medik8s.io'', tpl_version = ''v1alpha1'',
      tpl_kind = ''InfrastructureRemediationTemplate'', tpl_namespace = ''default'',
      tpl_name = ''template'', tpl_spec_template = Some test_body\<rparr>"

definition test_node :: "string \<Rightarrow> string \<Rightarrow> time \<Rightarrow> node" where
  "test_node name status transitionTime =
     \<lparr>node_name = name, node_namespace = [],
      node_conditions = [\<lparr>nc_type = ''Ready'', nc_status = status,
                          nc_lastTransitionTime = transitionTime\<rparr>]\<rparr>"

definition test_cr :: "string \<Rightarrow> string \<Rightarrow> time \<Rightarrow> unstructured" where
  "test_cr name ownerUid created =
     test_body
       \<lparr>u_group := ''test.medik8s.io'', u_version := ''v1alpha1'',
        u_kind := ''InfrastructureRemediation'', u_namespace := ''default'', u_name := name,
        u_ownerReferences :=
          [\<lparr>or_apiVersion = ''remediation.medik8s.io/v1alpha1'', or_kind = ''NodeHealthCheck'',
            or_name = ''test'', or_uid = ownerUid, or_controller = None,
            or_blockOwnerDeletion = None\<rparr>],
        u_creationTimestamp := created\<rparr>"

definition test_world :: "node list \<Rightarrow> unstructured list \<Rightarrow> world" where
  "test_world nodes crs =
     \<lparr>w_policies = [test_policy], w_nodes = nodes, w_templates = [test_template],
      w_crs = crs, w_events = [], w_metrics = [], w_log = [], w_calls = [], w_faults = []\<rparr>"

definition test_env :: "time \<Rightarrow> env" where
  "test_env now =
     \<lparr>env_now = now, env_upgradeCheck = (False, None), env_needDisableNHC = False,
      env_needIgnoreNode = (\<lambda>n. False)\<rparr>"

section \<open>Verified properties\<close>

subsection \<open>The health evaluator\<close>

lemma nodeConditionByType_snoc:
  "nodeConditionByType (ncs @ [nc]) = (nodeConditionByType ncs)(nc_type nc \<mapsto> nc)"
  by (simp add: nodeConditionByType_def)

lemma nodeConditionByType_last:
  "nodeConditionByType ncs ty = find (\<lambda>nc. nc_type nc = ty) (rev ncs)"
proof (induction ncs rule: rev_induct)
  case Nil
  show ?case by (simp add: nodeConditionByType_def)
next
  case (snoc nc ncs)
  then show ?case by (simp add: nodeConditionByType_snoc)
qed

lemma isHealthy_tests_iff:
  "isHealthy_tests now byType tests \<longleftrightarrow>
     \<not> (\<exists>c \<in> set tests. \<exists>n. byType (uc_type c) = Some n \<and> nc_status n = uc_status c
            \<and> uc_duration c < now - nc_lastTransitionTime n)"
  by (induction tests) (auto simp: time_After_def time_Add_def split: option.splits)

text \<open>
  Claim C1, as the code has it. A node is unhealthy exactly when some entry of the
  policy finds, under its type, a node condition (the last one listed for that type)
  with the expected status whose last transition is strictly more than the entry's
  duration ago. A transition exactly as old as the duration leaves the node healthy; one
  nanosecond more makes it unhealthy. An entry whose type the node does not report never
  triggers.
\<close>

theorem isHealthy_unhealthy_iff:
  "(\<not> isHealthy now tests conds \<longleftrightarrow>
      (\<exists>c \<in> set tests. \<exists>n. nodeConditionByType conds (uc_type c) = Some n
          \<and> nc_status n = uc_status c
          \<and> uc_duration c < now - nc_lastTransitionTime n))
   \<and> isHealthy (lt + d) [\<lparr>uc_type = ty, uc_status = st, uc_duration = d\<rparr>]
        [\<lparr>nc_type = ty, nc_status = st, nc_lastTransitionTime = lt\<rparr>]
   \<and> \<not> isHealthy (lt + d + 1) [\<lparr>uc_type = ty, uc_status = st, uc_duration = d\<rparr>]
        [\<lparr>nc_type = ty, nc_status = st, nc_lastTransitionTime = lt\<rparr>]
   \<and> (nodeConditionByType conds ty = None \<longrightarrow>
        isHealthy now (\<lparr>uc_type = ty, uc_status = st, uc_duration = d\<rparr> # tests) conds
          = isHealthy now tests conds)"
proof (intro conjI)
  show "\<not> isHealthy now tests conds \<longleftrightarrow>
      (\<exists>c \<in> set tests. \<exists>n. nodeConditionByType conds (uc_type c) = Some n
          \<and> nc_status n = uc_status c
          \<and> uc_duration c < now - nc_lastTransitionTime n)"
    unfolding isHealthy_def isHealthy_tests_iff by blast
qed (simp_all add: isHealthy_def nodeConditionByType_def time_After_def time_Add_def)

text \<open>
  The claim as stated asks for ``at least the duration'': at a transition exactly five
  minutes old its rule says unhealthy, and the evaluator says healthy.
\<close>

theorem isHealthy_boundary_counterexample:
  "claimed_unhealthy 300000000000
     [\<lparr>uc_type = ''Ready'', uc_status = ''Unknown'', uc_duration = 300000000000\<rparr>]
     [\<lparr>nc_type = ''Ready'', nc_status = ''Unknown'', nc_lastTransitionTime = 0\<rparr>]
   \<and> isHealthy 300000000000
     [\<lparr>uc_type = ''Ready'', uc_status = ''Unknown'', uc_duration = 300000000000\<rparr>]
     [\<lparr>nc_type = ''Ready'', nc_status = ''Unknown'', nc_lastTransitionTime = 0\<rparr>]"
  by (simp add: claimed_unhealthy_def isHealthy_def nodeConditionByType_def time_After_def time_Add_def)

theorem isHealthy_unhealthy_iff_witness:
  "nodeConditionByType [\<lparr>nc_type = ''Ready'', nc_status = ''Unknown'', nc_lastTransitionTime = 0\<rparr>] ''DiskPressure'' = None
   \<and> isHealthy 7 [\<lparr>uc_type = ''DiskPressure'', uc_status = ''True'', uc_duration = 1\<rparr>,
                   \<lparr>uc_type = ''Ready'', uc_status = ''Unknown'', uc_duration = 7\<rparr>]
        [\<lparr>nc_type = ''Ready'', nc_status = ''Unknown'', nc_lastTransitionTime = 0\<rparr>]
   \<and> \<not> isHealthy 8 [\<lparr>uc_type = ''Ready'', uc_status = ''Unknown'', uc_duration = 7\<rparr>]
        [\<lparr>nc_type = ''Ready'', nc_status = ''Unknown'', nc_lastTransitionTime = 0\<rparr>]"
proof -
  let ?conds = "[\<lparr>nc_type = ''Ready'', nc_status = ''Unknown'', nc_lastTransitionTime = 0\<rparr>]"
  have absent: "nodeConditionByType ?conds ''DiskPressure'' = None"
    by (simp add: nodeConditionByType_def)
  have a: "isHealthy 7 [\<lparr>uc_type = ''Ready'', uc_status = ''Unknown'', uc_duration = 7\<rparr>] ?conds"
    using isHealthy_unhealthy_iff [where lt = 0 and d = 7 and ty = "''Ready''" and st = "''Unknown''"] by simp
  have b: "\<not> isHealthy 8 [\<lparr>uc_type = ''Ready'', uc_status = ''Unknown'', uc_duration = 7\<rparr>] ?conds"
    using isHealthy_unhealthy_iff [where lt = 0 and d = 7 and ty = "''Ready''" and st = "''Unknown''"] by simp
  have c: "isHealthy 7 [\<lparr>uc_type = ''DiskPressure'', uc_status = ''True'', uc_duration = 1\<rparr>,
                   \<lparr>uc_type = ''Ready'', uc_status = ''Unknown'', uc_duration = 7\<rparr>] ?conds"
    using isHealthy_unhealthy_iff [where now = 7 and tests = "[\<lparr>uc_type = ''Ready'', uc_status = ''Unknown'', uc_duration = 7\<rparr>]" and conds = ?conds and ty = "''DiskPressure''" and st = "''True''" and d = 1] absent a
    by simp
  show ?thesis using absent b c by simp
qed

subsection \<open>The client: what a call leaves alone\<close>

lemma issue_cases:
  obtains (answered) "w_faults w = []" "issue c w = (None, w\<lparr>w_calls := w_calls w @ [c]\<rparr>)"
  | (scheduled) f fs where "w_faults w = f # fs"
      "issue c w = (f, w\<lparr>w_calls := w_calls w @ [c], w_faults := fs\<rparr>)"
  by (cases "w_faults w") (auto simp: issue_def)

lemma issue_no_faults:
  "w_faults w = [] \<Longrightarrow> issue c w = (None, w\<lparr>w_calls := w_calls w @ [c]\<rparr>)"
  by (simp add: issue_def)

lemma issue_frame:
  assumes "issue c w = (f, w')"
  shows "w_policies w' = w_policies w" "w_nodes w' = w_nodes w" "w_templates w' = w_templates w"
    "w_crs w' = w_crs w" "w_events w' = w_events w" "w_metrics w' = w_metrics w"
    "w_log w' = w_log w" "w_calls w' = w_calls w @ [c]"
  using assms by (auto simp: issue_def split: list.splits)

subsection \<open>The materialised request object\<close>

lemma TrimSuffix_append: "TrimSuffix (k @ suffix) suffix = k"
  by (simp add: TrimSuffix_def HasSuffix_def)

lemma fetchTemplate_Inr:
  assumes "fetchTemplate p w = (Inr t, w')"
  shows "t \<in> set (w_templates w)" "template_key t = reference_key (nhc_remediationTemplate p)"
  using assms
  by (auto simp: fetchTemplate_def client_get_template_def find_Some_iff
      dest!: issue_frame(3) split: prod.splits option.splits sum.splits)

text \<open>
  Claim C8. Whenever \<open>generateRemediationCR\<close> returns an object, the policy's
  template reference names a stored template, and the object has that template's kind
  without the trailing \<open>Template\<close>, its group and version, the node's name, the
  template's namespace, the policy as its only owner (not a controller, block owner
  deletion unset), and the fixed \<open>part-of\<close> label.
\<close>

theorem generateRemediationCR_fields:
  assumes "generateRemediationCR e n p w = (Inr cr, w')"
  shows "\<exists>t \<in> set (w_templates w).
           template_key t = reference_key (nhc_remediationTemplate p)
         \<and> u_kind cr = TrimSuffix (tpl_kind t) ''Template''
         \<and> (\<forall>k. tpl_kind t = k @ ''Template'' \<longrightarrow> u_kind cr = k)
         \<and> u_group cr = tpl_group t
         \<and> u_version cr = tpl_version t
         \<and> u_name cr = node_name n
         \<and> u_namespace cr = tpl_namespace t
         \<and> u_ownerReferences cr =
             [\<lparr>or_apiVersion = nhc_apiVersion p, or_kind = nhc_kind p, or_name = nhc_name p,
               or_uid = nhc_uid p, or_controller = Some False, or_blockOwnerDeletion = None\<rparr>]
         \<and> u_labels cr = [(''app.kubernetes.io/part-of'', ''node-healthcheck-controller'')]"
proof -
  from assms obtain t body where t: "fetchTemplate p w = (Inr t, w')"
    and body: "tpl_spec_template t = Some body"
    and cr: "cr = body
                      \<lparr>u_name := node_name n,
                       u_namespace := tpl_namespace t,
                       u_group := tpl_group t,
                       u_version := tpl_version t,
                       u_kind := TrimSuffix (tpl_kind t) templateSuffix,
                       u_ownerReferences := [policy_owner_reference p],
                       u_labels := [(''app.kubernetes.io/part-of'', ''node-healthcheck-controller'')],
                       u_resourceVersion := [],
                       u_finalizers := [],
                       u_uid := [],
                       u_selfLink := [],
                       u_creationTimestamp := truncate_seconds (env_now e)\<rparr>"
    by (auto simp: generateRemediationCR_def split: prod.splits sum.splits option.splits)
  have "u_kind cr = TrimSuffix (tpl_kind t) ''Template''"
    by (simp add: cr templateSuffix_def)
  moreover have "\<forall>k. tpl_kind t = k @ ''Template'' \<longrightarrow> u_kind cr = k"
    using TrimSuffix_append [of _ "''Template''"] by (simp add: cr templateSuffix_def)
  moreover have "u_group cr = tpl_group t" "u_version cr = tpl_version t"
    "u_name cr = node_name n" "u_namespace cr = tpl_namespace t"
    "u_labels cr = [(''app.kubernetes.io/part-of'', ''node-healthcheck-controller'')]"
    by (simp_all add: cr)
  moreover have "u_ownerReferences cr =
             [\<lparr>or_apiVersion = nhc_apiVersion p, or_kind = nhc_kind p, or_name = nhc_name p,
               or_uid = nhc_uid p, or_controller = Some False, or_blockOwnerDeletion = None\<rparr>]"
    by (simp add: cr policy_owner_reference_def)
  ultimately show ?thesis
    using fetchTemplate_Inr [OF t] by blast
qed

lemmas test_defs = test_policy_def test_request_def test_body_def test_template_def
  test_node_def test_cr_def test_world_def test_env_def

lemma test_generate:
  "generateRemediationCR (test_env now) n test_policy (test_world nodes crs) =
     (Inr (test_body
             \<lparr>u_name := node_name n, u_namespace := ''default'', u_group := ''test.medik8s.io'',
              u_version := ''v1alpha1'', u_kind := ''InfrastructureRemediation'',
              u_ownerReferences := [policy_owner_reference test_policy],
              u_labels := [(''app.kubernetes.io/part-of'', ''node-healthcheck-controller'')],
              u_resourceVersion := [], u_finalizers := [], u_uid := [], u_selfLink := [],
              u_creationTimestamp := truncate_seconds now\<rparr>),
      (test_world nodes crs)\<lparr>w_calls := [GetTemplate (reference_key (nhc_remediationTemplate test_policy))]\<rparr>)"
  by (simp add: generateRemediationCR_def fetchTemplate_def client_get_template_def issue_def
      test_defs template_key_def reference_key_def TrimSuffix_def HasSuffix_def templateSuffix_def)

theorem generateRemediationCR_fields_witness:
  "\<exists>cr w'. generateRemediationCR (test_env 5) (test_node ''unhealthy-worker-node-1'' ''False'' 0)
              test_policy (test_world [] []) = (Inr cr, w')
     \<and> u_kind cr = ''InfrastructureRemediation''
     \<and> u_group cr = ''test.medik8s.io'' \<and> u_version cr = ''v1alpha1''
     \<and> u_name cr = ''unhealthy-worker-node-1'' \<and> u_namespace cr = ''default''
     \<and> map or_uid (u_ownerReferences cr) = [''1234'']
     \<and> map or_controller (u_ownerReferences cr) = [Some False]
     \<and> map or_blockOwnerDeletion (u_ownerReferences cr) = [None]"
proof -
  obtain cr w' where g: "generateRemediationCR (test_env 5) (test_node ''unhealthy-worker-node-1'' ''False'' 0)
              test_policy (test_world [] []) = (Inr cr, w')"
    using test_generate by blast
  have "w_templates (test_world [] []) = [test_template]"
    by (simp add: test_world_def)
  with generateRemediationCR_fields [OF g]
  have "u_kind cr = ''InfrastructureRemediation''
     \<and> u_group cr = ''test.medik8s.io'' \<and> u_version cr = ''v1alpha1''
     \<and> u_name cr = ''unhealthy-worker-node-1'' \<and> u_namespace cr = ''default''
     \<and> map or_uid (u_ownerReferences cr) = [''1234'']
     \<and> map or_controller (u_ownerReferences cr) = [Some False]
     \<and> map or_blockOwnerDeletion (u_ownerReferences cr) = [None]"
    by (simp add: test_template_def test_policy_def test_node_def TrimSuffix_def HasSuffix_def)
  with g show ?thesis by simp
qed

subsection \<open>The in-flight census\<close>

lemma generateRemediationCR_no_faults:
  assumes "w_faults w = []"
    and "find (\<lambda>t. template_key t = reference_key (nhc_remediationTemplate p)) (w_templates w) = Some t"
    and "tpl_spec_template t = Some body"
  shows "generateRemediationCR e n p w =
     (Inr (body
             \<lparr>u_name := node_name n, u_namespace := tpl_namespace t, u_group := tpl_group t,
              u_version := tpl_version t, u_kind := TrimSuffix (tpl_kind t) templateSuffix,
              u_ownerReferences := [policy_owner_reference p],
              u_labels := [(''app.kubernetes.io/part-of'', ''node-healthcheck-controller'')],
              u_resourceVersion := [], u_finalizers := [], u_uid := [], u_selfLink := [],
              u_creationTimestamp := truncate_seconds (env_now e)\<rparr>),
      w\<lparr>w_calls := w_calls w @ [GetTemplate (reference_key (nhc_remediationTemplate p))]\<rparr>)"
  using assms
  by (simp add: generateRemediationCR_def fetchTemplate_def client_get_template_def issue_def)

lemma collect_owned_eq:
  "collect_owned p m c =
     (if list_ex (owner_matches p) (u_ownerReferences c)
      then AList.update (u_name c) (u_creationTimestamp c) m else m)"
proof -
  have "foldl (\<lambda>m ownerRefs. if owner_matches p ownerRefs then AList.update k v m else m) m os =
          (if list_ex (owner_matches p) os then AList.update k v m else m)" for k v os
    by (induction os arbitrary: m) auto
  then show ?thesis by (simp add: collect_owned_def)
qed

lemma map_of_census:
  "map_of (foldl (collect_owned p) m items) nm =
     (case find (\<lambda>c. u_name c = nm \<and> list_ex (owner_matches p) (u_ownerReferences c)) (rev items) of
        None \<Rightarrow> map_of m nm
      | Some c \<Rightarrow> Some (u_creationTimestamp c))"
proof (induction items rule: rev_induct)
  case Nil
  show ?case by simp
next
  case (snoc c items)
  then show ?case by (simp add: collect_owned_eq update_conv')
qed

text \<open>
  Claim C3, as the code has it. When the API server answers and the template is in
  place, the census lists every request object of the template's group and version and
  of the derived kind, and keeps exactly those with an owner reference that agrees with
  the policy in name, kind and apiVersion; the UID is never compared. The result maps
  each kept object's name to its creation timestamp (the last listed object wins when a
  name occurs in several namespaces).
\<close>

theorem getInflightRemediations_census:
  assumes "w_faults w = []"
    and "find (\<lambda>t. template_key t = reference_key (nhc_remediationTemplate p)) (w_templates w) = Some t"
    and "tpl_spec_template t = Some body"
  shows "\<exists>a w'. getInflightRemediations e p w = (Inr (Some a), w')
     \<and> (\<forall>nm. map_of a nm =
           map_option u_creationTimestamp
             (find (\<lambda>c. u_name c = nm \<and> list_ex (owner_matches p) (u_ownerReferences c))
                (rev (filter (\<lambda>c. u_group c = tpl_group t \<and> u_version c = tpl_version t
                                \<and> u_kind c = TrimSuffix (tpl_kind t) ''Template'') (w_crs w)))))
     \<and> (\<forall>ref. owner_matches p ref \<longleftrightarrow>
              or_name ref = nhc_name p \<and> or_kind ref = nhc_kind p
              \<and> or_apiVersion ref = nhc_apiVersion p)"
proof -
  let ?listed = "filter (\<lambda>c. u_group c = tpl_group t \<and> u_version c = tpl_version t
                                \<and> u_kind c = TrimSuffix (tpl_kind t) ''Template'') (w_crs w)"
  let ?w1 = "w\<lparr>w_calls := w_calls w @ [GetTemplate (reference_key (nhc_remediationTemplate p))]\<rparr>"
  have list: "client_list_crs (tpl_group t) (tpl_version t) (TrimSuffix (tpl_kind t) templateSuffix) ?w1
                = ((?listed, None), ?w1\<lparr>w_calls := w_calls ?w1 @ [ListCRs]\<rparr>)"
    using assms(1) by (simp add: client_list_crs_def issue_def templateSuffix_def)
  have "getInflightRemediations e p w =
          (Inr (Some (foldl (collect_owned p) [] ?listed)), ?w1\<lparr>w_calls := w_calls ?w1 @ [ListCRs]\<rparr>)"
    unfolding getInflightRemediations_def generateRemediationCR_no_faults [OF assms]
    by (simp add: list)
  moreover have "map_of (foldl (collect_owned p) [] ?listed) nm =
           map_option u_creationTimestamp
             (find (\<lambda>c. u_name c = nm \<and> list_ex (owner_matches p) (u_ownerReferences c))
                (rev ?listed))" for nm
    by (simp add: map_of_census split: option.splits)
  ultimately show ?thesis by (auto simp: owner_matches_def)
qed

text \<open>
  The claim as stated compares UIDs: a request object left by an earlier policy of the
  same name, with another UID, would be dropped. The census keeps it.
\<close>

theorem census_ignores_uid_counterexample:
  "\<not> list_ex (claimed_owner_matches test_policy) (u_ownerReferences (test_cr ''node-1'' ''9999'' 3))
   \<and> fst (getInflightRemediations (test_env 5) test_policy
             (test_world [] [test_cr ''node-1'' ''9999'' 3])) = Inr (Some [(''node-1'', 3)])"
  unfolding getInflightRemediations_def test_generate
  by (simp add: claimed_owner_matches_def client_list_crs_def issue_def collect_owned_def
      owner_matches_def test_defs)

theorem getInflightRemediations_census_witness:
  "\<exists>a w'. getInflightRemediations (test_env 5) test_policy
             (test_world [] [test_cr ''node-1'' ''1234'' 3, test_cr ''node-2'' ''1234'' 4,
                             (test_cr ''node-3'' ''1234'' 4)\<lparr>u_ownerReferences := []\<rparr>])
           = (Inr (Some a), w')
     \<and> map_of a ''node-1'' = Some 3 \<and> map_of a ''node-2'' = Some 4 \<and> map_of a ''node-3'' = None"
proof -
  let ?w = "test_world [] [test_cr ''node-1'' ''1234'' 3, test_cr ''node-2'' ''1234'' 4,
                             (test_cr ''node-3'' ''1234'' 4)\<lparr>u_ownerReferences := []\<rparr>]"
  have 1: "w_faults ?w = []" by (simp add: test_world_def)
  have 2: "find (\<lambda>t. template_key t = reference_key (nhc_remediationTemplate test_policy))
              (w_templates ?w) = Some test_template"
    by (simp add: test_defs template_key_def reference_key_def)
  have 3: "tpl_spec_template test_template = Some test_body"
    by (simp add: test_template_def)
  from getInflightRemediations_census [OF 1 2 3, of "test_env 5"]
  obtain a w' where r: "getInflightRemediations (test_env 5) test_policy ?w = (Inr (Some a), w')"
    and m: "\<And>nm. map_of a nm =
           map_option u_creationTimestamp
             (find (\<lambda>c. u_name c = nm \<and> list_ex (owner_matches test_policy) (u_ownerReferences c))
                (rev (filter (\<lambda>c. u_group c = tpl_group test_template \<and> u_version c = tpl_version test_template
                                \<and> u_kind c = TrimSuffix (tpl_kind test_template) ''Template'') (w_crs ?w))))"
    by blast
  have "map_of a ''node-1'' = Some 3" "map_of a ''node-2'' = Some 4" "map_of a ''node-3'' = None"
    unfolding m by (simp_all add: test_defs TrimSuffix_def HasSuffix_def owner_matches_def)
  with r show ?thesis by simp
qed

subsection \<open>Frames: what each step leaves alone\<close>

lemma created_keys_append [simp]:
  "created_keys (cs @ ds) = created_keys cs @ created_keys ds"
  by (induction cs rule: created_keys.induct) auto

lemma status_writes_append [simp]:
  "status_writes (cs @ ds) = status_writes cs @ status_writes ds"
  by (induction cs rule: status_writes.induct) auto

lemma issue_eq:
  "issue c w =
     (case w_faults w of [] \<Rightarrow> None | f # fs \<Rightarrow> f,
      w\<lparr>w_calls := w_calls w @ [c], w_faults := tl (w_faults w)\<rparr>)"
  by (simp add: issue_def split: list.splits)

lemma generateRemediationCR_world:
  "snd (generateRemediationCR e n p w) =
     w\<lparr>w_calls := w_calls w @ [GetTemplate (reference_key (nhc_remediationTemplate p))],
       w_faults := tl (w_faults w)\<rparr>"
  by (simp add: generateRemediationCR_def fetchTemplate_def client_get_template_def issue_eq
      split: option.splits sum.splits prod.splits list.splits)

lemma getInflightRemediations_frame:
  assumes "getInflightRemediations e p w = (r, w')"
  shows "w_crs w' = w_crs w" "w_events w' = w_events w" "w_metrics w' = w_metrics w"
    "w_policies w' = w_policies w" "w_templates w' = w_templates w" "w_nodes w' = w_nodes w"
    "created_keys (w_calls w') = created_keys (w_calls w)"
    "status_writes (w_calls w') = status_writes (w_calls w)"
proof -
  obtain g w1 where g: "generateRemediationCR e empty_node p w = (g, w1)"
    by (cases "generateRemediationCR e empty_node p w")
  have w1: "w1 = w\<lparr>w_calls := w_calls w @ [GetTemplate (reference_key (nhc_remediationTemplate p))],
       w_faults := tl (w_faults w)\<rparr>"
    using generateRemediationCR_world [of e empty_node p w] g by simp
  from assms g
  have "w' = w1 \<or> w' = w1\<lparr>w_calls := w_calls w1 @ [ListCRs], w_faults := tl (w_faults w1)\<rparr>"
    by (auto simp: getInflightRemediations_def client_list_crs_def issue_eq
        split: sum.splits prod.splits option.splits if_splits list.splits)
  then show "w_crs w' = w_crs w" "w_events w' = w_events w" "w_metrics w' = w_metrics w"
    "w_policies w' = w_policies w" "w_templates w' = w_templates w" "w_nodes w' = w_nodes w"
    "created_keys (w_calls w') = created_keys (w_calls w)"
    "status_writes (w_calls w') = status_writes (w_calls w)"
    by (auto simp: w1)
qed

lemma client_status_patch_frame:
  assumes "client_status_patch q w = (r, w')"
  shows "w_crs w' = w_crs w \<and> w_events w' = w_events w \<and> w_metrics w' = w_metrics w
    \<and> w_templates w' = w_templates w \<and> w_nodes w' = w_nodes w
    \<and> w_calls w' = w_calls w @ [StatusPatch]"
  using assms
  by (auto simp: client_status_patch_def issue_eq split: option.splits if_splits list.splits)

lemma patchStatus_frame:
  assumes "patchStatus p observed unhealthy remediations w = (r, w')"
  shows "w_crs w' = w_crs w \<and> w_events w' = w_events w \<and> w_metrics w' = w_metrics w
    \<and> w_templates w' = w_templates w \<and> w_nodes w' = w_nodes w
    \<and> created_keys (w_calls w') = created_keys (w_calls w)"
proof -
  from assms
  have "w' = w \<or> (\<exists>q. client_status_patch q (log_info ''Patching NHC object'' w) = (r, w'))"
    by (auto simp: patchStatus_def Let_def split: if_splits)
  then show ?thesis
    by (auto dest!: client_status_patch_frame simp: log_info_def)
qed

text \<open>When the gates are closed, lines 161-171 are all that is left of the stage.\<close>

lemma census_and_status_frame:
  assumes "(case getInflightRemediations e p w of
              (Inl err, w3) \<Rightarrow> ((r0, Some (Wrapped m err)), w3)
            | (Inr inFlight, w3) \<Rightarrow>
                (case patchStatus p observed unhealthy inFlight w3 of
                   (Some err, w4) \<Rightarrow> ((r0, Some err), log_error err m' w4)
                 | (None, w4) \<Rightarrow> ((r1, None), w4))) = (r, w')"
  shows "w_crs w' = w_crs w" "w_events w' = w_events w" "w_metrics w' = w_metrics w"
    "created_keys (w_calls w') = created_keys (w_calls w)"
    "snd r = None \<longrightarrow> fst r = r1"
proof -
  obtain g w3 where g: "getInflightRemediations e p w = (g, w3)"
    by (cases "getInflightRemediations e p w")
  note f = getInflightRemediations_frame [OF g]
  show "w_crs w' = w_crs w" "w_events w' = w_events w" "w_metrics w' = w_metrics w"
    "created_keys (w_calls w') = created_keys (w_calls w)"
    "snd r = None \<longrightarrow> fst r = r1"
    using assms f
    by (auto simp: g log_error_def split: sum.splits prod.splits option.splits
        dest!: patchStatus_frame)
qed

subsection \<open>The minimum-healthy gate\<close>





lemma test_percent:
  "GetScaledValueFromIntOrPercent (Some (StringValue ''51%'')) n True = Inr (- ((- (51 * n)) div 100))"
  by (simp add: GetScaledValueFromIntOrPercent_def HasSuffix_def TrimSuffix_def
      Atoi_def digit_of_char_def minDuration_def maxDuration_def)

lemma test_min_healthy:
  "GetScaledValueFromIntOrPercent (nhc_minHealthy test_policy) 7 True = Inr 4"
  "GetScaledValueFromIntOrPercent (nhc_minHealthy test_policy) 3 True = Inr 2"
  by (simp_all add: test_percent test_policy_def)


subsection \<open>The cluster upgrade gate\<close>

text \<open>Only the clock of the environment is read once the gates are passed.\<close>

lemma generateRemediationCR_env:
  "generateRemediationCR (e\<lparr>env_upgradeCheck := x\<rparr>) n p w = generateRemediationCR e n p w"
  by (simp add: generateRemediationCR_def split: prod.splits sum.splits option.splits)

lemma alertOldRemediationCR_env:
  "alertOldRemediationCR (e\<lparr>env_upgradeCheck := x\<rparr>) cr w = alertOldRemediationCR e cr w"
  by (simp add: alertOldRemediationCR_def)

lemma remediate_env:
  "remediate (e\<lparr>env_upgradeCheck := x\<rparr>) n p w = remediate e n p w"
  by (simp add: remediate_def generateRemediationCR_env alertOldRemediationCR_env
      split: prod.splits sum.splits option.splits)

lemma remediate_each_env:
  "remediate_each (e\<lparr>env_upgradeCheck := x\<rparr>) p ns result w = remediate_each e p ns result w"
  by (induction ns arbitrary: result w) (simp_all add: remediate_env split: prod.splits sum.splits)

lemma getInflightRemediations_env:
  "getInflightRemediations (e\<lparr>env_upgradeCheck := x\<rparr>) p w = getInflightRemediations e p w"
  by (simp add: getInflightRemediations_def generateRemediationCR_env)

text \<open>
  The upgrade gate. Let the probe be consulted (some node is unhealthy, enough nodes are
  healthy, nobody asked for a pause). If its answer is \<open>true\<close>, with or without an
  error, the stage touches no request object, issues no create, records one
  \<open>RemediationSkipped\<close> event and, when it returns without error, asks for a requeue
  after one minute. If its answer is \<open>false\<close> together with an error, the error is
  logged and the stage behaves exactly as it does for a probe that answers
  \<open>not upgrading\<close>: the probe's error is not returned.
\<close>

theorem cluster_upgrade_gate:
  assumes "unhealthyNodes \<noteq> []"
    and "GetScaledValueFromIntOrPercent (nhc_minHealthy p) (int (length nodes)) True = Inr minHealthy"
    and "minHealthy \<le> int (length nodes) - int (length unhealthyNodes)"
    and "nhc_pauseRequests p = []"
  shows "(\<forall>err r w'. env_upgradeCheck e = (True, err)
            \<and> Reconcile_remediation e p nodes unhealthyNodes empty_result w = (r, w') \<longrightarrow>
              w_crs w' = w_crs w
            \<and> created_keys (w_calls w') = created_keys (w_calls w)
            \<and> w_events w' = w_events w @
                 [\<lparr>ev_type = ''Normal'', ev_reason = ''RemediationSkipped'',
                   ev_message = ''Skipped remediation because the cluster is upgrading''\<rparr>]
            \<and> (snd r = None \<longrightarrow> RequeueAfter (fst r) = 60 * 1000000000))
       \<and> (\<forall>er. env_upgradeCheck e = (False, Some er) \<longrightarrow>
              shouldTryRemediation e p nodes unhealthyNodes minHealthy result w =
                ((True, result), w\<lparr>w_log := w_log w @ [LogError er upgrade_check_failed_msg]\<rparr>)
            \<and> Reconcile_remediation e p nodes unhealthyNodes result w =
                Reconcile_remediation (e\<lparr>env_upgradeCheck := (False, None)\<rparr>) p nodes
                  unhealthyNodes result
                  (w\<lparr>w_log := w_log w @ [LogError er upgrade_check_failed_msg]\<rparr>))"
proof (intro conjI allI impI)
  fix err r w'
  assume a: "env_upgradeCheck e = (True, err)
            \<and> Reconcile_remediation e p nodes unhealthyNodes empty_result w = (r, w')"
  define w1 where "w1 = snd (isClusterUpgrading e w)"
  have up: "isClusterUpgrading e w = (True, w1)"
    using a by (simp add: w1_def isClusterUpgrading_def Let_def)
  have w1: "w_crs w1 = w_crs w" "w_events w1 = w_events w" "w_calls w1 = w_calls w"
    using a
    by (cases err; simp add: w1_def isClusterUpgrading_def Let_def log_error_def log_info_def)+
  let ?w2 = "record_event eventTypeNormal eventReasonRemediationSkipped
               ''Skipped remediation because the cluster is upgrading'' w1"
  have gate: "shouldTryRemediation e p nodes unhealthyNodes minHealthy empty_result w =
          ((False, updateResultNextReconcile empty_result (1 * time_Minute)), ?w2)"
    using assms(1,3,4) by (simp add: shouldTryRemediation_def Let_def up)
  have rest: "(case getInflightRemediations e p ?w2 of
              (Inl err, w3) \<Rightarrow>
                ((empty_result, Some (Wrapped ''failed fetching remediation objects of the NHC'' err)), w3)
            | (Inr inFlight, w3) \<Rightarrow>
                (case patchStatus p (int (length nodes)) (int (length unhealthyNodes)) inFlight w3 of
                   (Some err, w4) \<Rightarrow>
                     ((empty_result, Some err), log_error err ''failed to patch NHC status'' w4)
                 | (None, w4) \<Rightarrow>
                     ((updateResultNextReconcile empty_result time_Minute, None), w4))) = (r, w')"
    using a by (simp add: Reconcile_remediation_def assms(2) gate)
  note f = census_and_status_frame [OF rest]
  show "w_crs w' = w_crs w"
    using f(1) w1 by (simp add: record_event_def)
  show "created_keys (w_calls w') = created_keys (w_calls w)"
    using f(4) w1 by (simp add: record_event_def)
  show "w_events w' = w_events w @
                 [\<lparr>ev_type = ''Normal'', ev_reason = ''RemediationSkipped'',
                   ev_message = ''Skipped remediation because the cluster is upgrading''\<rparr>]"
    using f(2) w1
    by (simp add: record_event_def eventTypeNormal_def eventReasonRemediationSkipped_def)
  show "RequeueAfter (fst r) = 60 * 1000000000" if "snd r = None"
    using f(5) that
    by (simp add: updateResultNextReconcile_def empty_result_def time_Minute_def time_Second_def)
next
  fix er
  assume a: "env_upgradeCheck e = (False, Some er)"
  let ?w1 = "w\<lparr>w_log := w_log w @ [LogError er upgrade_check_failed_msg]\<rparr>"
  let ?e0 = "e\<lparr>env_upgradeCheck := (False, None)\<rparr>"
  show gate: "shouldTryRemediation e p nodes unhealthyNodes minHealthy result w = ((True, result), ?w1)"
    using assms(1,3,4) a
    by (simp add: shouldTryRemediation_def Let_def isClusterUpgrading_def log_error_def
        upgrade_check_failed_msg_def)
  have gate0: "shouldTryRemediation ?e0 p nodes unhealthyNodes minHealthy result ?w1 = ((True, result), ?w1)"
    using assms(1,3,4)
    by (simp add: shouldTryRemediation_def Let_def isClusterUpgrading_def)
  show "Reconcile_remediation e p nodes unhealthyNodes result w =
          Reconcile_remediation ?e0 p nodes unhealthyNodes result ?w1"
    by (simp add: Reconcile_remediation_def assms(2) gate gate0 remediate_each_env
        getInflightRemediations_env cong: prod.case_cong sum.case_cong)
qed


lemmas model_defs = Reconcile_remediation_def shouldTryRemediation_def isClusterUpgrading_def
  remediate_def generateRemediationCR_def fetchTemplate_def getInflightRemediations_def
  patchStatus_def alertOldRemediationCR_def markHealthy_def checkNodesHealth_def
  client_get_template_def client_get_cr_def client_create_cr_def client_delete_cr_def
  client_update_cr_def client_list_crs_def client_status_patch_def client_status_update_def
  client_get_nhc_def client_list_nodes_def issue_def log_info_def log_error_def
  record_event_def observe_old_remediation_cr_def updateResultNextReconcile_def
  empty_result_def empty_node_def cr_key_def template_key_def reference_key_def
  TrimSuffix_def HasSuffix_def templateSuffix_def collect_owned_def owner_matches_def
  policy_owner_reference_def map_len_def DeepEqual_def same_policy_def
  time_After_def time_Add_def time_Sub_def time_Minute_def time_Second_def time_Hour_def
  truncate_seconds_def remediationCRAlertTimeout_def

theorem cluster_upgrade_gate_witness:
  "(\<exists>w'. Reconcile_remediation ((test_env 20)\<lparr>env_upgradeCheck := (True, None)\<rparr>) test_policy
       [test_node ''u1'' ''False'' 0, test_node ''h1'' ''True'' 0, test_node ''h2'' ''True'' 0]
       [test_node ''u1'' ''False'' 0] empty_result (test_world [] [])
       = ((\<lparr>Requeue = False, RequeueAfter = 60000000000\<rparr>, None), w')
     \<and> w_crs w' = [] \<and> created_keys (w_calls w') = []
     \<and> map ev_reason (w_events w') = [''RemediationSkipped''])
   \<and> (\<exists>w'. Reconcile_remediation
          ((test_env 20)\<lparr>env_upgradeCheck := (False, Some (ApiFailure ''timeout''))\<rparr>) test_policy
       [test_node ''u1'' ''False'' 0, test_node ''h1'' ''True'' 0, test_node ''h2'' ''True'' 0]
       [test_node ''u1'' ''False'' 0] empty_result (test_world [] [])
       = ((empty_result, None), w')
     \<and> map u_name (w_crs w') = [''u1'']
     \<and> w_log w' ! 0 = LogError (ApiFailure ''timeout'') upgrade_check_failed_msg
     \<and> map ev_reason (w_events w') = [''RemediationCreated''])"
proof -
  let ?nodes = "[test_node ''u1'' ''False'' 0, test_node ''h1'' ''True'' 0, test_node ''h2'' ''True'' 0]"
  let ?unhealthy = "[test_node ''u1'' ''False'' 0]"
  let ?W = "test_world [] []"
  have 1: "?unhealthy \<noteq> []" by simp
  have 2: "GetScaledValueFromIntOrPercent (nhc_minHealthy test_policy) (int (length ?nodes)) True = Inr 2"
    using test_min_healthy(2) by simp
  have 3: "2 \<le> int (length ?nodes) - int (length ?unhealthy)" by simp
  have 4: "nhc_pauseRequests test_policy = []" by (simp add: test_policy_def)
  note gate = cluster_upgrade_gate [OF 1 2 3 4]
  let ?e1 = "(test_env 20)\<lparr>env_upgradeCheck := (True, None)\<rparr>"
  have run1: "\<exists>w'. Reconcile_remediation ?e1 test_policy ?nodes ?unhealthy empty_result ?W
                 = ((\<lparr>Requeue = False, RequeueAfter = 60000000000\<rparr>, None), w')"
    by (simp add: model_defs test_defs test_percent eventReasonRemediationSkipped_def)
  then obtain w1 where w1: "Reconcile_remediation ?e1 test_policy ?nodes ?unhealthy empty_result ?W
                 = ((\<lparr>Requeue = False, RequeueAfter = 60000000000\<rparr>, None), w1)" by blast
  have up1: "env_upgradeCheck ?e1 = (True, None)" by simp
  from gate [of ?e1 ?W] up1 w1
  have a: "w_crs w1 = [] \<and> created_keys (w_calls w1) = []
     \<and> map ev_reason (w_events w1) = [''RemediationSkipped'']"
    by (simp add: test_world_def)
  let ?e2 = "(test_env 20)\<lparr>env_upgradeCheck := (False, Some (ApiFailure ''timeout''))\<rparr>"
  have up2: "env_upgradeCheck ?e2 = (False, Some (ApiFailure ''timeout''))" by simp
  from gate [of ?e2 ?W empty_result] up2
  have eq: "Reconcile_remediation ?e2 test_policy ?nodes ?unhealthy empty_result ?W =
          Reconcile_remediation (?e2\<lparr>env_upgradeCheck := (False, None)\<rparr>) test_policy ?nodes
            ?unhealthy empty_result
            (?W\<lparr>w_log := w_log ?W @ [LogError (ApiFailure ''timeout'') upgrade_check_failed_msg]\<rparr>)"
    by blast
  have run2: "\<exists>w'. Reconcile_remediation (?e2\<lparr>env_upgradeCheck := (False, None)\<rparr>) test_policy ?nodes
            ?unhealthy empty_result
            (?W\<lparr>w_log := w_log ?W @ [LogError (ApiFailure ''timeout'') upgrade_check_failed_msg]\<rparr>)
          = ((empty_result, None), w')
       \<and> map u_name (w_crs w') = [''u1'']
       \<and> w_log w' ! 0 = LogError (ApiFailure ''timeout'') upgrade_check_failed_msg
       \<and> map ev_reason (w_events w') = [''RemediationCreated'']"
    by (simp add: model_defs test_defs eventReasonRemediationCreated_def test_percent)
  have A: "\<exists>w'. Reconcile_remediation ?e1 test_policy ?nodes ?unhealthy empty_result ?W
       = ((\<lparr>Requeue = False, RequeueAfter = 60000000000\<rparr>, None), w')
     \<and> w_crs w' = [] \<and> created_keys (w_calls w') = []
     \<and> map ev_reason (w_events w') = [''RemediationSkipped'']"
    using w1 a by (intro exI [of _ w1] conjI) simp_all
  have B: "\<exists>w'. Reconcile_remediation ?e2 test_policy ?nodes ?unhealthy empty_result ?W
       = ((empty_result, None), w')
     \<and> map u_name (w_crs w') = [''u1'']
     \<and> w_log w' ! 0 = LogError (ApiFailure ''timeout'') upgrade_check_failed_msg
     \<and> map ev_reason (w_events w') = [''RemediationCreated'']"
    unfolding eq by (rule run2)
  show ?thesis using A B by (rule conjI)
qed

subsection \<open>Deleting the request object of a healthy node\<close>

lemma cr_key_mark_deleted: "cr_key (mark_deleted now u) = cr_key u"
  by (simp add: mark_deleted_def cr_key_def split: option.splits)

lemma mark_deleted_Some: "\<exists>ts. u_deletionTimestamp (mark_deleted now u) = Some ts"
  by (cases "u_deletionTimestamp u") (simp_all add: mark_deleted_def)

lemma mark_deleted_marked: "u_deletionTimestamp u \<noteq> None \<Longrightarrow> mark_deleted now u = u"
  by (auto simp: mark_deleted_def)

lemma keys_delete_from_store:
  "map cr_key (delete_from_store now k crs) =
     map cr_key (filter (\<lambda>u. cr_key u \<noteq> k \<or> u_finalizers u \<noteq> []) crs)"
  by (induction crs) (simp_all add: delete_from_store_def cr_key_mark_deleted)

lemma distinct_delete_from_store:
  "distinct (map cr_key crs) \<Longrightarrow> distinct (map cr_key (delete_from_store now k crs))"
  by (simp add: keys_delete_from_store distinct_map_filter)

lemma in_delete_from_store:
  assumes "v \<in> set (delete_from_store now k crs)"
  obtains (other) "v \<in> set crs" "cr_key v \<noteq> k"
  | (marked) u where "u \<in> set crs" "cr_key u = k" "v = mark_deleted now u"
  using assms by (auto simp: delete_from_store_def split: if_splits)

lemma delete_from_store_settles: "\<not> live_request k (delete_from_store now k crs)"
proof
  assume "live_request k (delete_from_store now k crs)"
  then obtain v where v: "v \<in> set (delete_from_store now k crs)" "cr_key v = k"
    "u_deletionTimestamp v = None"
    by (auto simp: live_request_def list_ex_iff)
  from v(1) show False
  proof (cases rule: in_delete_from_store)
    case other
    with v show False by simp
  next
    case (marked u)
    with v(3) mark_deleted_Some [of now u] show False by simp
  qed
qed

lemma delete_from_store_keeps_settled:
  assumes "\<not> live_request k' crs"
  shows "\<not> live_request k' (delete_from_store now k crs)"
proof
  assume "live_request k' (delete_from_store now k crs)"
  then obtain v where v: "v \<in> set (delete_from_store now k crs)" "cr_key v = k'"
    "u_deletionTimestamp v = None"
    by (auto simp: live_request_def list_ex_iff)
  from v(1) show False
  proof (cases rule: in_delete_from_store)
    case other
    with v assms show False by (auto simp: live_request_def list_ex_iff)
  next
    case (marked u)
    with v(3) mark_deleted_Some [of now u] show False by simp
  qed
qed


lemma delete_from_store_other:
  "u \<in> set crs \<Longrightarrow> cr_key u \<noteq> k \<Longrightarrow> u \<in> set (delete_from_store now k crs)"
  by (auto simp: delete_from_store_def)

lemma find_key_live:
  assumes "distinct (map cr_key crs)"
  shows "live_request k crs \<longleftrightarrow>
           (\<exists>c. find (\<lambda>u. cr_key u = k) crs = Some c \<and> u_deletionTimestamp c = None)"
proof
  assume "live_request k crs"
  then obtain u where u: "u \<in> set crs" "cr_key u = k" "u_deletionTimestamp u = None"
    by (auto simp: live_request_def list_ex_iff)
  then obtain c where c: "find (\<lambda>u. cr_key u = k) crs = Some c"
    by (cases "find (\<lambda>u. cr_key u = k) crs") (auto simp: find_None_iff)
  then have "c \<in> set crs" "cr_key c = k"
    by (auto simp: find_Some_iff)
  with assms u have "c = u"
    by (metis distinct_map inj_onD)
  with c u show "\<exists>c. find (\<lambda>u. cr_key u = k) crs = Some c \<and> u_deletionTimestamp c = None"
    by simp
next
  assume "\<exists>c. find (\<lambda>u. cr_key u = k) crs = Some c \<and> u_deletionTimestamp c = None"
  then show "live_request k crs"
    by (auto simp: live_request_def list_ex_iff find_Some_iff)
qed

lemma generateRemediationCR_answered:
  assumes "w_faults w = None # fs \<or> w_faults w = []"
    and "find (\<lambda>t. template_key t = reference_key (nhc_remediationTemplate p)) (w_templates w) = Some t"
    and "tpl_spec_template t = Some body"
  shows "\<exists>cr. generateRemediationCR e n p w =
           (Inr cr, w\<lparr>w_calls := w_calls w @ [GetTemplate (reference_key (nhc_remediationTemplate p))],
                     w_faults := tl (w_faults w)\<rparr>)
         \<and> cr_key cr = request_key t n \<and> u_deletionTimestamp cr = u_deletionTimestamp body
         \<and> u_annotations cr = u_annotations body
         \<and> u_creationTimestamp cr = truncate_seconds (env_now e)
         \<and> u_ownerReferences cr = [policy_owner_reference p] \<and> u_name cr = node_name n
         \<and> u_group cr = tpl_group t \<and> u_version cr = tpl_version t
         \<and> u_kind cr = TrimSuffix (tpl_kind t) templateSuffix"
  using assms
  by (auto simp: generateRemediationCR_def fetchTemplate_def client_get_template_def issue_eq
      cr_key_def request_key_def)


lemma markHealthy_nothing_to_delete:
  assumes "w_faults w = []"
    and "find (\<lambda>t. template_key t = reference_key (nhc_remediationTemplate p)) (w_templates w) = Some t"
    and "tpl_spec_template t = Some body"
    and "\<not> (\<exists>c. find (\<lambda>u. cr_key u = request_key t n) (w_crs w) = Some c
              \<and> u_deletionTimestamp c = None)"
  shows "\<exists>w'. markHealthy e n p w = (None, w')
     \<and> w_crs w' = w_crs w \<and> w_events w' = w_events w \<and> w_metrics w' = w_metrics w
     \<and> w_calls w' = w_calls w @ [GetTemplate (reference_key (nhc_remediationTemplate p)),
                                  GetCR (request_key t n)]
     \<and> w_faults w' = [] \<and> w_policies w' = w_policies w \<and> w_nodes w' = w_nodes w
     \<and> w_templates w' = w_templates w"
proof -
  from generateRemediationCR_answered [OF disjI2 [OF assms(1)] assms(2,3), of e n]
  obtain cr where g: "generateRemediationCR e n p w =
           (Inr cr, w\<lparr>w_calls := w_calls w @ [GetTemplate (reference_key (nhc_remediationTemplate p))],
                     w_faults := tl (w_faults w)\<rparr>)"
    and k: "cr_key cr = request_key t n"
    by blast
  show ?thesis
  proof (cases "find (\<lambda>u. cr_key u = request_key t n) (w_crs w)")
    case None
    then show ?thesis
      by (simp add: markHealthy_def g k client_get_cr_def issue_eq assms(1))
  next
    case (Some c)
    with assms(4) have "u_deletionTimestamp c \<noteq> None" by simp
    with Some show ?thesis
      by (auto simp: markHealthy_def g k client_get_cr_def issue_eq assms(1))
  qed
qed

lemma markHealthy_deletes:
  assumes "w_faults w = []"
    and "find (\<lambda>t. template_key t = reference_key (nhc_remediationTemplate p)) (w_templates w) = Some t"
    and "tpl_spec_template t = Some body"
    and "find (\<lambda>u. cr_key u = request_key t n) (w_crs w) = Some c"
    and "u_deletionTimestamp c = None"
  shows "\<exists>w'. markHealthy e n p w = (None, w')
     \<and> w_crs w' = delete_from_store (env_now e) (request_key t n) (w_crs w)
     \<and> w_events w' = w_events w @ [removed_event n] \<and> w_metrics w' = w_metrics w
     \<and> w_calls w' = w_calls w @ [GetTemplate (reference_key (nhc_remediationTemplate p)),
                                  GetCR (request_key t n), DeleteCR (request_key t n)]
     \<and> w_faults w' = [] \<and> w_policies w' = w_policies w \<and> w_nodes w' = w_nodes w
     \<and> w_templates w' = w_templates w"
proof -
  from generateRemediationCR_answered [OF disjI2 [OF assms(1)] assms(2,3), of e n]
  obtain cr where g: "generateRemediationCR e n p w =
           (Inr cr, w\<lparr>w_calls := w_calls w @ [GetTemplate (reference_key (nhc_remediationTemplate p))],
                     w_faults := tl (w_faults w)\<rparr>)"
    and k: "cr_key cr = request_key t n"
    by blast
  from assms(4) have c: "c \<in> set (w_crs w)" "cr_key c = request_key t n"
    by (auto simp: find_Some_iff)
  then have "request_key t n \<in> cr_key ` set (w_crs w)" by force
  then show ?thesis
    using assms(4,5) c(2)
    by (simp add: markHealthy_def g k client_get_cr_def client_delete_cr_def issue_eq assms(1)
        log_info_def record_event_def removed_event_def eventTypeNormal_def
        eventReasonRemediationRemoved_def)
qed



lemma not_live_find:
  assumes "\<not> live_request k crs"
  shows "\<not> (\<exists>c. find (\<lambda>u. cr_key u = k) crs = Some c \<and> u_deletionTimestamp c = None)"
  using assms by (auto simp: live_request_def list_ex_iff find_Some_iff)








subsection \<open>Remediating an unhealthy node\<close>

lemma flagged_fields:
  "cr_key (flagged c) = cr_key c" "u_creationTimestamp (flagged c) = u_creationTimestamp c"
  "u_deletionTimestamp (flagged c) = u_deletionTimestamp c"
  "u_ownerReferences (flagged c) = u_ownerReferences c" "u_name (flagged c) = u_name c"
  "map_of (GetAnnotations_or_empty (flagged c)) oldRemediationCRAnnotationKey = Some ''flagon''"
  "has_flag (flagged c)" "is_stale e (flagged c) = is_stale e c"
  by (simp_all add: flagged_def cr_key_def GetAnnotations_or_empty_def update_conv' has_flag_def
      is_stale_def)

lemma find_replace:
  assumes "find (\<lambda>u. cr_key u = k) crs = Some c" and "cr_key c' = k"
  shows "find (\<lambda>u. cr_key u = k) (map (\<lambda>v. if cr_key v = k then c' else v) crs) = Some c'"
  using assms by (induction crs) (auto split: if_splits)

lemma keys_replace:
  assumes "cr_key c' = k"
  shows "map cr_key (map (\<lambda>v. if cr_key v = k then c' else v) crs) = map cr_key crs"
  using assms by (induction crs) auto

lemma alertOldRemediationCR_flags:
  assumes "w_faults w = []" and "is_stale e c" and "\<not> has_flag c" and "c \<in> set (w_crs w)"
  shows "alertOldRemediationCR e c w =
          ((True, None),
           w\<lparr>w_calls := w_calls w @ [UpdateCR (cr_key c)], w_faults := [],
             w_crs := map (\<lambda>v. if cr_key v = cr_key c then flagged c else v) (w_crs w)\<rparr>)"
proof -
  have "cr_key c \<in> cr_key ` set (w_crs w)" using assms(4) by force
  then show ?thesis
    using assms(1-3)
    by (simp add: alertOldRemediationCR_def Let_def is_stale_def has_flag_def time_After_def
        time_Add_def client_update_cr_def issue_eq flagged_fields(1) flagged_def [symmetric])
qed


lemma alertOldRemediationCR_flagged_already:
  assumes "is_stale e c" and "has_flag c"
  shows "alertOldRemediationCR e c w = ((False, None), w)"
  using assms
  by (auto simp: alertOldRemediationCR_def Let_def is_stale_def has_flag_def time_After_def
      time_Add_def)

lemma alertOldRemediationCR_young:
  assumes "\<not> is_stale e c"
  shows "alertOldRemediationCR e c w =
          ((False, Some (wrap64 (wrap64 (remediationCRAlertTimeout
                                          - time_Sub (env_now e) (u_creationTimestamp c))
                                 + time_Minute))), w)"
  using assms
  by (simp add: alertOldRemediationCR_def Let_def is_stale_def time_After_def time_Add_def)




lemma client_get_cr_world:
  "snd (client_get_cr k w) = w\<lparr>w_calls := w_calls w @ [GetCR k], w_faults := tl (w_faults w)\<rparr>"
  by (simp add: client_get_cr_def issue_eq split: option.splits list.splits)

lemma client_get_cr_Inr:
  assumes "client_get_cr k w = (Inr c, w')"
  shows "find (\<lambda>u. cr_key u = k) (w_crs w) = Some c \<and> c \<in> set (w_crs w) \<and> cr_key c = k"
  using assms
  by (auto simp: client_get_cr_def issue_eq find_Some_iff split: option.splits list.splits)

lemma client_get_cr_answered:
  assumes "w_faults w = [] \<or> (\<exists>fs. w_faults w = None # fs)"
  shows "client_get_cr k w =
           (case find (\<lambda>u. cr_key u = k) (w_crs w) of None \<Rightarrow> Inl NotFound | Some c \<Rightarrow> Inr c,
            w\<lparr>w_calls := w_calls w @ [GetCR k], w_faults := tl (w_faults w)\<rparr>)"
  using assms by (auto simp: client_get_cr_def issue_eq split: option.splits)

lemma remediate_existing:
  assumes "w_faults w = [] \<or> (\<exists>fs. w_faults w = None # None # fs)"
    and "find (\<lambda>t. template_key t = reference_key (nhc_remediationTemplate p)) (w_templates w) = Some t"
    and "tpl_spec_template t = Some body"
    and "find (\<lambda>u. cr_key u = request_key t n) (w_crs w) = Some c"
  shows "remediate e n p w =
     (case alertOldRemediationCR e c
             (w\<lparr>w_calls := w_calls w @ [GetTemplate (reference_key (nhc_remediationTemplate p)),
                                          GetCR (request_key t n)],
                w_faults := tl (tl (w_faults w))\<rparr>) of
        ((isAlert, nextReconcile), w3) \<Rightarrow>
          (Inr nextReconcile,
           if isAlert then observe_old_remediation_cr (node_name n) (node_namespace n) w3 else w3))"
proof -
  have f1: "w_faults w = None # tl (w_faults w) \<or> w_faults w = []"
    using assms(1) by auto
  from generateRemediationCR_answered [OF f1 assms(2,3), of e n]
  obtain cr where g: "generateRemediationCR e n p w =
           (Inr cr, w\<lparr>w_calls := w_calls w @ [GetTemplate (reference_key (nhc_remediationTemplate p))],
                     w_faults := tl (w_faults w)\<rparr>)"
    and k: "cr_key cr = request_key t n"
    by blast
  let ?w1 = "w\<lparr>w_calls := w_calls w @ [GetTemplate (reference_key (nhc_remediationTemplate p))],
                     w_faults := tl (w_faults w)\<rparr>"
  have f2: "w_faults ?w1 = [] \<or> (\<exists>fs. w_faults ?w1 = None # fs)"
    using assms(1) by auto
  show ?thesis
    by (simp add: remediate_def g k client_get_cr_answered [OF f2] assms(4))
qed

lemma remediate_creates:
  assumes "w_faults w = []"
    and "find (\<lambda>t. template_key t = reference_key (nhc_remediationTemplate p)) (w_templates w) = Some t"
    and "tpl_spec_template t = Some body"
    and "find (\<lambda>u. cr_key u = request_key t n) (w_crs w) = None"
  shows "\<exists>cr w'. remediate e n p w = (Inr None, w')
     \<and> w_crs w' = w_crs w @ [cr] \<and> cr_key cr = request_key t n
     \<and> u_deletionTimestamp cr = u_deletionTimestamp body
     \<and> u_creationTimestamp cr = truncate_seconds (env_now e)
     \<and> u_ownerReferences cr = [policy_owner_reference p] \<and> u_name cr = node_name n
     \<and> w_events w' = w_events w @ [created_event n] \<and> w_metrics w' = w_metrics w
     \<and> w_calls w' = w_calls w @ [GetTemplate (reference_key (nhc_remediationTemplate p)),
                                  GetCR (request_key t n), CreateCR (request_key t n)]
     \<and> w_faults w' = [] \<and> w_policies w' = w_policies w \<and> w_nodes w' = w_nodes w
     \<and> w_templates w' = w_templates w"
proof -
  from generateRemediationCR_answered [OF disjI2 [OF assms(1)] assms(2,3), of e n]
  obtain cr where g: "generateRemediationCR e n p w =
           (Inr cr, w\<lparr>w_calls := w_calls w @ [GetTemplate (reference_key (nhc_remediationTemplate p))],
                     w_faults := tl (w_faults w)\<rparr>)"
    and k: "cr_key cr = request_key t n"
    and f: "u_deletionTimestamp cr = u_deletionTimestamp body"
       "u_creationTimestamp cr = truncate_seconds (env_now e)"
       "u_ownerReferences cr = [policy_owner_reference p]" "u_name cr = node_name n"
    by blast
  have absent: "request_key t n \<notin> cr_key ` set (w_crs w)"
    using assms(4) by (auto simp: find_None_iff)
  show ?thesis
    using absent f
    by (simp add: remediate_def g k client_get_cr_def client_create_cr_def issue_eq assms(1,4)
        log_info_def record_event_def created_event_def eventTypeNormal_def
        eventReasonRemediationCreated_def)
qed





subsection \<open>What the steps do to the store, whatever the API server answers\<close>

lemma client_get_cr_frame:
  assumes "client_get_cr k w = (r, w')"
  shows "w' = w\<lparr>w_calls := w_calls w @ [GetCR k], w_faults := tl (w_faults w)\<rparr>"
  using client_get_cr_world [of k w] assms by simp

lemma generateRemediationCR_frame:
  assumes "generateRemediationCR e n p w = (r, w')"
  shows "w' = w\<lparr>w_calls := w_calls w @ [GetTemplate (reference_key (nhc_remediationTemplate p))],
                w_faults := tl (w_faults w)\<rparr>"
  using generateRemediationCR_world [of e n p w] assms by simp

lemma client_delete_cr_frame:
  assumes "client_delete_cr now k w = (r, w')"
  shows "w_policies w' = w_policies w \<and> w_nodes w' = w_nodes w \<and> w_templates w' = w_templates w
     \<and> w_events w' = w_events w \<and> w_metrics w' = w_metrics w
     \<and> w_calls w' = w_calls w @ [DeleteCR k] \<and> w_faults w' = tl (w_faults w)
     \<and> (w_crs w' = w_crs w \<or> w_crs w' = delete_from_store now k (w_crs w))"
  using assms
  by (auto simp: client_delete_cr_def issue_eq split: option.splits if_splits list.splits)

lemma client_create_cr_frame:
  assumes "client_create_cr u w = (r, w')"
  shows "w_policies w' = w_policies w \<and> w_nodes w' = w_nodes w \<and> w_templates w' = w_templates w
     \<and> w_events w' = w_events w \<and> w_metrics w' = w_metrics w
     \<and> w_calls w' = w_calls w @ [CreateCR (cr_key u)] \<and> w_faults w' = tl (w_faults w)
     \<and> (w_crs w' = w_crs w \<and> r \<noteq> None
          \<or> w_crs w' = w_crs w @ [u] \<and> cr_key u \<notin> cr_key ` set (w_crs w) \<and> r = None)"
  using assms
  by (auto simp: client_create_cr_def issue_eq split: option.splits if_splits list.splits)

lemma client_update_cr_frame:
  assumes "client_update_cr u w = (r, w')"
  shows "w_policies w' = w_policies w \<and> w_nodes w' = w_nodes w \<and> w_templates w' = w_templates w
     \<and> w_events w' = w_events w \<and> w_metrics w' = w_metrics w
     \<and> w_calls w' = w_calls w @ [UpdateCR (cr_key u)] \<and> w_faults w' = tl (w_faults w)
     \<and> (w_crs w' = w_crs w
          \<or> w_crs w' = map (\<lambda>v. if cr_key v = cr_key u then u else v) (w_crs w))"
  using assms
  by (auto simp: client_update_cr_def issue_eq split: option.splits if_splits list.splits)

lemma markHealthy_frame:
  assumes "markHealthy e n p w = (r, w')"
  shows "w_policies w' = w_policies w \<and> w_nodes w' = w_nodes w \<and> w_templates w' = w_templates w
     \<and> w_metrics w' = w_metrics w
     \<and> created_keys (w_calls w') = created_keys (w_calls w)
     \<and> status_writes (w_calls w') = status_writes (w_calls w)
     \<and> (w_faults w = [] \<longrightarrow> w_faults w' = [])
     \<and> (w_crs w' = w_crs w \<or> (\<exists>k. w_crs w' = delete_from_store (env_now e) k (w_crs w)))"
proof -
  obtain g w1 where g: "generateRemediationCR e n p w = (g, w1)"
    by (cases "generateRemediationCR e n p w")
  note w1 = generateRemediationCR_frame [OF g]
  show ?thesis
  proof (cases g)
    case (Inl err)
    with assms g have "w' = w1" by (simp add: markHealthy_def)
    then show ?thesis by (simp add: w1)
  next
    case (Inr cr)
    obtain c w2 where c: "client_get_cr (cr_key cr) w1 = (c, w2)"
      by (cases "client_get_cr (cr_key cr) w1")
    note w2 = client_get_cr_frame [OF c]
    show ?thesis
    proof (cases c)
      case (Inl err)
      with assms g Inr c have "w' = w2" by (auto simp: markHealthy_def split: if_splits)
      then show ?thesis by (simp add: w2 w1)
    next
      case found: (Inr found)
      show ?thesis
      proof (cases "u_deletionTimestamp found \<noteq> None")
        case True
        with assms g Inr c found have "w' = w2" by (auto simp: markHealthy_def)
        then show ?thesis by (simp add: w2 w1)
      next
        case False
        obtain d w3 where d: "client_delete_cr (env_now e) (cr_key found)
                                (log_info ''node seems healthy'' w2) = (d, w3)"
          by (cases "client_delete_cr (env_now e) (cr_key found) (log_info ''node seems healthy'' w2)")
        note w3 = client_delete_cr_frame [OF d]
        from assms g Inr c found False d
        have "w' = w3 \<or> w' = record_event eventTypeNormal eventReasonRemediationRemoved
                             (''Deleted remediation object for node '' @ node_name n)
                             (log_info ''deleted node external remediation object'' w3)"
          by (auto simp: markHealthy_def split: option.splits if_splits)
        then have crs: "w_crs w' = w_crs w
              \<or> w_crs w' = delete_from_store (env_now e) (cr_key found) (w_crs w)"
          and rest: "w_policies w' = w_policies w \<and> w_nodes w' = w_nodes w
             \<and> w_templates w' = w_templates w \<and> w_metrics w' = w_metrics w
             \<and> created_keys (w_calls w') = created_keys (w_calls w)
             \<and> status_writes (w_calls w') = status_writes (w_calls w)
             \<and> (w_faults w = [] \<longrightarrow> w_faults w' = [])"
          using w3 by (auto simp: w2 w1 log_info_def record_event_def)
        from crs have "w_crs w' = w_crs w \<or> (\<exists>k. w_crs w' = delete_from_store (env_now e) k (w_crs w))"
          by blast
        with rest show ?thesis by simp
      qed
    qed
  qed
qed


lemma alertOldRemediationCR_frame:
  assumes "alertOldRemediationCR e c w = (r, w')"
  shows "w_policies w' = w_policies w \<and> w_nodes w' = w_nodes w \<and> w_templates w' = w_templates w
     \<and> w_events w' = w_events w \<and> w_metrics w' = w_metrics w
     \<and> created_keys (w_calls w') = created_keys (w_calls w)
     \<and> status_writes (w_calls w') = status_writes (w_calls w)
     \<and> (w_faults w = [] \<longrightarrow> w_faults w' = [])
     \<and> (w_crs w' = w_crs w
          \<or> w_crs w' = map (\<lambda>v. if cr_key v = cr_key c then flagged c else v) (w_crs w))"
proof -
  have k: "cr_key (c\<lparr>u_annotations := a\<rparr>) = cr_key c" for a
    by (simp add: cr_key_def)
  from assms
  have "w' = w \<or> (\<exists>u. client_update_cr (flagged c) w = (u, w'))
        \<or> (\<exists>u err msg w1. client_update_cr (flagged c) w = (u, w1) \<and> w_crs w1 = w_crs w
                \<and> w' = log_error err msg w1)"
    by (auto simp: alertOldRemediationCR_def Let_def flagged_def client_update_cr_def issue_eq k
        split: if_splits option.splits prod.splits list.splits)
  then show ?thesis
    by (auto dest!: client_update_cr_frame simp: flagged_fields log_error_def)
qed

lemma remediate_frame:
  assumes "remediate e n p w = (r, w')"
  shows "w_policies w' = w_policies w \<and> w_nodes w' = w_nodes w \<and> w_templates w' = w_templates w
     \<and> status_writes (w_calls w') = status_writes (w_calls w)
     \<and> (w_faults w = [] \<longrightarrow> w_faults w' = [])
     \<and> ((w_crs w' = w_crs w \<and> created_keys (w_calls w') = created_keys (w_calls w)
            \<and> w_events w' = w_events w)
         \<or> (\<exists>cr err. fst (generateRemediationCR e n p w) = Inr cr
               \<and> fst (client_get_cr (cr_key cr) (snd (generateRemediationCR e n p w))) = Inl err
               \<and> IsNotFound err
               \<and> created_keys (w_calls w') = created_keys (w_calls w) @ [cr_key cr]
               \<and> ((w_crs w' = w_crs w \<and> w_events w' = w_events w \<and> r \<noteq> Inr None)
                   \<or> (w_crs w' = w_crs w @ [cr] \<and> cr_key cr \<notin> cr_key ` set (w_crs w)
                        \<and> w_events w' = w_events w @ [created_event n] \<and> r = Inr None)))
         \<or> (\<exists>c. c \<in> set (w_crs w)
               \<and> w_crs w' = map (\<lambda>v. if cr_key v = cr_key c then flagged c else v) (w_crs w)
               \<and> created_keys (w_calls w') = created_keys (w_calls w)
               \<and> w_events w' = w_events w))"
proof -
  obtain g w1 where g: "generateRemediationCR e n p w = (g, w1)"
    by (cases "generateRemediationCR e n p w")
  note w1 = generateRemediationCR_frame [OF g]
  show ?thesis
  proof (cases g)
    case (Inl err)
    with assms g have "w' = w1" by (simp add: remediate_def)
    then show ?thesis by (simp add: w1)
  next
    case (Inr cr)
    obtain c w2 where c: "client_get_cr (cr_key cr) w1 = (c, w2)"
      by (cases "client_get_cr (cr_key cr) w1")
    note w2 = client_get_cr_frame [OF c]
    show ?thesis
    proof (cases c)
      case (Inl err)
      show ?thesis
      proof (cases "IsNotFound err")
        case False
        with assms g Inr c Inl
        have "w' = log_error err ''failed to check for existing external remediation object'' w2"
          by (auto simp: remediate_def)
        then show ?thesis by (simp add: w2 w1 log_error_def)
      next
        case True
        obtain d w3 where d: "client_create_cr cr
            (log_info ''node seems unhealthy. Creating an external remediation object'' w2) = (d, w3)"
          by (cases "client_create_cr cr
            (log_info ''node seems unhealthy. Creating an external remediation object'' w2)")
        note w3 = client_create_cr_frame [OF d]
        from assms g Inr c Inl True d
        have cases: "(\<exists>err'. d = Some err' \<and> r = Inl err'
                        \<and> w' = log_error err' ''failed to create an external remediation object'' w3)
               \<or> (d = None \<and> r = Inr None
                    \<and> w' = record_event eventTypeNormal eventReasonRemediationCreated
                             (''Created remediation object for node '' @ node_name n) w3)"
          by (auto simp: remediate_def split: option.splits)
        have frame: "w_policies w' = w_policies w \<and> w_nodes w' = w_nodes w
           \<and> w_templates w' = w_templates w
           \<and> status_writes (w_calls w') = status_writes (w_calls w)
           \<and> (w_faults w = [] \<longrightarrow> w_faults w' = [])
           \<and> created_keys (w_calls w') = created_keys (w_calls w) @ [cr_key cr]"
          using cases w3 by (auto simp: w2 w1 log_info_def log_error_def record_event_def)
        have eff: "(w_crs w' = w_crs w \<and> w_events w' = w_events w \<and> r \<noteq> Inr None)
                   \<or> (w_crs w' = w_crs w @ [cr] \<and> cr_key cr \<notin> cr_key ` set (w_crs w)
                        \<and> w_events w' = w_events w @ [created_event n] \<and> r = Inr None)"
          using cases w3
          by (auto simp: w2 w1 log_info_def log_error_def record_event_def created_event_def
              eventTypeNormal_def eventReasonRemediationCreated_def)
        have "fst (generateRemediationCR e n p w) = Inr cr
               \<and> fst (client_get_cr (cr_key cr) (snd (generateRemediationCR e n p w))) = Inl err
               \<and> IsNotFound err"
          using g Inr c Inl True by simp
        with frame eff show ?thesis by blast
      qed
    next
      case found: (Inr found)
      obtain a w3 where a: "alertOldRemediationCR e found w2 = (a, w3)"
        by (cases "alertOldRemediationCR e found w2")
      note w3 = alertOldRemediationCR_frame [OF a]
      have mem: "found \<in> set (w_crs w)"
        using client_get_cr_Inr [OF c [unfolded found]] by (simp add: w1)
      from assms g Inr c found a
      have "w' = w3 \<or> w' = observe_old_remediation_cr (node_name n) (node_namespace n) w3"
        by (auto simp: remediate_def split: prod.splits if_splits)
      then have frame: "w_policies w' = w_policies w \<and> w_nodes w' = w_nodes w
           \<and> w_templates w' = w_templates w
           \<and> status_writes (w_calls w') = status_writes (w_calls w)
           \<and> (w_faults w = [] \<longrightarrow> w_faults w' = [])
           \<and> created_keys (w_calls w') = created_keys (w_calls w)
           \<and> w_events w' = w_events w"
        and crs: "w_crs w' = w_crs w
          \<or> w_crs w' = map (\<lambda>v. if cr_key v = cr_key found then flagged found else v) (w_crs w)"
        using w3 by (auto simp: w2 w1 observe_old_remediation_cr_def)
      from crs mem frame show ?thesis by blast
    qed
  qed
qed


subsection \<open>At most one request object under a key\<close>





lemma shouldTryRemediation_frame:
  assumes "shouldTryRemediation e p nodes unhealthyNodes minHealthy result w = (r, w')"
  shows "w_crs w' = w_crs w \<and> w_policies w' = w_policies w \<and> w_nodes w' = w_nodes w
     \<and> w_templates w' = w_templates w \<and> w_metrics w' = w_metrics w \<and> w_calls w' = w_calls w
     \<and> w_faults w' = w_faults w"
  using assms
  by (auto simp: shouldTryRemediation_def isClusterUpgrading_def Let_def log_info_def log_error_def
      record_event_def split: if_splits prod.splits bool.splits option.splits)














subsection \<open>The health pass when the API server answers\<close>

lemma request_key_eq_iff:
  "request_key t n = request_key t m \<longleftrightarrow> node_name n = node_name m"
  by (simp add: request_key_def)

lemma live_request_delete_other:
  assumes "k' \<noteq> k"
  shows "live_request k' (delete_from_store now k crs) = live_request k' crs"
proof
  assume "live_request k' (delete_from_store now k crs)"
  then obtain v where v: "v \<in> set (delete_from_store now k crs)" "cr_key v = k'"
    "u_deletionTimestamp v = None"
    by (auto simp: live_request_def list_ex_iff)
  from v(1) show "live_request k' crs"
  proof (cases rule: in_delete_from_store)
    case other
    with v show ?thesis by (auto simp: live_request_def list_ex_iff)
  next
    case (marked u)
    with v assms show ?thesis by (simp add: cr_key_mark_deleted)
  qed
next
  assume "live_request k' crs"
  then obtain v where v: "v \<in> set crs" "cr_key v = k'" "u_deletionTimestamp v = None"
    by (auto simp: live_request_def list_ex_iff)
  with assms have "v \<in> set (delete_from_store now k crs)"
    by (intro delete_from_store_other) auto
  with v show "live_request k' (delete_from_store now k crs)"
    by (auto simp: live_request_def list_ex_iff)
qed

text \<open>One healthy node: what \<open>markHealthy\<close> leaves behind.\<close>

lemma markHealthy_ok:
  assumes nf: "w_faults w = []"
    and tmpl: "template_of p w = Some t" "tpl_spec_template t = Some body"
    and uniq: "distinct (map cr_key (w_crs w))"
  shows "\<exists>w'. markHealthy e n p w = (None, w')
     \<and> w_faults w' = [] \<and> w_templates w' = w_templates w \<and> w_nodes w' = w_nodes w
     \<and> w_policies w' = w_policies w \<and> w_metrics w' = w_metrics w
     \<and> distinct (map cr_key (w_crs w'))
     \<and> created_keys (w_calls w') = created_keys (w_calls w)
     \<and> status_writes (w_calls w') = status_writes (w_calls w)
     \<and> set (w_calls w) \<subseteq> set (w_calls w')
     \<and> \<not> live_request (request_key t n) (w_crs w')
     \<and> (\<forall>k. k \<noteq> request_key t n \<longrightarrow> live_request k (w_crs w') = live_request k (w_crs w))
     \<and> (live_request (request_key t n) (w_crs w) \<longrightarrow> DeleteCR (request_key t n) \<in> set (w_calls w'))
     \<and> (\<not> live_request (request_key t n) (w_crs w) \<longrightarrow>
            w_crs w' = w_crs w \<and> w_events w' = w_events w)"
proof (cases "live_request (request_key t n) (w_crs w)")
  case True
  then obtain c where c: "find (\<lambda>u. cr_key u = request_key t n) (w_crs w) = Some c"
    "u_deletionTimestamp c = None"
    using find_key_live [OF uniq] by blast
  from markHealthy_deletes [OF nf tmpl [unfolded template_of_def] c, where e = e]
  obtain w' where w': "markHealthy e n p w = (None, w')"
     "w_crs w' = delete_from_store (env_now e) (request_key t n) (w_crs w)"
     "w_metrics w' = w_metrics w"
     "w_calls w' = w_calls w @ [GetTemplate (reference_key (nhc_remediationTemplate p)),
                                  GetCR (request_key t n), DeleteCR (request_key t n)]"
     "w_faults w' = []" "w_policies w' = w_policies w" "w_nodes w' = w_nodes w"
     "w_templates w' = w_templates w"
    by auto
  show ?thesis
  proof (rule exI [of _ w'], intro conjI)
    show "distinct (map cr_key (w_crs w'))"
      unfolding w'(2) using uniq by (rule distinct_delete_from_store)
    show "\<not> live_request (request_key t n) (w_crs w')"
      unfolding w'(2) by (rule delete_from_store_settles)
    show "\<forall>k. k \<noteq> request_key t n \<longrightarrow> live_request k (w_crs w') = live_request k (w_crs w)"
      unfolding w'(2) by (simp add: live_request_delete_other)
  qed (use w' True in auto)
next
  case False
  from markHealthy_nothing_to_delete [OF nf tmpl [unfolded template_of_def]
      not_live_find [OF False], where e = e]
  obtain w' where w': "markHealthy e n p w = (None, w')"
     "w_crs w' = w_crs w" "w_events w' = w_events w" "w_metrics w' = w_metrics w"
     "w_calls w' = w_calls w @ [GetTemplate (reference_key (nhc_remediationTemplate p)),
                                  GetCR (request_key t n)]"
     "w_faults w' = []" "w_policies w' = w_policies w" "w_nodes w' = w_nodes w"
     "w_templates w' = w_templates w"
    by auto
  show ?thesis
    by (rule exI [of _ w'], intro conjI) (use w' False uniq in auto)
qed


lemma template_of_cong: "w_templates w' = w_templates w \<Longrightarrow> template_of p w' = template_of p w"
  by (simp add: template_of_def)

lemma checkNodesHealth_from_ok:
  assumes nf: "w_faults w = []"
    and tmpl: "template_of p w = Some t" "tpl_spec_template t = Some body"
    and uniq: "distinct (map cr_key (w_crs w))"
  shows "\<exists>w'. checkNodesHealth_from e p acc ns w = (Inr (acc @ unhealthy_of e p ns), w')
     \<and> w_faults w' = [] \<and> w_templates w' = w_templates w \<and> w_nodes w' = w_nodes w
     \<and> w_policies w' = w_policies w \<and> w_metrics w' = w_metrics w
     \<and> distinct (map cr_key (w_crs w'))
     \<and> created_keys (w_calls w') = created_keys (w_calls w)
     \<and> status_writes (w_calls w') = status_writes (w_calls w)
     \<and> set (w_calls w) \<subseteq> set (w_calls w')
     \<and> (\<forall>n \<in> set ns. node_is_healthy e p n \<longrightarrow> \<not> live_request (request_key t n) (w_crs w'))
     \<and> (\<forall>k. \<not> live_request k (w_crs w) \<longrightarrow> \<not> live_request k (w_crs w'))
     \<and> (\<forall>n \<in> set ns. node_is_healthy e p n \<and> live_request (request_key t n) (w_crs w)
            \<longrightarrow> DeleteCR (request_key t n) \<in> set (w_calls w'))
     \<and> ((\<forall>n \<in> set ns. node_is_healthy e p n \<longrightarrow> \<not> live_request (request_key t n) (w_crs w))
            \<longrightarrow> w_crs w' = w_crs w \<and> w_events w' = w_events w)"
  using nf tmpl(1) uniq
proof (induction ns arbitrary: acc w)
  case Nil
  then show ?case by (simp add: unhealthy_of_def)
next
  case (Cons n ns)
  show ?case
  proof (cases "node_is_healthy e p n")
    case False
    define acc' where "acc' = (if env_needIgnoreNode e n then acc else acc @ [n])"
    have step: "checkNodesHealth_from e p acc (n # ns) w = checkNodesHealth_from e p acc' ns w"
      using False by (simp add: node_is_healthy_def acc'_def)
    have un: "acc @ unhealthy_of e p (n # ns) = acc' @ unhealthy_of e p ns"
      using False by (simp add: unhealthy_of_def acc'_def)
    from Cons.IH [OF Cons.prems, of acc']
    obtain w' where w': "checkNodesHealth_from e p acc' ns w = (Inr (acc' @ unhealthy_of e p ns), w')"
      and rest: "w_faults w' = [] \<and> w_templates w' = w_templates w \<and> w_nodes w' = w_nodes w
     \<and> w_policies w' = w_policies w \<and> w_metrics w' = w_metrics w
     \<and> distinct (map cr_key (w_crs w'))
     \<and> created_keys (w_calls w') = created_keys (w_calls w)
     \<and> status_writes (w_calls w') = status_writes (w_calls w)
     \<and> set (w_calls w) \<subseteq> set (w_calls w')
     \<and> (\<forall>n \<in> set ns. node_is_healthy e p n \<longrightarrow> \<not> live_request (request_key t n) (w_crs w'))
     \<and> (\<forall>k. \<not> live_request k (w_crs w) \<longrightarrow> \<not> live_request k (w_crs w'))
     \<and> (\<forall>n \<in> set ns. node_is_healthy e p n \<and> live_request (request_key t n) (w_crs w)
            \<longrightarrow> DeleteCR (request_key t n) \<in> set (w_calls w'))
     \<and> ((\<forall>n \<in> set ns. node_is_healthy e p n \<longrightarrow> \<not> live_request (request_key t n) (w_crs w))
            \<longrightarrow> w_crs w' = w_crs w \<and> w_events w' = w_events w)"
      by blast
    show ?thesis
      unfolding step un
      by (rule exI [of _ w'], rule conjI [OF w']) (use rest False in simp)
  next
    case True
    from markHealthy_ok [OF Cons.prems(1,2) tmpl(2) Cons.prems(3), where e = e and n = n]
    obtain w1 where m: "markHealthy e n p w = (None, w1)"
      and w1: "w_faults w1 = []" "w_templates w1 = w_templates w" "w_nodes w1 = w_nodes w"
        "w_policies w1 = w_policies w" "w_metrics w1 = w_metrics w"
        "distinct (map cr_key (w_crs w1))"
        "created_keys (w_calls w1) = created_keys (w_calls w)"
        "status_writes (w_calls w1) = status_writes (w_calls w)"
        "set (w_calls w) \<subseteq> set (w_calls w1)"
        "\<not> live_request (request_key t n) (w_crs w1)"
      and other: "\<And>k. k \<noteq> request_key t n \<Longrightarrow> live_request k (w_crs w1) = live_request k (w_crs w)"
      and del: "live_request (request_key t n) (w_crs w) \<Longrightarrow> DeleteCR (request_key t n) \<in> set (w_calls w1)"
      and noop: "\<not> live_request (request_key t n) (w_crs w) \<Longrightarrow>
            w_crs w1 = w_crs w \<and> w_events w1 = w_events w"
      by blast
    have tmpl1: "template_of p w1 = Some t"
      using Cons.prems(2) w1(2) by (simp add: template_of_def)
    have step: "checkNodesHealth_from e p acc (n # ns) w = checkNodesHealth_from e p acc ns w1"
      using True m by (simp add: node_is_healthy_def)
    have un: "acc @ unhealthy_of e p (n # ns) = acc @ unhealthy_of e p ns"
      using True by (simp add: unhealthy_of_def)
    from Cons.IH [OF w1(1) tmpl1 w1(6), of acc]
    obtain w' where w': "checkNodesHealth_from e p acc ns w1 = (Inr (acc @ unhealthy_of e p ns), w')"
      and f: "w_faults w' = []" "w_templates w' = w_templates w1" "w_nodes w' = w_nodes w1"
        "w_policies w' = w_policies w1" "w_metrics w' = w_metrics w1"
        "distinct (map cr_key (w_crs w'))"
        "created_keys (w_calls w') = created_keys (w_calls w1)"
        "status_writes (w_calls w') = status_writes (w_calls w1)"
        "set (w_calls w1) \<subseteq> set (w_calls w')"
      and settled: "\<And>m. m \<in> set ns \<Longrightarrow> node_is_healthy e p m
                      \<Longrightarrow> \<not> live_request (request_key t m) (w_crs w')"
      and mono: "\<And>k. \<not> live_request k (w_crs w1) \<Longrightarrow> \<not> live_request k (w_crs w')"
      and del': "\<And>m. m \<in> set ns \<Longrightarrow> node_is_healthy e p m
                    \<Longrightarrow> live_request (request_key t m) (w_crs w1)
                    \<Longrightarrow> DeleteCR (request_key t m) \<in> set (w_calls w')"
      and noop': "(\<forall>n \<in> set ns. node_is_healthy e p n \<longrightarrow> \<not> live_request (request_key t n) (w_crs w1))
            \<Longrightarrow> w_crs w' = w_crs w1 \<and> w_events w' = w_events w1"
      by blast
    have mono_w: "\<not> live_request k (w_crs w1)" if "\<not> live_request k (w_crs w)" for k
      using that other [of k] w1(10) by (cases "k = request_key t n") auto
    have A: "\<forall>m \<in> set (n # ns). node_is_healthy e p m \<longrightarrow> \<not> live_request (request_key t m) (w_crs w')"
      using settled mono [OF w1(10)] by auto
    have B: "\<forall>k. \<not> live_request k (w_crs w) \<longrightarrow> \<not> live_request k (w_crs w')"
      using mono mono_w by blast
    have C: "\<forall>m \<in> set (n # ns). node_is_healthy e p m \<and> live_request (request_key t m) (w_crs w)
            \<longrightarrow> DeleteCR (request_key t m) \<in> set (w_calls w')"
    proof (intro ballI impI)
      fix m assume m: "m \<in> set (n # ns)"
        and h: "node_is_healthy e p m \<and> live_request (request_key t m) (w_crs w)"
      show "DeleteCR (request_key t m) \<in> set (w_calls w')"
      proof (cases "request_key t m = request_key t n")
        case True
        with h del f(9) show ?thesis by auto
      next
        case False
        with m have "m \<in> set ns" by auto
        moreover have "live_request (request_key t m) (w_crs w1)"
          using other [OF False] h by simp
        ultimately show ?thesis using del' h by blast
      qed
    qed
    have D: "(\<forall>m \<in> set (n # ns). node_is_healthy e p m \<longrightarrow> \<not> live_request (request_key t m) (w_crs w))
            \<longrightarrow> w_crs w' = w_crs w \<and> w_events w' = w_events w"
    proof
      assume a: "\<forall>m \<in> set (n # ns). node_is_healthy e p m \<longrightarrow> \<not> live_request (request_key t m) (w_crs w)"
      with True have "\<not> live_request (request_key t n) (w_crs w)" by simp
      from noop [OF this] have eq1: "w_crs w1 = w_crs w" "w_events w1 = w_events w" by simp_all
      from a eq1 have "\<forall>n \<in> set ns. node_is_healthy e p n \<longrightarrow> \<not> live_request (request_key t n) (w_crs w1)"
        by simp
      from noop' [OF this] eq1 show "w_crs w' = w_crs w \<and> w_events w' = w_events w" by simp
    qed
    show ?thesis
      unfolding step un
      by (rule exI [of _ w'], rule conjI [OF w']) (use f w1 A B C D in auto)
  qed
qed


subsection \<open>Skipped remediation leaves the store alone\<close>




lemma shouldTryRemediation_closed:
  assumes "unhealthyNodes = [] \<or> nhc_pauseRequests p \<noteq> [] \<or> fst (env_upgradeCheck e)
           \<or> int (length nodes) - int (length unhealthyNodes) < minHealthy"
  shows "\<not> fst (fst (shouldTryRemediation e p nodes unhealthyNodes minHealthy result w))"
  using assms
  by (auto simp: shouldTryRemediation_def isClusterUpgrading_def Let_def
      split: prod.splits bool.splits option.splits)



subsection \<open>The first steps of a reconcile when the API server answers\<close>

lemma client_get_nhc_ok:
  assumes "w_faults w = []" and "policy_of req w = Some p"
  shows "client_get_nhc req w = (Inr p, w\<lparr>w_calls := w_calls w @ [GetNHC]\<rparr>)"
  using assms by (simp add: client_get_nhc_def issue_def policy_of_def)

lemma policy_of_stored:
  assumes "policy_of req w = Some p"
  shows "p \<in> set (w_policies w) \<and> nhc_namespace p = req_namespace req \<and> nhc_name p = req_name req"
  using assms by (auto simp: policy_of_def find_Some_iff)

lemma find_map_update:
  assumes "find P xs = Some x" and "\<And>y. P (f y) = P y"
  shows "find P (map (\<lambda>y. if P y then f y else y) xs) = Some (f x)"
  using assms by (induction xs) (auto split: if_splits)

lemma client_status_update_ok:
  assumes "w_faults w = []" and "policy_of req w = Some p"
  shows "client_status_update (p\<lparr>nhc_status := s\<rparr>) w =
           (None, w\<lparr>w_calls := w_calls w @ [StatusUpdate],
                    w_policies := map (\<lambda>q. if same_policy q p then q\<lparr>nhc_status := s\<rparr> else q)
                                    (w_policies w)\<rparr>)"
proof -
  from policy_of_stored [OF assms(2)] have "\<exists>q \<in> set (w_policies w). same_policy q p"
    by (auto simp: same_policy_def)
  then show ?thesis
    using assms(1) by (simp add: client_status_update_def issue_def same_policy_def)
qed

lemma policy_of_after_write:
  assumes "policy_of req w = Some p"
    and that: "\<And>q. nhc_namespace (f q) = nhc_namespace q \<and> nhc_name (f q) = nhc_name q"
  shows "find (\<lambda>p. nhc_namespace p = req_namespace req \<and> nhc_name p = req_name req)
           (map (\<lambda>q. if same_policy q p then f q else q) (w_policies w)) = Some (f p)"
proof -
  from policy_of_stored [OF assms(1)]
  have key: "nhc_namespace p = req_namespace req" "nhc_name p = req_name req" by simp_all
  have same: "same_policy q p \<longleftrightarrow> nhc_namespace q = req_namespace req \<and> nhc_name q = req_name req" for q
    by (simp add: same_policy_def key)
  show ?thesis
    unfolding same
    by (rule find_map_update) (use assms(1) that in \<open>simp_all add: policy_of_def\<close>)
qed

lemma Reconcile_enable_ok:
  assumes "w_faults w = []" and "policy_of req w = Some p"
  shows "\<exists>s w'. Reconcile_enable p w = (Inr (p\<lparr>nhc_status := s\<rparr>), w')
     \<and> policy_of req w' = Some (p\<lparr>nhc_status := s\<rparr>)
     \<and> \<not> IsStatusConditionTrue (st_conditions s) ConditionTypeDisabled
     \<and> st_observedNodes s = st_observedNodes (nhc_status p)
     \<and> st_healthyNodes s = st_healthyNodes (nhc_status p)
     \<and> st_inFlightRemediations s = st_inFlightRemediations (nhc_status p)
     \<and> w_faults w' = [] \<and> w_crs w' = w_crs w \<and> w_templates w' = w_templates w
     \<and> w_nodes w' = w_nodes w \<and> created_keys (w_calls w') = created_keys (w_calls w)
     \<and> set (w_calls w) \<subseteq> set (w_calls w')
     \<and> (\<not> IsStatusConditionTrue (st_conditions (nhc_status p)) ConditionTypeDisabled
           \<longrightarrow> w' = w \<and> s = nhc_status p)"
proof (cases "IsStatusConditionTrue (st_conditions (nhc_status p)) ConditionTypeDisabled")
  case False
  then have "Reconcile_enable p w = (Inr (p\<lparr>nhc_status := nhc_status p\<rparr>), w)"
    by (simp add: Reconcile_enable_def)
  with False assms show ?thesis by (intro exI [of _ "nhc_status p"] exI [of _ w]) simp
next
  case True
  define s where "s = (nhc_status p)\<lparr>st_conditions :=
                     RemoveStatusCondition (st_conditions (nhc_status p)) ConditionTypeDisabled\<rparr>"
  define w2 where "w2 = record_event eventTypeNormal eventReasonEnabled
                       ''Custom MachineHealthCheck(s) removed, re-enabling NHC''
      (log_info ''re-enabling NHC, no conflicting MHC configured in the cluster'' w)"
  have nf2: "w_faults w2 = []" and pol2: "policy_of req w2 = Some p"
    using assms by (simp_all add: w2_def record_event_def log_info_def policy_of_def)
  define w' where "w' = w2\<lparr>w_calls := w_calls w2 @ [StatusUpdate],
                    w_policies := map (\<lambda>q. if same_policy q p then q\<lparr>nhc_status := s\<rparr> else q)
                                    (w_policies w2)\<rparr>"
  have run: "Reconcile_enable p w = (Inr (p\<lparr>nhc_status := s\<rparr>), w')"
    using True client_status_update_ok [OF nf2 pol2, of s]
    by (simp add: Reconcile_enable_def Let_def s_def [symmetric] w2_def [symmetric] w'_def)
  have pol': "policy_of req w' = Some (p\<lparr>nhc_status := s\<rparr>)"
    unfolding policy_of_def w'_def
    using policy_of_after_write [OF pol2, of "\<lambda>q. q\<lparr>nhc_status := s\<rparr>"] by simp
  have "find (\<lambda>c. c_type c = ConditionTypeDisabled)
          (filter (\<lambda>c. c_type c \<noteq> ConditionTypeDisabled) (st_conditions (nhc_status p))) = None"
    by (simp add: find_None_iff)
  then have nd: "\<not> IsStatusConditionTrue (st_conditions s) ConditionTypeDisabled"
    by (simp add: s_def IsStatusConditionTrue_def RemoveStatusCondition_def)
  show ?thesis
    by (rule exI [of _ s], rule exI [of _ w'], intro conjI)
      (use run pol' nd True assms in
        \<open>auto simp: s_def w'_def w2_def record_event_def log_info_def\<close>)
qed


lemma status_irrelevant [simp]:
  "node_is_healthy e (p\<lparr>nhc_status := s\<rparr>) = node_is_healthy e p"
  "unhealthy_of e (p\<lparr>nhc_status := s\<rparr>) = unhealthy_of e p"
  "template_of (p\<lparr>nhc_status := s\<rparr>) = template_of p"
  by (simp_all add: fun_eq_iff node_is_healthy_def unhealthy_of_def template_of_def)

lemma fetchNodes_ok:
  assumes "w_faults w = []" and "sel = Inr f"
  shows "fetchNodes sel w = ((filter f (w_nodes w), None), w\<lparr>w_calls := w_calls w @ [ListNodes]\<rparr>)"
  using assms by (simp add: fetchNodes_def client_list_nodes_def issue_def)




subsection \<open>Remediation when the API server answers\<close>

lemma find_append_other:
  assumes "cr_key c \<noteq> k"
  shows "find (\<lambda>u. cr_key u = k) (crs @ [c]) = find (\<lambda>u. cr_key u = k) crs"
  using assms by (induction crs) auto

lemma find_append_new:
  assumes "find (\<lambda>u. cr_key u = k) crs = None" and "cr_key c = k"
  shows "find (\<lambda>u. cr_key u = k) (crs @ [c]) = Some c"
  using assms by (induction crs) (auto split: if_splits)

lemma find_replace_other:
  assumes "k' \<noteq> k" and "cr_key c' = k"
  shows "find (\<lambda>u. cr_key u = k')  (map (\<lambda>v. if cr_key v = k then c' else v) crs)
           = find (\<lambda>u. cr_key u = k') crs"
  using assms by (induction crs) auto

lemma fresh_not_stale:
  assumes "u_creationTimestamp c = truncate_seconds (env_now e)"
  shows "\<not> is_stale e c"
proof -
  have "env_now e mod 1000000000 < 1000000000" by simp
  then show ?thesis
    using assms
    by (simp add: is_stale_def truncate_seconds_def remediationCRAlertTimeout_def time_Hour_def
        time_Minute_def time_Second_def)
qed

lemma remediate_ok:
  assumes nf: "w_faults w = []"
    and tmpl: "template_of p w = Some t" "tpl_spec_template t = Some body"
    and uniq: "distinct (map cr_key (w_crs w))"
  shows "\<exists>nx w'. remediate e u p w = (Inr nx, w')
     \<and> w_faults w' = [] \<and> w_templates w' = w_templates w \<and> w_nodes w' = w_nodes w
     \<and> w_policies w' = w_policies w
     \<and> status_writes (w_calls w') = status_writes (w_calls w)
     \<and> distinct (map cr_key (w_crs w'))
     \<and> (\<exists>c. find (\<lambda>x. cr_key x = request_key t u) (w_crs w') = Some c
              \<and> (is_stale e c \<longrightarrow> has_flag c))
     \<and> (\<forall>k. k \<noteq> request_key t u \<longrightarrow>
            find (\<lambda>x. cr_key x = k) (w_crs w') = find (\<lambda>x. cr_key x = k) (w_crs w))
     \<and> ((\<exists>c. find (\<lambda>x. cr_key x = request_key t u) (w_crs w) = Some c
              \<and> (is_stale e c \<longrightarrow> has_flag c)) \<longrightarrow> w_crs w' = w_crs w)"
proof -
  let ?K = "request_key t u"
  let ?tk = "reference_key (nhc_remediationTemplate p)"
  note tm = tmpl(1) [unfolded template_of_def]
  show ?thesis
  proof (cases "find (\<lambda>x. cr_key x = ?K) (w_crs w)")
    case None
    from remediate_creates [OF nf tm tmpl(2) None, where e = e]
    obtain cr w' where w': "remediate e u p w = (Inr None, w')"
      "w_crs w' = w_crs w @ [cr]" "cr_key cr = ?K"
      "u_creationTimestamp cr = truncate_seconds (env_now e)"
      "w_calls w' = w_calls w @ [GetTemplate ?tk, GetCR ?K, CreateCR ?K]"
      "w_faults w' = []" "w_policies w' = w_policies w" "w_nodes w' = w_nodes w"
      "w_templates w' = w_templates w"
      by auto
    have absent: "?K \<notin> cr_key ` set (w_crs w)"
      using None by (auto simp: find_None_iff)
    show ?thesis
    proof (rule exI [of _ None], rule exI [of _ w'], intro conjI)
      show "distinct (map cr_key (w_crs w'))"
        using uniq absent by (simp add: w'(2,3))
      show "\<exists>c. find (\<lambda>x. cr_key x = ?K) (w_crs w') = Some c \<and> (is_stale e c \<longrightarrow> has_flag c)"
        using find_append_new [OF None w'(3)] fresh_not_stale [OF w'(4)] by (simp add: w'(2))
      show "\<forall>k. k \<noteq> ?K \<longrightarrow>
            find (\<lambda>x. cr_key x = k) (w_crs w') = find (\<lambda>x. cr_key x = k) (w_crs w)"
        using find_append_other [of cr] by (simp add: w'(2,3))
    qed (use w' None in simp_all)
  next
    case (Some c)
    then have c: "c \<in> set (w_crs w)" "cr_key c = ?K" by (auto simp: find_Some_iff)
    let ?w2 = "w\<lparr>w_calls := w_calls w @ [GetTemplate ?tk, GetCR ?K], w_faults := tl (tl (w_faults w))\<rparr>"
    note ex = remediate_existing [OF disjI1 [OF nf] tm tmpl(2) Some, where e = e]
    have nf2: "w_faults ?w2 = []" using nf by simp
    have c2: "c \<in> set (w_crs ?w2)" using c by simp
    show ?thesis
    proof (cases "is_stale e c \<and> \<not> has_flag c")
      case True
      then have st: "is_stale e c" and fl: "\<not> has_flag c" by simp_all
      define w' where "w' = observe_old_remediation_cr (node_name u) (node_namespace u)
        (?w2\<lparr>w_calls := w_calls ?w2 @ [UpdateCR (cr_key c)], w_faults := [],
             w_crs := map (\<lambda>v. if cr_key v = cr_key c then flagged c else v) (w_crs ?w2)\<rparr>)"
      have run: "remediate e u p w = (Inr None, w')"
        unfolding ex alertOldRemediationCR_flags [OF nf2 st fl c2] w'_def by simp
      have crs': "w_crs w' = map (\<lambda>v. if cr_key v = ?K then flagged c else v) (w_crs w)"
        by (simp add: w'_def observe_old_remediation_cr_def c(2))
      have kf: "cr_key (flagged c) = ?K" by (simp add: flagged_fields c(2))
      show ?thesis
      proof (rule exI [of _ None], rule exI [of _ w'], intro conjI)
        show "remediate e u p w = (Inr None, w')" by (rule run)
        show "distinct (map cr_key (w_crs w'))"
          using uniq unfolding crs' keys_replace [OF kf] .
        show "\<exists>c. find (\<lambda>x. cr_key x = ?K) (w_crs w') = Some c \<and> (is_stale e c \<longrightarrow> has_flag c)"
          unfolding crs' using find_replace [OF Some kf] flagged_fields(7) by blast
        show "\<forall>k. k \<noteq> ?K \<longrightarrow>
            find (\<lambda>x. cr_key x = k) (w_crs w') = find (\<lambda>x. cr_key x = k) (w_crs w)"
          unfolding crs' using find_replace_other [OF _ kf] by blast
        show "(\<exists>c. find (\<lambda>x. cr_key x = ?K) (w_crs w) = Some c
              \<and> (is_stale e c \<longrightarrow> has_flag c)) \<longrightarrow> w_crs w' = w_crs w"
          using Some True by simp
      qed (simp_all add: w'_def observe_old_remediation_cr_def nf)
    next
      case False
      obtain nx where al: "alertOldRemediationCR e c ?w2 = ((False, nx), ?w2)"
        using False
        by (cases "is_stale e c")
          (auto simp: alertOldRemediationCR_flagged_already alertOldRemediationCR_young)
      have run: "remediate e u p w = (Inr nx, ?w2)"
        unfolding ex al by simp
      show ?thesis
        by (rule exI [of _ nx], rule exI [of _ ?w2], intro conjI)
          (use run Some False uniq nf in auto)
    qed
  qed
qed


lemma remediate_each_ok:
  assumes nf: "w_faults w = []"
    and tmpl: "template_of p w = Some t" "tpl_spec_template t = Some body"
    and uniq: "distinct (map cr_key (w_crs w))"
    and names: "distinct (map node_name us)"
  shows "\<exists>r' w'. remediate_each e p us result w = (Inr r', w')
     \<and> w_faults w' = [] \<and> w_templates w' = w_templates w \<and> w_nodes w' = w_nodes w
     \<and> w_policies w' = w_policies w
     \<and> status_writes (w_calls w') = status_writes (w_calls w)
     \<and> distinct (map cr_key (w_crs w'))
     \<and> (\<forall>u \<in> set us. \<exists>c. find (\<lambda>x. cr_key x = request_key t u) (w_crs w') = Some c
              \<and> (is_stale e c \<longrightarrow> has_flag c))
     \<and> (\<forall>k. k \<notin> request_key t ` set us \<longrightarrow>
            find (\<lambda>x. cr_key x = k) (w_crs w') = find (\<lambda>x. cr_key x = k) (w_crs w))
     \<and> ((\<forall>u \<in> set us. \<exists>c. find (\<lambda>x. cr_key x = request_key t u) (w_crs w) = Some c
              \<and> (is_stale e c \<longrightarrow> has_flag c)) \<longrightarrow> w_crs w' = w_crs w)"
  using nf tmpl(1) uniq names
proof (induction us arbitrary: result w)
  case Nil
  then show ?case by simp
next
  case (Cons u us)
  from remediate_ok [OF Cons.prems(1,2) tmpl(2) Cons.prems(3), where e = e and u = u]
  obtain nx w1 where run1: "remediate e u p w = (Inr nx, w1)"
    and w1: "w_faults w1 = []" "w_templates w1 = w_templates w" "w_nodes w1 = w_nodes w"
      "w_policies w1 = w_policies w" "status_writes (w_calls w1) = status_writes (w_calls w)"
      "distinct (map cr_key (w_crs w1))"
    and here: "\<exists>c. find (\<lambda>x. cr_key x = request_key t u) (w_crs w1) = Some c
              \<and> (is_stale e c \<longrightarrow> has_flag c)"
    and other: "\<And>k. k \<noteq> request_key t u \<Longrightarrow>
            find (\<lambda>x. cr_key x = k) (w_crs w1) = find (\<lambda>x. cr_key x = k) (w_crs w)"
    and noop: "(\<exists>c. find (\<lambda>x. cr_key x = request_key t u) (w_crs w) = Some c
              \<and> (is_stale e c \<longrightarrow> has_flag c)) \<Longrightarrow> w_crs w1 = w_crs w"
    by blast
  define result1 where "result1 = (case nx of None \<Rightarrow> result
                                   | Some d \<Rightarrow> updateResultNextReconcile result d)"
  have step: "remediate_each e p (u # us) result w = remediate_each e p us result1 w1"
    by (simp add: run1 result1_def)
  have tmpl1: "template_of p w1 = Some t"
    using Cons.prems(2) w1(2) by (simp add: template_of_def)
  have names': "distinct (map node_name us)" and fresh: "node_name u \<notin> node_name ` set us"
    using Cons.prems(4) by simp_all
  have Ku: "request_key t u \<notin> request_key t ` set us"
    using fresh by (auto simp: request_key_eq_iff)
  from Cons.IH [OF w1(1) tmpl1 w1(6) names', of result1]
  obtain r' w' where run: "remediate_each e p us result1 w1 = (Inr r', w')"
    and f: "w_faults w' = []" "w_templates w' = w_templates w1" "w_nodes w' = w_nodes w1"
      "w_policies w' = w_policies w1" "status_writes (w_calls w') = status_writes (w_calls w1)"
      "distinct (map cr_key (w_crs w'))"
    and there: "\<forall>u \<in> set us. \<exists>c. find (\<lambda>x. cr_key x = request_key t u) (w_crs w') = Some c
              \<and> (is_stale e c \<longrightarrow> has_flag c)"
    and other': "\<And>k. k \<notin> request_key t ` set us \<Longrightarrow>
            find (\<lambda>x. cr_key x = k) (w_crs w') = find (\<lambda>x. cr_key x = k) (w_crs w1)"
    and noop': "(\<forall>u \<in> set us. \<exists>c. find (\<lambda>x. cr_key x = request_key t u) (w_crs w1) = Some c
              \<and> (is_stale e c \<longrightarrow> has_flag c)) \<Longrightarrow> w_crs w' = w_crs w1"
    by blast
  have A: "\<forall>v \<in> set (u # us). \<exists>c. find (\<lambda>x. cr_key x = request_key t v) (w_crs w') = Some c
              \<and> (is_stale e c \<longrightarrow> has_flag c)"
    using there here other' [OF Ku] by simp
  have B: "\<forall>k. k \<notin> request_key t ` set (u # us) \<longrightarrow>
            find (\<lambda>x. cr_key x = k) (w_crs w') = find (\<lambda>x. cr_key x = k) (w_crs w)"
    using other other' by simp
  have C: "(\<forall>v \<in> set (u # us). \<exists>c. find (\<lambda>x. cr_key x = request_key t v) (w_crs w) = Some c
              \<and> (is_stale e c \<longrightarrow> has_flag c)) \<longrightarrow> w_crs w' = w_crs w"
  proof
    assume a: "\<forall>v \<in> set (u # us). \<exists>c. find (\<lambda>x. cr_key x = request_key t v) (w_crs w) = Some c
              \<and> (is_stale e c \<longrightarrow> has_flag c)"
    then have eq1: "w_crs w1 = w_crs w" using noop by simp
    with a have "\<forall>u \<in> set us. \<exists>c. find (\<lambda>x. cr_key x = request_key t u) (w_crs w1) = Some c
              \<and> (is_stale e c \<longrightarrow> has_flag c)" by simp
    from noop' [OF this] eq1 show "w_crs w' = w_crs w" by simp
  qed
  show ?case
    unfolding step
    by (rule exI [of _ r'], rule exI [of _ w'], rule conjI [OF run]) (use f w1 A B C in simp)
qed

subsection \<open>Census and status when the API server answers\<close>

lemma getInflightRemediations_ok:
  assumes nf: "w_faults w = []"
    and tmpl: "template_of p w = Some t" "tpl_spec_template t = Some body"
  shows "getInflightRemediations e p w =
           (Inr (Some (census_of p t (w_crs w))),
            w\<lparr>w_calls := w_calls w @ [GetTemplate (reference_key (nhc_remediationTemplate p)), ListCRs]\<rparr>)"
proof -
  let ?w1 = "w\<lparr>w_calls := w_calls w @ [GetTemplate (reference_key (nhc_remediationTemplate p))]\<rparr>"
  have list: "client_list_crs (tpl_group t) (tpl_version t) (TrimSuffix (tpl_kind t) templateSuffix) ?w1
      = ((filter (\<lambda>u. u_group u = tpl_group t \<and> u_version u = tpl_version t
                     \<and> u_kind u = TrimSuffix (tpl_kind t) templateSuffix) (w_crs w), None),
         ?w1\<lparr>w_calls := w_calls ?w1 @ [ListCRs]\<rparr>)"
    using nf by (simp add: client_list_crs_def issue_def)
  show ?thesis
    unfolding getInflightRemediations_def
      generateRemediationCR_no_faults [OF nf tmpl(1) [unfolded template_of_def] tmpl(2)]
    by (simp add: list census_of_def)
qed

lemma DeepEqual_refl: "DeepEqual m m"
  by (cases m) (simp_all add: DeepEqual_def list_all_iff)

lemma patchStatus_alt:
  "patchStatus p observed unhealthy remediations w =
     (if status_up_to_date p observed unhealthy remediations then (None, w)
      else client_status_patch
             (p\<lparr>nhc_status := (nhc_status p)
                  \<lparr>st_observedNodes := observed,
                   st_healthyNodes := observed - unhealthy,
                   st_inFlightRemediations := remediations\<rparr>\<rparr>)
             (log_info ''Patching NHC object'' w))"
  unfolding patchStatus_def status_up_to_date_def Let_def ..

lemma patchStatus_up_to_date:
  assumes "status_up_to_date p observed unhealthy remediations"
  shows "patchStatus p observed unhealthy remediations w = (None, w)"
  using assms by (simp add: patchStatus_alt)

lemma client_status_patch_ok:
  assumes "w_faults w = []" and "policy_of req w = Some p"
  shows "client_status_patch (p\<lparr>nhc_status := s\<rparr>) w =
           (None, w\<lparr>w_calls := w_calls w @ [StatusPatch],
                    w_policies :=
                      map (\<lambda>q. if same_policy q p
                                then q\<lparr>nhc_status := (nhc_status q)
                                       \<lparr>st_observedNodes := st_observedNodes s,
                                        st_healthyNodes := st_healthyNodes s,
                                        st_inFlightRemediations := st_inFlightRemediations s\<rparr>\<rparr>
                                else q)
                        (w_policies w)\<rparr>)"
proof -
  from policy_of_stored [OF assms(2)] have "\<exists>q \<in> set (w_policies w). same_policy q p"
    by (auto simp: same_policy_def)
  then show ?thesis
    using assms(1) by (simp add: client_status_patch_def issue_def same_policy_def)
qed

lemma patchStatus_ok:
  assumes nf: "w_faults w = []" and pol: "policy_of req w = Some p"
  shows "\<exists>s' w'. patchStatus p observed unhealthy remediations w = (None, w')
     \<and> policy_of req w' = Some (p\<lparr>nhc_status := s'\<rparr>)
     \<and> st_conditions s' = st_conditions (nhc_status p)
     \<and> status_up_to_date (p\<lparr>nhc_status := s'\<rparr>) observed unhealthy remediations
     \<and> w_faults w' = [] \<and> w_crs w' = w_crs w \<and> w_templates w' = w_templates w
     \<and> w_nodes w' = w_nodes w"
proof (cases "status_up_to_date p observed unhealthy remediations")
  case True
  show ?thesis
    by (rule exI [of _ "nhc_status p"], rule exI [of _ w])
      (use True pol nf patchStatus_up_to_date [OF True] in simp)
next
  case False
  define s' where "s' = (nhc_status p)\<lparr>st_observedNodes := observed,
      st_healthyNodes := observed - unhealthy, st_inFlightRemediations := remediations\<rparr>"
  define w1 where "w1 = log_info ''Patching NHC object'' w"
  have nf1: "w_faults w1 = []" and pol1: "policy_of req w1 = Some p"
    using nf pol by (simp_all add: w1_def log_info_def policy_of_def)
  define w' where "w' = w1\<lparr>w_calls := w_calls w1 @ [StatusPatch],
                    w_policies :=
                      map (\<lambda>q. if same_policy q p
                                then q\<lparr>nhc_status := (nhc_status q)
                                       \<lparr>st_observedNodes := st_observedNodes s',
                                        st_healthyNodes := st_healthyNodes s',
                                        st_inFlightRemediations := st_inFlightRemediations s'\<rparr>\<rparr>
                                else q)
                        (w_policies w1)\<rparr>"
  have run: "patchStatus p observed unhealthy remediations w = (None, w')"
    using False client_status_patch_ok [OF nf1 pol1, of s']
    by (simp add: patchStatus_alt s'_def [symmetric] w1_def [symmetric] w'_def)
  have "find (\<lambda>p. nhc_namespace p = req_namespace req \<and> nhc_name p = req_name req)
           (map (\<lambda>q. if same_policy q p
                      then q\<lparr>nhc_status := (nhc_status q)
                                       \<lparr>st_observedNodes := st_observedNodes s',
                                        st_healthyNodes := st_healthyNodes s',
                                        st_inFlightRemediations := st_inFlightRemediations s'\<rparr>\<rparr>
                      else q) (w_policies w1))
         = Some (p\<lparr>nhc_status := (nhc_status p)
                                       \<lparr>st_observedNodes := st_observedNodes s',
                                        st_healthyNodes := st_healthyNodes s',
                                        st_inFlightRemediations := st_inFlightRemediations s'\<rparr>\<rparr>)"
    by (rule policy_of_after_write [OF pol1]) simp
  then have pol': "policy_of req w' = Some (p\<lparr>nhc_status := s'\<rparr>)"
    by (simp add: policy_of_def w'_def s'_def)
  have up: "status_up_to_date (p\<lparr>nhc_status := s'\<rparr>) observed unhealthy remediations"
    by (simp add: status_up_to_date_def s'_def DeepEqual_refl)
  show ?thesis
    by (rule exI [of _ s'], rule exI [of _ w'], intro conjI)
      (use run pol' up nf in \<open>simp_all add: s'_def w'_def w1_def log_info_def\<close>)
qed

lemma shouldTryRemediation_gate:
  assumes "GetScaledValueFromIntOrPercent (nhc_minHealthy p) (int (length nodes)) True = Inr m"
  shows "fst (fst (shouldTryRemediation e p nodes (unhealthy_of e p nodes) m result w))
           = gate_open e p nodes"
  using assms
  by (auto simp: shouldTryRemediation_def isClusterUpgrading_def Let_def gate_open_def
      split: prod.splits bool.splits option.splits)

subsection \<open>The remediation stage when the API server answers\<close>

lemma settled_store_iff:
  "settled_store e p t nodes crs \<longleftrightarrow>
     (\<forall>n \<in> set nodes. node_is_healthy e p n \<longrightarrow> \<not> live_request (request_key t n) crs)
     \<and> (gate_open e p nodes \<longrightarrow>
          (\<forall>u \<in> set (unhealthy_of e p nodes).
             \<exists>c. find (\<lambda>x. cr_key x = request_key t u) crs = Some c
                  \<and> (is_stale e c \<longrightarrow> has_flag c)))"
  by (auto simp: settled_store_def list_all_iff split: option.splits)

lemma gate_status_irrelevant [simp]:
  "gate_open e (p\<lparr>nhc_status := s\<rparr>) = gate_open e p"
  by (simp add: fun_eq_iff gate_open_def split: sum.splits)

lemma census_status_irrelevant [simp]:
  "census_of (p\<lparr>nhc_status := s\<rparr>) = census_of p"
proof -
  have co: "collect_owned (p\<lparr>nhc_status := s\<rparr>) = collect_owned p"
    by (simp add: fun_eq_iff collect_owned_def owner_matches_def)
  show ?thesis by (intro ext) (simp only: census_of_def co)
qed

lemma settled_status_irrelevant [simp]:
  "settled_store e (p\<lparr>nhc_status := s\<rparr>) = settled_store e p"
  by (simp add: fun_eq_iff settled_store_def)

lemma policy_of_cong: "w_policies w' = w_policies w \<Longrightarrow> policy_of req w' = policy_of req w"
  by (simp add: policy_of_def)

lemma Reconcile_remediation_ok:
  assumes nf: "w_faults w = []"
    and tmpl: "template_of p w = Some t" "tpl_spec_template t = Some body"
    and uniq: "distinct (map cr_key (w_crs w))"
    and names: "distinct (map node_name nodes)"
    and pol: "policy_of req w = Some p"
    and healthy: "\<forall>n \<in> set nodes. node_is_healthy e p n \<longrightarrow> \<not> live_request (request_key t n) (w_crs w)"
  shows "\<exists>r w' s'. Reconcile_remediation e p nodes (unhealthy_of e p nodes) result w = (r, w')
     \<and> w_faults w' = [] \<and> w_templates w' = w_templates w \<and> w_nodes w' = w_nodes w
     \<and> distinct (map cr_key (w_crs w'))
     \<and> settled_store e p t nodes (w_crs w')
     \<and> policy_of req w' = Some (p\<lparr>nhc_status := s'\<rparr>)
     \<and> st_conditions s' = st_conditions (nhc_status p)
     \<and> (\<forall>m. GetScaledValueFromIntOrPercent (nhc_minHealthy p) (int (length nodes)) True = Inr m
           \<longrightarrow> status_up_to_date (p\<lparr>nhc_status := s'\<rparr>) (int (length nodes))
                 (int (length (unhealthy_of e p nodes))) (Some (census_of p t (w_crs w'))))
     \<and> (settled_store e p t nodes (w_crs w)
          \<and> (\<forall>m. GetScaledValueFromIntOrPercent (nhc_minHealthy p) (int (length nodes)) True = Inr m
                \<longrightarrow> status_up_to_date p (int (length nodes))
                      (int (length (unhealthy_of e p nodes))) (Some (census_of p t (w_crs w))))
          \<longrightarrow> w_crs w' = w_crs w \<and> w_policies w' = w_policies w
              \<and> status_writes (w_calls w') = status_writes (w_calls w))"
proof (cases "GetScaledValueFromIntOrPercent (nhc_minHealthy p) (int (length nodes)) True")
  case (Inl err)
  let ?w' = "log_error err ''failed to calculate min healthy allowed nodes'' w"
  have run: "Reconcile_remediation e p nodes (unhealthy_of e p nodes) result w = ((result, Some err), ?w')"
    using Inl by (simp add: Reconcile_remediation_def)
  have closed: "\<not> gate_open e p nodes" using Inl by (simp add: gate_open_def)
  have st: "settled_store e p t nodes (w_crs ?w')"
    using healthy closed by (simp add: settled_store_iff log_error_def)
  show ?thesis
    by (rule exI [of _ "(result, Some err)"], rule exI [of _ ?w'], rule exI [of _ "nhc_status p"],
        intro conjI)
      (use run st nf uniq pol Inl in \<open>simp_all add: log_error_def policy_of_def\<close>)
next
  case (Inr m)
  let ?us = "unhealthy_of e p nodes"
  obtain go r1 w1 where s: "shouldTryRemediation e p nodes ?us m result w = ((go, r1), w1)"
    by (cases "shouldTryRemediation e p nodes ?us m result w") auto
  note f1 = shouldTryRemediation_frame [OF s]
  have go: "go = gate_open e p nodes"
    using shouldTryRemediation_gate [OF Inr, of e result w] s by simp
  have nf1: "w_faults w1 = []" and tmpl1: "template_of p w1 = Some t"
    and uniq1: "distinct (map cr_key (w_crs w1))"
    using f1 nf tmpl(1) uniq by (simp_all add: template_of_def)
  have names': "distinct (map node_name ?us)"
    using names by (simp add: unhealthy_of_def distinct_map_filter)
  have "\<exists>r2 w2. (if go then remediate_each e p ?us r1 w1 else (Inr r1, w1)) = (Inr r2, w2)
     \<and> w_faults w2 = [] \<and> w_templates w2 = w_templates w \<and> w_nodes w2 = w_nodes w
     \<and> w_policies w2 = w_policies w
     \<and> status_writes (w_calls w2) = status_writes (w_calls w)
     \<and> distinct (map cr_key (w_crs w2))
     \<and> (go \<longrightarrow> (\<forall>u \<in> set ?us. \<exists>c. find (\<lambda>x. cr_key x = request_key t u) (w_crs w2) = Some c
              \<and> (is_stale e c \<longrightarrow> has_flag c)))
     \<and> (\<forall>k. k \<notin> request_key t ` set ?us \<longrightarrow>
            find (\<lambda>x. cr_key x = k) (w_crs w2) = find (\<lambda>x. cr_key x = k) (w_crs w))
     \<and> ((go \<longrightarrow> (\<forall>u \<in> set ?us. \<exists>c. find (\<lambda>x. cr_key x = request_key t u) (w_crs w) = Some c
              \<and> (is_stale e c \<longrightarrow> has_flag c))) \<longrightarrow> w_crs w2 = w_crs w)"
  proof (cases go)
    case False
    show ?thesis
      by (rule exI [of _ r1], rule exI [of _ w1]) (use False f1 nf uniq in simp)
  next
    case True
    from remediate_each_ok [OF nf1 tmpl1 tmpl(2) uniq1 names', of e r1]
    obtain r2 w2 where "remediate_each e p ?us r1 w1 = (Inr r2, w2)"
      "w_faults w2 = []" "w_templates w2 = w_templates w1" "w_nodes w2 = w_nodes w1"
      "w_policies w2 = w_policies w1"
      "status_writes (w_calls w2) = status_writes (w_calls w1)"
      "distinct (map cr_key (w_crs w2))"
      "\<forall>u \<in> set ?us. \<exists>c. find (\<lambda>x. cr_key x = request_key t u) (w_crs w2) = Some c
              \<and> (is_stale e c \<longrightarrow> has_flag c)"
      "\<forall>k. k \<notin> request_key t ` set ?us \<longrightarrow>
            find (\<lambda>x. cr_key x = k) (w_crs w2) = find (\<lambda>x. cr_key x = k) (w_crs w1)"
      "(\<forall>u \<in> set ?us. \<exists>c. find (\<lambda>x. cr_key x = request_key t u) (w_crs w1) = Some c
              \<and> (is_stale e c \<longrightarrow> has_flag c)) \<longrightarrow> w_crs w2 = w_crs w1"
      by blast
    then show ?thesis
      by (intro exI [of _ r2] exI [of _ w2]) (use True f1 in simp)
  qed
  then obtain r2 w2 where fan: "(if go then remediate_each e p ?us r1 w1 else (Inr r1, w1)) = (Inr r2, w2)"
    and w2: "w_faults w2 = []" "w_templates w2 = w_templates w" "w_nodes w2 = w_nodes w"
      "w_policies w2 = w_policies w" "status_writes (w_calls w2) = status_writes (w_calls w)"
      "distinct (map cr_key (w_crs w2))"
    and made: "go \<longrightarrow> (\<forall>u \<in> set ?us. \<exists>c. find (\<lambda>x. cr_key x = request_key t u) (w_crs w2) = Some c
              \<and> (is_stale e c \<longrightarrow> has_flag c))"
    and others: "\<forall>k. k \<notin> request_key t ` set ?us \<longrightarrow>
            find (\<lambda>x. cr_key x = k) (w_crs w2) = find (\<lambda>x. cr_key x = k) (w_crs w)"
    and stable: "(go \<longrightarrow> (\<forall>u \<in> set ?us. \<exists>c. find (\<lambda>x. cr_key x = request_key t u) (w_crs w) = Some c
              \<and> (is_stale e c \<longrightarrow> has_flag c))) \<longrightarrow> w_crs w2 = w_crs w"
    by blast
  have tmpl2: "template_of p w2 = Some t"
    using w2(2) tmpl(1) by (simp add: template_of_def)
  let ?w3 = "w2\<lparr>w_calls := w_calls w2 @ [GetTemplate (reference_key (nhc_remediationTemplate p)), ListCRs]\<rparr>"
  have census: "getInflightRemediations e p w2 = (Inr (Some (census_of p t (w_crs w2))), ?w3)"
    by (rule getInflightRemediations_ok [OF w2(1) tmpl2 tmpl(2)])
  have nf3: "w_faults ?w3 = []" and pol3: "policy_of req ?w3 = Some p"
    using w2 pol by (simp_all add: policy_of_def)
  from patchStatus_ok [OF nf3 pol3, of "int (length nodes)" "int (length ?us)"
      "Some (census_of p t (w_crs w2))"]
  obtain s' w4 where patch: "patchStatus p (int (length nodes)) (int (length ?us))
        (Some (census_of p t (w_crs w2))) ?w3 = (None, w4)"
    and w4: "policy_of req w4 = Some (p\<lparr>nhc_status := s'\<rparr>)"
      "st_conditions s' = st_conditions (nhc_status p)"
      "status_up_to_date (p\<lparr>nhc_status := s'\<rparr>) (int (length nodes)) (int (length ?us))
         (Some (census_of p t (w_crs w2)))"
      "w_faults w4 = []" "w_crs w4 = w_crs w2" "w_templates w4 = w_templates w2"
      "w_nodes w4 = w_nodes w2"
    by (elim exE conjE) simp
  have run: "Reconcile_remediation e p nodes ?us result w = ((r2, None), w4)"
    by (simp add: Reconcile_remediation_def Inr s fan census patch)
  have kept: "\<not> live_request (request_key t n) (w_crs w2)"
    if n: "n \<in> set nodes" "node_is_healthy e p n" for n
  proof -
    have "request_key t n \<notin> request_key t ` set ?us"
    proof
      assume "request_key t n \<in> request_key t ` set ?us"
      then obtain u where u: "u \<in> set ?us" "node_name u = node_name n"
        by (auto simp: request_key_eq_iff)
      then have "u \<in> set nodes" "\<not> node_is_healthy e p u" by (simp_all add: unhealthy_of_def)
      moreover from names u(2) n(1) \<open>u \<in> set nodes\<close> have "u = n"
        by (simp add: distinct_map inj_on_def)
      ultimately show False using n(2) by simp
    qed
    then have "find (\<lambda>x. cr_key x = request_key t n) (w_crs w2)
        = find (\<lambda>x. cr_key x = request_key t n) (w_crs w)"
      by (rule others [THEN spec, THEN mp])
    moreover from healthy n have "\<not> live_request (request_key t n) (w_crs w)" by simp
    ultimately show ?thesis
      by (simp add: find_key_live [OF uniq] find_key_live [OF w2(6)])
  qed
  have st: "settled_store e p t nodes (w_crs w4)"
    using kept made go w4(5) by (simp add: settled_store_iff)
  have again: "w_crs w4 = w_crs w \<and> w_policies w4 = w_policies w
              \<and> status_writes (w_calls w4) = status_writes (w_calls w)"
    if a: "settled_store e p t nodes (w_crs w)"
      "status_up_to_date p (int (length nodes)) (int (length ?us)) (Some (census_of p t (w_crs w)))"
  proof -
    from a(1) go have "go \<longrightarrow> (\<forall>u \<in> set ?us. \<exists>c. find (\<lambda>x. cr_key x = request_key t u) (w_crs w) = Some c
              \<and> (is_stale e c \<longrightarrow> has_flag c))"
      by (simp add: settled_store_iff)
    with stable have same: "w_crs w2 = w_crs w" by simp
    from patchStatus_up_to_date [OF a(2), of ?w3] patch same have "w4 = ?w3" by simp
    then show ?thesis using same w2 by simp
  qed
  show ?thesis
    by (rule exI [of _ "(r2, None)"], rule exI [of _ w4], rule exI [of _ s'], intro conjI)
      (use run st w4 w2 again Inr in simp_all)
qed

subsection \<open>A whole reconcile when the API server answers\<close>

lemma Reconcile_nodes_ok:
  assumes nf: "w_faults w = []"
    and tmpl: "template_of p w = Some t" "tpl_spec_template t = Some body"
    and uniq: "distinct (map cr_key (w_crs w))"
    and names: "distinct (map node_name (w_nodes w))"
    and pol: "policy_of req w = Some p"
    and sel: "nhc_selector p = Inr sel"
  shows "\<exists>r w' s'. Reconcile_nodes e p result w = (r, w')
     \<and> w_faults w' = [] \<and> w_templates w' = w_templates w \<and> w_nodes w' = w_nodes w
     \<and> distinct (map cr_key (w_crs w'))
     \<and> settled_store e p t (filter sel (w_nodes w)) (w_crs w')
     \<and> policy_of req w' = Some (p\<lparr>nhc_status := s'\<rparr>)
     \<and> st_conditions s' = st_conditions (nhc_status p)
     \<and> (\<forall>m. GetScaledValueFromIntOrPercent (nhc_minHealthy p)
                (int (length (filter sel (w_nodes w)))) True = Inr m
           \<longrightarrow> status_up_to_date (p\<lparr>nhc_status := s'\<rparr>) (int (length (filter sel (w_nodes w))))
                 (int (length (unhealthy_of e p (filter sel (w_nodes w)))))
                 (Some (census_of p t (w_crs w'))))
     \<and> (settled_store e p t (filter sel (w_nodes w)) (w_crs w)
          \<and> (\<forall>m. GetScaledValueFromIntOrPercent (nhc_minHealthy p)
                (int (length (filter sel (w_nodes w)))) True = Inr m
                \<longrightarrow> status_up_to_date p (int (length (filter sel (w_nodes w))))
                      (int (length (unhealthy_of e p (filter sel (w_nodes w)))))
                      (Some (census_of p t (w_crs w))))
          \<longrightarrow> w_policies w' = w_policies w
              \<and> status_writes (w_calls w') = status_writes (w_calls w))"
proof -
  let ?nodes = "filter sel (w_nodes w)"
  let ?w1 = "w\<lparr>w_calls := w_calls w @ [ListNodes]\<rparr>"
  have fetch: "fetchNodes (nhc_selector p) w = ((?nodes, None), ?w1)"
    by (rule fetchNodes_ok [OF nf sel])
  have nf1: "w_faults ?w1 = []" and uniq1: "distinct (map cr_key (w_crs ?w1))"
    and tmpl1: "template_of p ?w1 = Some t"
    using nf uniq tmpl(1) by (simp_all add: template_of_def)
  from checkNodesHealth_from_ok [OF nf1 tmpl1 tmpl(2) uniq1, of e "[]" ?nodes]
  obtain w2 where health0: "checkNodesHealth_from e p [] ?nodes ?w1 = (Inr ([] @ unhealthy_of e p ?nodes), w2)"
    and w20: "w_faults w2 = []" "w_templates w2 = w_templates ?w1" "w_nodes w2 = w_nodes ?w1"
      "w_policies w2 = w_policies ?w1" "distinct (map cr_key (w_crs w2))"
      "status_writes (w_calls w2) = status_writes (w_calls ?w1)"
    and clean: "\<forall>n \<in> set ?nodes. node_is_healthy e p n \<longrightarrow> \<not> live_request (request_key t n) (w_crs w2)"
    and quiet0: "(\<forall>n \<in> set ?nodes. node_is_healthy e p n \<longrightarrow> \<not> live_request (request_key t n) (w_crs ?w1))
            \<longrightarrow> w_crs w2 = w_crs ?w1 \<and> w_events w2 = w_events ?w1"
    by blast
  have health: "checkNodesHealth e ?nodes p ?w1 = (Inr (unhealthy_of e p ?nodes), w2)"
    using health0 by (simp add: checkNodesHealth_def)
  have w2: "w_faults w2 = []" "w_templates w2 = w_templates w" "w_nodes w2 = w_nodes w"
      "w_policies w2 = w_policies w" "distinct (map cr_key (w_crs w2))"
      "status_writes (w_calls w2) = status_writes (w_calls w)"
    using w20 by simp_all
  have quiet: "w_crs w2 = w_crs w"
    if "\<forall>n \<in> set ?nodes. node_is_healthy e p n \<longrightarrow> \<not> live_request (request_key t n) (w_crs w)"
    using quiet0 that by simp
  have tmpl2: "template_of p w2 = Some t" and pol2: "policy_of req w2 = Some p"
    using w2 tmpl(1) pol by (simp_all add: template_of_def policy_of_def)
  have names2: "distinct (map node_name ?nodes)"
    using names by (simp add: distinct_map_filter)
  from Reconcile_remediation_ok [OF w2(1) tmpl2 tmpl(2) w2(5) names2 pol2 clean, of result]
  obtain r w' s' where rem: "Reconcile_remediation e p ?nodes (unhealthy_of e p ?nodes) result w2 = (r, w')"
    and w': "w_faults w' = []" "w_templates w' = w_templates w2" "w_nodes w' = w_nodes w2"
      "distinct (map cr_key (w_crs w'))" "settled_store e p t ?nodes (w_crs w')"
      "policy_of req w' = Some (p\<lparr>nhc_status := s'\<rparr>)"
      "st_conditions s' = st_conditions (nhc_status p)"
    and up: "\<forall>m. GetScaledValueFromIntOrPercent (nhc_minHealthy p) (int (length ?nodes)) True = Inr m
           \<longrightarrow> status_up_to_date (p\<lparr>nhc_status := s'\<rparr>) (int (length ?nodes))
                 (int (length (unhealthy_of e p ?nodes))) (Some (census_of p t (w_crs w')))"
    and again: "settled_store e p t ?nodes (w_crs w2)
          \<and> (\<forall>m. GetScaledValueFromIntOrPercent (nhc_minHealthy p) (int (length ?nodes)) True = Inr m
                \<longrightarrow> status_up_to_date p (int (length ?nodes))
                      (int (length (unhealthy_of e p ?nodes))) (Some (census_of p t (w_crs w2))))
          \<longrightarrow> w_crs w' = w_crs w2 \<and> w_policies w' = w_policies w2
              \<and> status_writes (w_calls w') = status_writes (w_calls w2)"
    by blast
  have run: "Reconcile_nodes e p result w = (r, w')"
    by (simp add: Reconcile_nodes_def fetch health rem)
  have still: "w_policies w' = w_policies w \<and> status_writes (w_calls w') = status_writes (w_calls w)"
    if a: "settled_store e p t ?nodes (w_crs w)"
      "\<forall>m. GetScaledValueFromIntOrPercent (nhc_minHealthy p) (int (length ?nodes)) True = Inr m
                \<longrightarrow> status_up_to_date p (int (length ?nodes))
                      (int (length (unhealthy_of e p ?nodes))) (Some (census_of p t (w_crs w)))"
  proof -
    from a(1) have same: "w_crs w2 = w_crs w" by (intro quiet) (simp add: settled_store_iff)
    with a again have "w_policies w' = w_policies w2
              \<and> status_writes (w_calls w') = status_writes (w_calls w2)" by simp
    with w2 show ?thesis by simp
  qed
  show ?thesis
    apply (rule exI [of _ r], rule exI [of _ w'], rule exI [of _ s'], intro conjI impI)
             apply (rule run)
            apply (simp_all only: w' w2)
      apply (rule up)
     apply (rule still [THEN conjunct1]; simp)
    apply (rule still [THEN conjunct2]; simp)
    done
qed

lemma Reconcile_enabled_step:
  assumes nf: "w_faults w = []" and pol: "policy_of req w = Some p"
    and enabled: "\<not> env_needDisableNHC e"
  shows "\<exists>s w2. Reconcile e req w = Reconcile_nodes e (p\<lparr>nhc_status := s\<rparr>) empty_result w2
     \<and> policy_of req w2 = Some (p\<lparr>nhc_status := s\<rparr>)
     \<and> \<not> IsStatusConditionTrue (st_conditions s) ConditionTypeDisabled
     \<and> st_observedNodes s = st_observedNodes (nhc_status p)
     \<and> st_healthyNodes s = st_healthyNodes (nhc_status p)
     \<and> st_inFlightRemediations s = st_inFlightRemediations (nhc_status p)
     \<and> w_faults w2 = [] \<and> w_crs w2 = w_crs w \<and> w_templates w2 = w_templates w
     \<and> w_nodes w2 = w_nodes w
     \<and> (\<not> IsStatusConditionTrue (st_conditions (nhc_status p)) ConditionTypeDisabled
           \<longrightarrow> s = nhc_status p \<and> w_policies w2 = w_policies w
               \<and> status_writes (w_calls w2) = status_writes (w_calls w))"
proof -
  let ?w1 = "w\<lparr>w_calls := w_calls w @ [GetNHC]\<rparr>"
  have get: "client_get_nhc req w = (Inr p, ?w1)"
    by (rule client_get_nhc_ok [OF nf pol])
  have nf1: "w_faults ?w1 = []" and pol1: "policy_of req ?w1 = Some p"
    using nf pol by (simp_all add: policy_of_def)
  from Reconcile_enable_ok [OF nf1 pol1]
  obtain s w2 where en: "Reconcile_enable p ?w1 = (Inr (p\<lparr>nhc_status := s\<rparr>), w2)"
    and w2: "policy_of req w2 = Some (p\<lparr>nhc_status := s\<rparr>)"
      "\<not> IsStatusConditionTrue (st_conditions s) ConditionTypeDisabled"
      "st_observedNodes s = st_observedNodes (nhc_status p)"
      "st_healthyNodes s = st_healthyNodes (nhc_status p)"
      "st_inFlightRemediations s = st_inFlightRemediations (nhc_status p)"
      "w_faults w2 = []" "w_crs w2 = w_crs ?w1" "w_templates w2 = w_templates ?w1"
      "w_nodes w2 = w_nodes ?w1"
    and same: "\<not> IsStatusConditionTrue (st_conditions (nhc_status p)) ConditionTypeDisabled
           \<longrightarrow> w2 = ?w1 \<and> s = nhc_status p"
    by blast
  have run: "Reconcile e req w = Reconcile_nodes e (p\<lparr>nhc_status := s\<rparr>) empty_result w2"
    using enabled by (simp add: Reconcile_def get en)
  have still: "s = nhc_status p \<and> w_policies w2 = w_policies w
               \<and> status_writes (w_calls w2) = status_writes (w_calls w)"
    if "\<not> IsStatusConditionTrue (st_conditions (nhc_status p)) ConditionTypeDisabled"
  proof -
    from same that have "w2 = ?w1" and s: "s = nhc_status p" by simp_all
    then have "w_policies w2 = w_policies w" "w_calls w2 = w_calls w @ [GetNHC]" by simp_all
    with s show ?thesis by simp
  qed
  show ?thesis
    apply (rule exI [of _ s], rule exI [of _ w2], intro conjI impI)
                apply (rule run)
               apply (rule w2)+
      apply (simp_all add: still w2)
    done
qed

subsection \<open>Reconciles that stop before the status\<close>

lemma generateRemediationCR_broken:
  assumes nf: "w_faults w = []"
    and bad: "\<forall>t. template_of p w = Some t \<longrightarrow> tpl_spec_template t = None"
  shows "\<exists>err. generateRemediationCR e n p w =
           (Inl err, w\<lparr>w_calls := w_calls w @ [GetTemplate (reference_key (nhc_remediationTemplate p))]\<rparr>)"
proof (cases "template_of p w")
  case None
  then show ?thesis
    using nf
    by (simp add: generateRemediationCR_def fetchTemplate_def client_get_template_def issue_def
        template_of_def)
next
  case (Some t)
  with bad have "tpl_spec_template t = None" by simp
  with Some show ?thesis
    using nf
    by (simp add: generateRemediationCR_def fetchTemplate_def client_get_template_def issue_def
        template_of_def)
qed

lemma checkNodesHealth_from_frame:
  assumes "checkNodesHealth_from e p acc ns w = (r, w')"
  shows "w_policies w' = w_policies w \<and> w_templates w' = w_templates w
     \<and> status_writes (w_calls w') = status_writes (w_calls w)
     \<and> (w_faults w = [] \<longrightarrow> w_faults w' = [])"
  using assms
proof (induction ns arbitrary: acc w)
  case Nil
  then show ?case by simp
next
  case (Cons n ns)
  show ?case
  proof (cases "isHealthy (env_now e) (nhc_unhealthyConditions p) (node_conditions n)")
    case False
    with Cons.prems
    have "checkNodesHealth_from e p (if env_needIgnoreNode e n then acc else acc @ [n]) ns w = (r, w')"
      by (simp split: if_splits)
    from Cons.IH [OF this] show ?thesis .
  next
    case True
    obtain m w1 where m: "markHealthy e n p w = (m, w1)"
      by (cases "markHealthy e n p w")
    note f = markHealthy_frame [OF m]
    show ?thesis
    proof (cases m)
      case (Some err)
      with Cons.prems True m have "w' = w1" by simp
      with f show ?thesis by simp
    next
      case None
      with Cons.prems True m have "checkNodesHealth_from e p acc ns w1 = (r, w')" by simp
      from Cons.IH [OF this] f show ?thesis by simp
    qed
  qed
qed

lemma remediate_each_frame:
  assumes "remediate_each e p us result w = (r, w')"
  shows "w_policies w' = w_policies w \<and> w_templates w' = w_templates w
     \<and> status_writes (w_calls w') = status_writes (w_calls w)
     \<and> (w_faults w = [] \<longrightarrow> w_faults w' = [])"
  using assms
proof (induction us arbitrary: result w)
  case Nil
  then show ?case by simp
next
  case (Cons u us)
  obtain x w1 where x: "remediate e u p w = (x, w1)"
    by (cases "remediate e u p w")
  from remediate_frame [OF x]
  have f: "w_policies w1 = w_policies w \<and> w_templates w1 = w_templates w
     \<and> status_writes (w_calls w1) = status_writes (w_calls w)
     \<and> (w_faults w = [] \<longrightarrow> w_faults w1 = [])"
    by blast
  show ?case
  proof (cases x)
    case (Inl err)
    with Cons.prems x have "w' = w1" by simp
    with f show ?thesis by simp
  next
    case (Inr nx)
    with Cons.prems x
    have "remediate_each e p us
            (case nx of None \<Rightarrow> result | Some d \<Rightarrow> updateResultNextReconcile result d) w1 = (r, w')"
      by simp
    from Cons.IH [OF this] f show ?thesis by simp
  qed
qed

lemma remediate_each_broken:
  assumes nf: "w_faults w = []"
    and bad: "\<forall>t. template_of p w = Some t \<longrightarrow> tpl_spec_template t = None"
    and some: "us \<noteq> []"
  shows "\<exists>err w'. remediate_each e p us result w = (Inl err, w')"
proof -
  from some obtain u us' where us: "us = u # us'" by (cases us) auto
  from generateRemediationCR_broken [OF nf bad, of e u]
  obtain err where "generateRemediationCR e u p w =
           (Inl err, w\<lparr>w_calls := w_calls w @ [GetTemplate (reference_key (nhc_remediationTemplate p))]\<rparr>)"
    by blast
  then show ?thesis by (simp add: us remediate_def)
qed

lemma Reconcile_remediation_broken:
  assumes nf: "w_faults w = []"
    and bad: "\<forall>t. template_of p w = Some t \<longrightarrow> tpl_spec_template t = None"
  shows "\<exists>r w'. Reconcile_remediation e p nodes us result w = (r, w')
     \<and> w_policies w' = w_policies w \<and> w_templates w' = w_templates w
     \<and> status_writes (w_calls w') = status_writes (w_calls w) \<and> w_faults w' = []"
proof (cases "GetScaledValueFromIntOrPercent (nhc_minHealthy p) (int (length nodes)) True")
  case (Inl err)
  then show ?thesis using nf by (simp add: Reconcile_remediation_def log_error_def)
next
  case (Inr m)
  obtain go r1 w1 where s: "shouldTryRemediation e p nodes us m result w = ((go, r1), w1)"
    by (cases "shouldTryRemediation e p nodes us m result w") auto
  note f1 = shouldTryRemediation_frame [OF s]
  have nf1: "w_faults w1 = []"
    and bad1: "\<forall>t. template_of p w1 = Some t \<longrightarrow> tpl_spec_template t = None"
    using f1 nf bad by (simp_all add: template_of_def)
  show ?thesis
  proof (cases go)
    case True
    have "us \<noteq> []"
    proof
      assume "us = []"
      then have "\<not> fst (fst (shouldTryRemediation e p nodes us m result w))"
        by (intro shouldTryRemediation_closed) simp
      with s True show False by simp
    qed
    from remediate_each_broken [OF nf1 bad1 this, of e r1]
    obtain err w2 where fan: "remediate_each e p us r1 w1 = (Inl err, w2)" by blast
    from remediate_each_frame [OF fan] f1 nf
    have "w_policies w2 = w_policies w \<and> w_templates w2 = w_templates w
     \<and> status_writes (w_calls w2) = status_writes (w_calls w) \<and> w_faults w2 = []"
      by simp
    moreover have "Reconcile_remediation e p nodes us result w = ((empty_result, Some err), w2)"
      using True by (simp add: Reconcile_remediation_def Inr s fan)
    ultimately show ?thesis by simp
  next
    case False
    from generateRemediationCR_broken [OF nf1 bad1, of e empty_node]
    obtain err where "generateRemediationCR e empty_node p w1 =
           (Inl err, w1\<lparr>w_calls := w_calls w1 @ [GetTemplate (reference_key (nhc_remediationTemplate p))]\<rparr>)"
      by blast
    then have "Reconcile_remediation e p nodes us result w =
        ((empty_result, Some (Wrapped ''failed fetching remediation objects of the NHC'' err)),
         w1\<lparr>w_calls := w_calls w1 @ [GetTemplate (reference_key (nhc_remediationTemplate p))]\<rparr>)"
      using False by (simp add: Reconcile_remediation_def Inr s getInflightRemediations_def)
    then show ?thesis using f1 nf by simp
  qed
qed

lemma Reconcile_nodes_failing:
  assumes nf: "w_faults w = []"
    and bad: "(\<exists>err. nhc_selector p = Inl err)
              \<or> (\<forall>t. template_of p w = Some t \<longrightarrow> tpl_spec_template t = None)"
  shows "\<exists>r w'. Reconcile_nodes e p result w = (r, w')
     \<and> w_policies w' = w_policies w \<and> w_templates w' = w_templates w
     \<and> status_writes (w_calls w') = status_writes (w_calls w) \<and> w_faults w' = []"
proof (cases "nhc_selector p")
  case (Inl err)
  then show ?thesis using nf by (simp add: Reconcile_nodes_def fetchNodes_def)
next
  case (Inr sel)
  with bad have bad': "\<forall>t. template_of p w = Some t \<longrightarrow> tpl_spec_template t = None" by simp
  let ?nodes = "filter sel (w_nodes w)"
  let ?w1 = "w\<lparr>w_calls := w_calls w @ [ListNodes]\<rparr>"
  have fetch: "fetchNodes (nhc_selector p) w = ((?nodes, None), ?w1)"
    by (rule fetchNodes_ok [OF nf Inr])
  obtain c w2 where c: "checkNodesHealth_from e p [] ?nodes ?w1 = (c, w2)"
    by (cases "checkNodesHealth_from e p [] ?nodes ?w1")
  from checkNodesHealth_from_frame [OF c] nf
  have w2: "w_policies w2 = w_policies w" "w_templates w2 = w_templates w"
    "status_writes (w_calls w2) = status_writes (w_calls w)" "w_faults w2 = []"
    by simp_all
  show ?thesis
  proof (cases c)
    case (Inl err)
    then have "Reconcile_nodes e p result w = ((result, Some err), w2)"
      by (simp add: Reconcile_nodes_def fetch checkNodesHealth_def c)
    with w2 show ?thesis by simp
  next
    case (Inr us)
    have bad2: "\<forall>t. template_of p w2 = Some t \<longrightarrow> tpl_spec_template t = None"
      using bad' w2(2) by (simp add: template_of_def)
    from Reconcile_remediation_broken [OF w2(4) bad2, of e ?nodes us result]
    obtain r w' where rem: "Reconcile_remediation e p ?nodes us result w2 = (r, w')"
      and w': "w_policies w' = w_policies w2" "w_templates w' = w_templates w2"
        "status_writes (w_calls w') = status_writes (w_calls w2)" "w_faults w' = []"
      by blast
    have "Reconcile_nodes e p result w = (r, w')"
      by (simp add: Reconcile_nodes_def fetch checkNodesHealth_def c Inr rem)
    with w' w2 show ?thesis by simp
  qed
qed

lemma SetStatusCondition_sets:
  "\<exists>c'. find (\<lambda>x. c_type x = c_type c) (SetStatusCondition now cs c) = Some c'
        \<and> c_status c' = c_status c"
  by (induction cs) (simp_all add: Let_def)

lemma Reconcile_disable_ok:
  assumes nf: "w_faults w = []" and pol: "policy_of req w = Some p"
  shows "\<exists>r w' s. Reconcile_disable e p result w = (r, w')
     \<and> w_faults w' = [] \<and> policy_of req w' = Some (p\<lparr>nhc_status := s\<rparr>)
     \<and> IsStatusConditionTrue (st_conditions s) ConditionTypeDisabled
     \<and> (IsStatusConditionTrue (st_conditions (nhc_status p)) ConditionTypeDisabled
          \<longrightarrow> w_policies w' = w_policies w
              \<and> status_writes (w_calls w') = status_writes (w_calls w))"
proof (cases "IsStatusConditionTrue (st_conditions (nhc_status p)) ConditionTypeDisabled")
  case True
  then have "Reconcile_disable e p result w = ((result, None), w)"
    by (simp add: Reconcile_disable_def)
  with True nf pol show ?thesis
    by (intro exI [of _ "(result, None)"] exI [of _ w] exI [of _ "nhc_status p"]) simp
next
  case False
  define c where "c = \<lparr>c_type = ConditionTypeDisabled, c_status = ''True'',
                              c_reason = ConditionReasonDisabledMHC, c_message = disabled_message,
                              c_lastTransitionTime = 0\<rparr>"
  define s where "s = (nhc_status p)\<lparr>st_conditions :=
                     SetStatusCondition (env_now e) (st_conditions (nhc_status p)) c\<rparr>"
  define w2 where "w2 = record_event eventTypeWarning eventReasonDisabled disabled_message
      (log_info ''disabling NHC in order to avoid conflict with custom MHCs configured in the cluster'' w)"
  have nf2: "w_faults w2 = []" and pol2: "policy_of req w2 = Some p"
    using assms by (simp_all add: w2_def record_event_def log_info_def policy_of_def)
  define w' where "w' = w2\<lparr>w_calls := w_calls w2 @ [StatusUpdate],
                    w_policies := map (\<lambda>q. if same_policy q p then q\<lparr>nhc_status := s\<rparr> else q)
                                    (w_policies w2)\<rparr>"
  have run: "Reconcile_disable e p result w = ((result, None), w')"
    using False client_status_update_ok [OF nf2 pol2, of s]
    by (simp add: Reconcile_disable_def Let_def c_def [symmetric] s_def [symmetric]
        w2_def [symmetric] w'_def)
  have pol': "policy_of req w' = Some (p\<lparr>nhc_status := s\<rparr>)"
    unfolding policy_of_def w'_def
    using policy_of_after_write [OF pol2, of "\<lambda>q. q\<lparr>nhc_status := s\<rparr>"] by simp
  from SetStatusCondition_sets [of c "env_now e" "st_conditions (nhc_status p)"]
  have dis: "IsStatusConditionTrue (st_conditions s) ConditionTypeDisabled"
    by (auto simp: s_def IsStatusConditionTrue_def c_def)
  show ?thesis
    by (rule exI [of _ "(result, None)"], rule exI [of _ w'], rule exI [of _ s], intro conjI)
      (use run pol' dis False nf2 in \<open>simp_all add: w'_def\<close>)
qed

lemma Reconcile_disabled_step:
  assumes nf: "w_faults w = []" and pol: "policy_of req w = Some p"
    and disabled: "env_needDisableNHC e"
  shows "\<exists>r w' s. Reconcile e req w = (r, w')
     \<and> w_faults w' = [] \<and> policy_of req w' = Some (p\<lparr>nhc_status := s\<rparr>)
     \<and> IsStatusConditionTrue (st_conditions s) ConditionTypeDisabled
     \<and> (IsStatusConditionTrue (st_conditions (nhc_status p)) ConditionTypeDisabled
          \<longrightarrow> w_policies w' = w_policies w
              \<and> status_writes (w_calls w') = status_writes (w_calls w))"
proof -
  let ?w1 = "w\<lparr>w_calls := w_calls w @ [GetNHC]\<rparr>"
  have get: "client_get_nhc req w = (Inr p, ?w1)"
    by (rule client_get_nhc_ok [OF nf pol])
  have nf1: "w_faults ?w1 = []" and pol1: "policy_of req ?w1 = Some p"
    using nf pol by (simp_all add: policy_of_def)
  have run: "Reconcile e req w = Reconcile_disable e p empty_result ?w1"
    using disabled by (simp add: Reconcile_def get)
  from Reconcile_disable_ok [OF nf1 pol1, of e empty_result]
  show ?thesis unfolding run by simp
qed

lemma Reconcile_no_policy:
  assumes nf: "w_faults w = []" and pol: "policy_of req w = None"
  shows "\<exists>r w'. Reconcile e req w = (r, w')
     \<and> w_faults w' = [] \<and> w_policies w' = w_policies w
     \<and> status_writes (w_calls w') = status_writes (w_calls w)"
  using assms
  by (simp add: Reconcile_def client_get_nhc_def issue_def policy_of_def log_error_def Let_def)

lemma Reconcile_ok:
  assumes nf: "w_faults w = []"
    and uniq: "distinct (map cr_key (w_crs w))"
    and names: "distinct (map node_name (w_nodes w))"
    and pol: "policy_of req w = Some p"
    and enabled: "\<not> env_needDisableNHC e"
    and sel: "nhc_selector p = Inr sel"
    and tmpl: "template_of p w = Some t" "tpl_spec_template t = Some body"
  shows "\<exists>r w' s'. Reconcile e req w = (r, w')
     \<and> w_faults w' = [] \<and> w_templates w' = w_templates w \<and> w_nodes w' = w_nodes w
     \<and> distinct (map cr_key (w_crs w'))
     \<and> policy_of req w' = Some (p\<lparr>nhc_status := s'\<rparr>)
     \<and> \<not> IsStatusConditionTrue (st_conditions s') ConditionTypeDisabled
     \<and> settled_store e p t (filter sel (w_nodes w)) (w_crs w')
     \<and> (\<forall>m. GetScaledValueFromIntOrPercent (nhc_minHealthy p)
                (int (length (filter sel (w_nodes w)))) True = Inr m
           \<longrightarrow> status_up_to_date (p\<lparr>nhc_status := s'\<rparr>) (int (length (filter sel (w_nodes w))))
                 (int (length (unhealthy_of e p (filter sel (w_nodes w)))))
                 (Some (census_of p t (w_crs w'))))
     \<and> (\<not> IsStatusConditionTrue (st_conditions (nhc_status p)) ConditionTypeDisabled
          \<and> settled_store e p t (filter sel (w_nodes w)) (w_crs w)
          \<and> (\<forall>m. GetScaledValueFromIntOrPercent (nhc_minHealthy p)
                (int (length (filter sel (w_nodes w)))) True = Inr m
                \<longrightarrow> status_up_to_date p (int (length (filter sel (w_nodes w))))
                      (int (length (unhealthy_of e p (filter sel (w_nodes w)))))
                      (Some (census_of p t (w_crs w))))
          \<longrightarrow> w_policies w' = w_policies w
              \<and> status_writes (w_calls w') = status_writes (w_calls w))"
proof -
  from Reconcile_enabled_step [OF nf pol enabled]
  obtain s wa where step: "Reconcile e req w = Reconcile_nodes e (p\<lparr>nhc_status := s\<rparr>) empty_result wa"
    and pol_a: "policy_of req wa = Some (p\<lparr>nhc_status := s\<rparr>)"
    and nd: "\<not> IsStatusConditionTrue (st_conditions s) ConditionTypeDisabled"
    and wa: "w_faults wa = []" "w_crs wa = w_crs w" "w_templates wa = w_templates w"
      "w_nodes wa = w_nodes w"
    and same: "\<not> IsStatusConditionTrue (st_conditions (nhc_status p)) ConditionTypeDisabled
           \<longrightarrow> s = nhc_status p \<and> w_policies wa = w_policies w
               \<and> status_writes (w_calls wa) = status_writes (w_calls w)"
    by blast
  let ?p1 = "p\<lparr>nhc_status := s\<rparr>"
  let ?nodes = "filter sel (w_nodes w)"
  have tmpl_a: "template_of ?p1 wa = Some t"
    using tmpl(1) wa(3) by (simp add: template_of_def)
  have uniq_a: "distinct (map cr_key (w_crs wa))" and names_a: "distinct (map node_name (w_nodes wa))"
    and sel_a: "nhc_selector ?p1 = Inr sel"
    using uniq names sel wa by simp_all
  from Reconcile_nodes_ok [OF wa(1) tmpl_a tmpl(2) uniq_a names_a pol_a sel_a, of e empty_result]
  obtain r w' s' where run: "Reconcile_nodes e ?p1 empty_result wa = (r, w')"
    and w0: "w_faults w' = []" "w_templates w' = w_templates wa" "w_nodes w' = w_nodes wa"
      "distinct (map cr_key (w_crs w'))"
    and st0: "settled_store e ?p1 t (filter sel (w_nodes wa)) (w_crs w')"
    and pol0: "policy_of req w' = Some (?p1\<lparr>nhc_status := s'\<rparr>)"
    and cond0: "st_conditions s' = st_conditions (nhc_status ?p1)"
    and up0: "\<forall>m. GetScaledValueFromIntOrPercent (nhc_minHealthy ?p1)
                (int (length (filter sel (w_nodes wa)))) True = Inr m
           \<longrightarrow> status_up_to_date (?p1\<lparr>nhc_status := s'\<rparr>) (int (length (filter sel (w_nodes wa))))
                 (int (length (unhealthy_of e ?p1 (filter sel (w_nodes wa)))))
                 (Some (census_of ?p1 t (w_crs w')))"
    and again0: "settled_store e ?p1 t (filter sel (w_nodes wa)) (w_crs wa)
          \<and> (\<forall>m. GetScaledValueFromIntOrPercent (nhc_minHealthy ?p1)
                (int (length (filter sel (w_nodes wa)))) True = Inr m
                \<longrightarrow> status_up_to_date ?p1 (int (length (filter sel (w_nodes wa))))
                      (int (length (unhealthy_of e ?p1 (filter sel (w_nodes wa)))))
                      (Some (census_of ?p1 t (w_crs wa))))
          \<longrightarrow> w_policies w' = w_policies wa
              \<and> status_writes (w_calls w') = status_writes (w_calls wa)"
    by blast
  have run': "Reconcile e req w = (r, w')" using step run by simp
  have w': "w_faults w' = []" "w_templates w' = w_templates w" "w_nodes w' = w_nodes w"
    "distinct (map cr_key (w_crs w'))"
    using w0 wa by simp_all
  have pol': "policy_of req w' = Some (p\<lparr>nhc_status := s'\<rparr>)" using pol0 by simp
  have nd': "\<not> IsStatusConditionTrue (st_conditions s') ConditionTypeDisabled"
    using cond0 nd by simp
  have st': "settled_store e p t ?nodes (w_crs w')" using st0 wa by simp
  have up': "\<forall>m. GetScaledValueFromIntOrPercent (nhc_minHealthy p) (int (length ?nodes)) True = Inr m
           \<longrightarrow> status_up_to_date (p\<lparr>nhc_status := s'\<rparr>) (int (length ?nodes))
                 (int (length (unhealthy_of e p ?nodes))) (Some (census_of p t (w_crs w')))"
    using up0 wa by simp
  have still: "w_policies w' = w_policies w \<and> status_writes (w_calls w') = status_writes (w_calls w)"
    if a: "\<not> IsStatusConditionTrue (st_conditions (nhc_status p)) ConditionTypeDisabled"
      "settled_store e p t ?nodes (w_crs w)"
      "\<forall>m. GetScaledValueFromIntOrPercent (nhc_minHealthy p) (int (length ?nodes)) True = Inr m
                \<longrightarrow> status_up_to_date p (int (length ?nodes))
                      (int (length (unhealthy_of e p ?nodes))) (Some (census_of p t (w_crs w)))"
  proof -
    from same a(1) have s: "s = nhc_status p" and b: "w_policies wa = w_policies w"
      "status_writes (w_calls wa) = status_writes (w_calls w)" by simp_all
    have "settled_store e ?p1 t (filter sel (w_nodes wa)) (w_crs wa)"
      using a(2) wa by simp
    moreover have "\<forall>m. GetScaledValueFromIntOrPercent (nhc_minHealthy ?p1)
                (int (length (filter sel (w_nodes wa)))) True = Inr m
                \<longrightarrow> status_up_to_date ?p1 (int (length (filter sel (w_nodes wa))))
                      (int (length (unhealthy_of e ?p1 (filter sel (w_nodes wa)))))
                      (Some (census_of ?p1 t (w_crs wa)))"
      using a(3) wa by (simp add: s status_up_to_date_def)
    ultimately have "w_policies w' = w_policies wa
              \<and> status_writes (w_calls w') = status_writes (w_calls wa)"
      using again0 by blast
    with b show ?thesis by simp
  qed
  show ?thesis
    apply (rule exI [of _ r], rule exI [of _ w'], rule exI [of _ s'], intro conjI impI)
              apply (rule run')
             apply (rule w')+
          apply (rule pol')
         apply (rule nd')
        apply (rule st')
       apply (rule up')
      apply (rule still [THEN conjunct1]; simp)
    apply (rule still [THEN conjunct2]; simp)
    done
qed

lemma Reconcile_failing:
  assumes nf: "w_faults w = []"
    and pol: "policy_of req w = Some p"
    and enabled: "\<not> env_needDisableNHC e"
    and bad: "(\<exists>err. nhc_selector p = Inl err)
              \<or> (\<forall>t. template_of p w = Some t \<longrightarrow> tpl_spec_template t = None)"
  shows "\<exists>r w' s'. Reconcile e req w = (r, w')
     \<and> w_faults w' = [] \<and> w_templates w' = w_templates w
     \<and> policy_of req w' = Some (p\<lparr>nhc_status := s'\<rparr>)
     \<and> \<not> IsStatusConditionTrue (st_conditions s') ConditionTypeDisabled
     \<and> (\<not> IsStatusConditionTrue (st_conditions (nhc_status p)) ConditionTypeDisabled
          \<longrightarrow> w_policies w' = w_policies w
              \<and> status_writes (w_calls w') = status_writes (w_calls w))"
proof -
  from Reconcile_enabled_step [OF nf pol enabled]
  obtain s wa where step: "Reconcile e req w = Reconcile_nodes e (p\<lparr>nhc_status := s\<rparr>) empty_result wa"
    and pol_a: "policy_of req wa = Some (p\<lparr>nhc_status := s\<rparr>)"
    and nd: "\<not> IsStatusConditionTrue (st_conditions s) ConditionTypeDisabled"
    and wa: "w_faults wa = []" "w_templates wa = w_templates w"
    and same: "\<not> IsStatusConditionTrue (st_conditions (nhc_status p)) ConditionTypeDisabled
           \<longrightarrow> s = nhc_status p \<and> w_policies wa = w_policies w
               \<and> status_writes (w_calls wa) = status_writes (w_calls w)"
    by blast
  let ?p1 = "p\<lparr>nhc_status := s\<rparr>"
  have bad_a: "(\<exists>err. nhc_selector ?p1 = Inl err)
              \<or> (\<forall>t. template_of ?p1 wa = Some t \<longrightarrow> tpl_spec_template t = None)"
    using bad wa(2) by (simp add: template_of_def)
  from Reconcile_nodes_failing [OF wa(1) bad_a, of e empty_result]
  obtain r w' where run: "Reconcile_nodes e ?p1 empty_result wa = (r, w')"
    and w0: "w_policies w' = w_policies wa" "w_templates w' = w_templates wa"
      "status_writes (w_calls w') = status_writes (w_calls wa)" "w_faults w' = []"
    by blast
  have run': "Reconcile e req w = (r, w')" using step run by simp
  have pol': "policy_of req w' = Some ?p1"
    using pol_a w0(1) by (simp add: policy_of_def)
  have still: "w_policies w' = w_policies w \<and> status_writes (w_calls w') = status_writes (w_calls w)"
    if "\<not> IsStatusConditionTrue (st_conditions (nhc_status p)) ConditionTypeDisabled"
    using same that w0 by simp
  show ?thesis
    apply (rule exI [of _ r], rule exI [of _ w'], rule exI [of _ s], intro conjI impI)
          apply (rule run')
         apply (rule w0)
        apply (simp add: w0 wa)
       apply (rule pol')
      apply (rule nd)
     apply (rule still [THEN conjunct1]; simp)
    apply (rule still [THEN conjunct2]; simp)
    done
qed

lemma same_content_skips:
  assumes "same_content m1 m2"
  shows "(map_len m1 = 0 \<and> map_len m2 = 0) \<or> DeepEqual m1 m2"
proof (cases m1)
  case None
  show ?thesis
  proof (cases m2)
    case None
    with \<open>m1 = None\<close> show ?thesis by (simp add: DeepEqual_def)
  next
    case (Some b)
    with \<open>m1 = None\<close> assms have "b = []" by (simp add: same_content_def)
    with Some \<open>m1 = None\<close> show ?thesis by (simp add: map_len_def)
  qed
next
  case (Some a)
  show ?thesis
  proof (cases m2)
    case None
    with Some assms have "a = []" by (simp add: same_content_def)
    with Some None show ?thesis by (simp add: map_len_def)
  next
    case (Some b)
    with \<open>m1 = Some a\<close> assms show ?thesis
      by (simp add: same_content_def DeepEqual_def list_all_iff)
  qed
qed

subsection \<open>A probe that fails with the answer true\<close>


end
